(* ===== verification/Prelude.thy ===== *)
theory Prelude
  imports Main
begin

text \<open>
  Shared vocabulary of the development: the collections of rewrite rules the component
  proofs draw on, the types that stand for Python's values, and generic lemmas on lists
  and options.

  A Python \<^verbatim>\<open>str\<close> is a list of code points and a Python \<^verbatim>\<open>bytes\<close> a list of numbers,
  so that \<^verbatim>\<open>len\<close> counts what Python counts. The function \<open>py\<close> turns an ASCII literal
  into such a string.
\<close>

named_theorems py_eval \<open>evaluation of Python string functions on literals\<close>
named_theorems io_step \<open>symbolic execution of effectful operations\<close>

type_synonym pystr = "nat list"
type_synonym pybytes = "nat list"

definition py :: "string \<Rightarrow> pystr" where
  "py s = map of_char s"

lemma py_inject [simp]: "py a = py b \<longleftrightarrow> a = b"
  unfolding py_def by (rule inj_map_eq_map) (simp add: inj_def)

lemma py_Nil [simp]: "py [] = []"
  by (simp add: py_def)

lemma py_append: "py (a @ b) = py a @ py b"
  by (simp add: py_def)

lemma py_Cons: "py (c # s) = of_char c # py s"
  by (simp add: py_def)

lemma length_py [simp]: "length (py s) = length s"
  by (simp add: py_def)

lemma py_eq_Nil [simp]: "py s = [] \<longleftrightarrow> s = []" "[] = py s \<longleftrightarrow> s = []"
  by (auto simp: py_def)

declare py_def [py_eval]

text \<open>An exception is a value: an operation that may raise returns \<open>'e + 'a\<close>.\<close>

definition is_ok :: "'e + 'a \<Rightarrow> bool" where
  "is_ok r = (case r of Inl _ \<Rightarrow> False | Inr _ \<Rightarrow> True)"

lemma is_ok_simps [simp]: "is_ok (Inl e) = False" "is_ok (Inr a) = True"
  by (simp_all add: is_ok_def)

subsection \<open>Lists\<close>

lemma takeWhile_append_not:
  "x \<in> set xs \<Longrightarrow> \<not> P x \<Longrightarrow> takeWhile P (xs @ ys) = takeWhile P xs"
  by (induction xs) auto

lemma concat_map_snoc [simp]: "concat (map f (xs @ [x])) = concat (map f xs) @ f x"
  by simp

lemma filter_concat_map:
  "filter P (concat (map f xs)) = concat (map (\<lambda>x. filter P (f x)) xs)"
  by (induction xs) auto

lemma unique_split: "xs @ x # ys = xs' @ x # ys' \<Longrightarrow> x \<notin> set xs \<Longrightarrow> x \<notin> set ys \<Longrightarrow> xs = xs'"
  by (auto simp: append_eq_append_conv2 Cons_eq_append_conv append_eq_Cons_conv)

lemma length_remove1_Suc: "m \<in> set xs \<Longrightarrow> length xs = Suc (length (remove1 m xs))"
  by (induction xs) auto

lemma length_filter_mono: "(\<And>x. P x \<Longrightarrow> Q x) \<Longrightarrow> length (filter P xs) \<le> length (filter Q xs)"
  by (induction xs) (auto simp: le_SucI)

lemma map_of_filter_key: "map_of (filter (\<lambda>(k, _). P k) d) k = (if P k then map_of d k else None)"
  by (induction d) auto

end
