(* ===== verification/Errors.thy ===== *)
theory Errors
  imports Prelude
begin

text \<open>
  The exceptions of the worker: the hierarchy of \<^verbatim>\<open>worker/sandbox/errors.py\<close> and the
  exceptions of Python and its libraries that its \<^verbatim>\<open>except\<close> clauses tell apart. An
  \<^verbatim>\<open>except C\<close> clause is a predicate on \<open>exn\<close>, so the subclass relation is explicit:
  \<^verbatim>\<open>UnicodeEncodeError\<close> is a \<^verbatim>\<open>ValueError\<close>, \<^verbatim>\<open>OverflowError\<close> is not,
  \<^verbatim>\<open>CancelledError\<close> is not an \<^verbatim>\<open>Exception\<close>.
\<close>

datatype exn =
    SandboxError pystr pystr
  | UnknownLanguageError pystr
  | ImageNotFoundError pystr
  | ImageIntegrityError pystr pystr pystr
  | DockerUnavailableError pystr
  | KeyError
  | TypeError
  | ValueError
  | UnicodeEncodeError
  | AttributeError
  | IndexError
  | OverflowError
  | OSError
  | TimeoutError
  | ProcessLookupError
  | BrokenPipeError
  | ConnectionResetError
  | RuntimeError
  | ResponseError pystr
  | RedisError
  | NotImplementedError
  | CancelledError
  | OtherError

text \<open>The \<^verbatim>\<open>code\<close> attribute each class of the hierarchy passes to its base class.\<close>

fun exn_code :: "exn \<Rightarrow> pystr option" where
  "exn_code (SandboxError message code) = Some code"
| "exn_code (UnknownLanguageError language) = Some (py ''unknown_language'')"
| "exn_code (ImageNotFoundError img) = Some (py ''image_not_found'')"
| "exn_code (ImageIntegrityError img expected actual) = Some (py ''image_integrity'')"
| "exn_code (DockerUnavailableError detail) = Some (py ''docker_unavailable'')"
| "exn_code _ = None"

definition is_SandboxError :: "exn \<Rightarrow> bool" where
  "is_SandboxError e \<longleftrightarrow> exn_code e \<noteq> None"

fun is_UnknownLanguageError :: "exn \<Rightarrow> bool" where
  "is_UnknownLanguageError (UnknownLanguageError _) = True"
| "is_UnknownLanguageError _ = False"

fun is_DockerUnavailableError :: "exn \<Rightarrow> bool" where
  "is_DockerUnavailableError (DockerUnavailableError _) = True"
| "is_DockerUnavailableError _ = False"

definition is_ValueError :: "exn \<Rightarrow> bool" where
  "is_ValueError e \<longleftrightarrow> e = ValueError \<or> e = UnicodeEncodeError"

fun is_RedisError :: "exn \<Rightarrow> bool" where
  "is_RedisError RedisError = True"
| "is_RedisError (ResponseError _) = True"
| "is_RedisError _ = False"

definition is_OSError :: "exn \<Rightarrow> bool" where
  "is_OSError e \<longleftrightarrow> e = OSError \<or> e = TimeoutError \<or> e = ProcessLookupError \<or>
     e = BrokenPipeError \<or> e = ConnectionResetError"

text \<open>\<^verbatim>\<open>except Exception\<close>: everything but the \<^verbatim>\<open>BaseException\<close> of a cancelled task.\<close>

definition is_Exception :: "exn \<Rightarrow> bool" where
  "is_Exception e \<longleftrightarrow> e \<noteq> CancelledError"

lemma DockerUnavailable_is_SandboxError [simp]:
  "is_DockerUnavailableError e \<Longrightarrow> is_SandboxError e"
  by (cases e) (simp_all add: is_SandboxError_def)

end
