(* ===== verification/Py_Str.thy ===== *)
theory Py_Str
  imports Prelude
begin

text \<open>
  The methods of Python's \<^verbatim>\<open>str\<close> and the functions of \<^verbatim>\<open>posixpath\<close> that the worker
  calls. Their behaviour on ASCII is written out; what the Unicode character database says
  about a code point from 128 on is the parameter \<open>ucd\<close>.
\<close>

record ucd =
  ucd_alnum :: "nat \<Rightarrow> bool"
  ucd_space :: "nat \<Rightarrow> bool"
  ucd_upper :: "nat \<Rightarrow> pystr"
  ucd_lower :: "nat \<Rightarrow> pystr"
  ucd_decimal :: "nat \<Rightarrow> nat option"
  ucd_printable :: "nat \<Rightarrow> bool"

definition isalnum :: "ucd \<Rightarrow> nat \<Rightarrow> bool" where
  "isalnum U c = (if c < 128 then 48 \<le> c \<and> c \<le> 57 \<or> 65 \<le> c \<and> c \<le> 90 \<or> 97 \<le> c \<and> c \<le> 122
                  else ucd_alnum U c)"

definition isspace :: "ucd \<Rightarrow> nat \<Rightarrow> bool" where
  "isspace U c = (if c < 128 then 9 \<le> c \<and> c \<le> 13 \<or> 28 \<le> c \<and> c \<le> 32 else ucd_space U c)"

definition upper_char :: "ucd \<Rightarrow> nat \<Rightarrow> pystr" where
  "upper_char U c = (if c < 128 then (if 97 \<le> c \<and> c \<le> 122 then [c - 32] else [c]) else ucd_upper U c)"

definition lower_char :: "ucd \<Rightarrow> nat \<Rightarrow> pystr" where
  "lower_char U c = (if c < 128 then (if 65 \<le> c \<and> c \<le> 90 then [c + 32] else [c]) else ucd_lower U c)"

definition upper :: "ucd \<Rightarrow> pystr \<Rightarrow> pystr" where
  "upper U s = concat (map (upper_char U) s)"

definition lower :: "ucd \<Rightarrow> pystr \<Rightarrow> pystr" where
  "lower U s = concat (map (lower_char U) s)"

definition startswith :: "pystr \<Rightarrow> pystr \<Rightarrow> bool" where
  "startswith s p \<longleftrightarrow> take (length p) s = p"

definition endswith :: "pystr \<Rightarrow> pystr \<Rightarrow> bool" where
  "endswith s p \<longleftrightarrow> length p \<le> length s \<and> drop (length s - length p) s = p"

definition removesuffix :: "pystr \<Rightarrow> pystr \<Rightarrow> pystr" where
  "removesuffix s p = (if endswith s p then take (length s - length p) s else s)"

text \<open>The operator \<^verbatim>\<open>p in s\<close> on strings.\<close>

fun contains :: "pystr \<Rightarrow> pystr \<Rightarrow> bool" where
  "contains [] p = (p = [])"
| "contains (c # s) p = (startswith (c # s) p \<or> contains s p)"

definition strip :: "ucd \<Rightarrow> pystr \<Rightarrow> pystr" where
  "strip U s = rev (dropWhile (isspace U) (rev (dropWhile (isspace U) s)))"

text \<open>\<^verbatim>\<open>s.split()\<close>: maximal runs of non-whitespace.\<close>

function split_ws :: "ucd \<Rightarrow> pystr \<Rightarrow> pystr list" where
  "split_ws U s =
     (case dropWhile (isspace U) s of
        [] \<Rightarrow> []
      | c # r \<Rightarrow> takeWhile (\<lambda>x. \<not> isspace U x) (c # r)
                   # split_ws U (dropWhile (\<lambda>x. \<not> isspace U x) (c # r)))"
  by pat_completeness auto
termination
proof (relation "measure (\<lambda>(U, s). length s)", goal_cases)
  case (2 U s c r)
  have sp: "\<not> isspace U c"
    using 2 by (metis hd_dropWhile list.distinct(1) list.sel(1))
  have "length (dropWhile (\<lambda>x. \<not> isspace U x) r) \<le> length r"
    by (rule length_dropWhile_le)
  moreover have "length (c # r) \<le> length s"
    using 2 length_dropWhile_le [of "isspace U" s] by simp
  ultimately show ?case using sp by simp
qed simp

declare split_ws.simps [simp del]

text \<open>\<^verbatim>\<open>s.split(sep)\<close> for a one-character separator: never empty.\<close>

fun split_on :: "nat \<Rightarrow> pystr \<Rightarrow> pystr list" where
  "split_on sep [] = [[]]"
| "split_on sep (c # s) =
     (if c = sep then [] # split_on sep s
      else (case split_on sep s of [] \<Rightarrow> [[c]] | w # ws \<Rightarrow> (c # w) # ws))"

definition is_linebreak :: "nat \<Rightarrow> bool" where
  "is_linebreak c \<longleftrightarrow> c \<in> {10, 11, 12, 13, 28, 29, 30, 133, 8232, 8233}"

text \<open>\<^verbatim>\<open>s.splitlines()\<close>: a break ends a line, \<^verbatim>\<open>\r\n\<close> is one break, no last empty line.\<close>

fun splitlines_acc :: "pystr \<Rightarrow> pystr \<Rightarrow> pystr list" where
  "splitlines_acc acc [] = (if acc = [] then [] else [rev acc])"
| "splitlines_acc acc (c # s) =
     (if is_linebreak c
      then rev acc # splitlines_acc [] (if c = 13 \<and> s \<noteq> [] \<and> hd s = 10 then tl s else s)
      else splitlines_acc (c # acc) s)"

definition splitlines :: "pystr \<Rightarrow> pystr list" where
  "splitlines s = splitlines_acc [] s"

text \<open>\<^verbatim>\<open>s.replace(a, b)\<close> for single characters.\<close>

definition replace_char :: "nat \<Rightarrow> nat \<Rightarrow> pystr \<Rightarrow> pystr" where
  "replace_char a b s = map (\<lambda>c. if c = a then b else c) s"

subsection \<open>Numbers\<close>

fun digits :: "nat \<Rightarrow> pystr" where
  "digits n = (if n < 10 then [48 + n] else digits (n div 10) @ [48 + n mod 10])"

declare digits.simps [simp del]

definition str_of_int :: "int \<Rightarrow> pystr" where
  "str_of_int i = (if i < 0 then 45 # digits (nat (- i)) else digits (nat i))"

text \<open>
  \<^verbatim>\<open>int(s)\<close>: surrounding whitespace, an optional sign, decimal digits with single
  underscores between them; anything else is a \<^verbatim>\<open>ValueError\<close> (\<open>None\<close>).
\<close>

definition digit_value :: "ucd \<Rightarrow> nat \<Rightarrow> nat option" where
  "digit_value U c = (if c < 128 then (if 48 \<le> c \<and> c \<le> 57 then Some (c - 48) else None)
                      else ucd_decimal U c)"

fun parse_digits :: "ucd \<Rightarrow> nat \<Rightarrow> pystr \<Rightarrow> nat option" where
  "parse_digits U acc [] = Some acc"
| "parse_digits U acc (c # s) =
     (case digit_value U c of
        Some d \<Rightarrow> parse_digits U (acc * 10 + d) s
      | None \<Rightarrow>
          (if c = 95 then
             (case s of [] \<Rightarrow> None
              | c' # s' \<Rightarrow> (case digit_value U c' of
                   Some d \<Rightarrow> parse_digits U (acc * 10 + d) s' | None \<Rightarrow> None))
           else None))"

definition parse_nat :: "ucd \<Rightarrow> pystr \<Rightarrow> nat option" where
  "parse_nat U s = (case s of [] \<Rightarrow> None
     | c # r \<Rightarrow> (case digit_value U c of Some d \<Rightarrow> parse_digits U d r | None \<Rightarrow> None))"

definition int_of_str :: "ucd \<Rightarrow> pystr \<Rightarrow> int option" where
  "int_of_str U s =
     (case strip U s of
        [] \<Rightarrow> None
      | c # r \<Rightarrow>
          (if c = 43 then map_option int (parse_nat U r)
           else if c = 45 then map_option (\<lambda>n. - int n) (parse_nat U r)
           else map_option int (parse_nat U (c # r))))"

subsection \<open>repr\<close>

definition hex_digit :: "nat \<Rightarrow> nat" where
  "hex_digit d = (if d < 10 then 48 + d else 87 + d)"

fun hex :: "nat \<Rightarrow> nat \<Rightarrow> pystr" where
  "hex 0 n = []"
| "hex (Suc w) n = hex w (n div 16) @ [hex_digit (n mod 16)]"

definition isprintable :: "ucd \<Rightarrow> nat \<Rightarrow> bool" where
  "isprintable U c = (if c < 128 then 32 \<le> c \<and> c < 127 else ucd_printable U c)"

definition repr_char :: "ucd \<Rightarrow> nat \<Rightarrow> nat \<Rightarrow> pystr" where
  "repr_char U quote c =
     (if c = quote \<or> c = 92 then [92, c]
      else if c = 9 then [92, 116]
      else if c = 10 then [92, 110]
      else if c = 13 then [92, 114]
      else if isprintable U c then [c]
      else if c < 256 then [92, 120] @ hex 2 c
      else if c < 65536 then [92, 117] @ hex 4 c
      else [92, 85] @ hex 8 c)"

text \<open>\<^verbatim>\<open>repr(s)\<close>: single quotes unless only they occur in the string.\<close>

definition repr :: "ucd \<Rightarrow> pystr \<Rightarrow> pystr" where
  "repr U s =
     (let quote = (if 39 \<in> set s \<and> 34 \<notin> set s then 34 else 39)
      in quote # concat (map (repr_char U quote) s) @ [quote])"

subsection \<open>Paths\<close>

text \<open>\<^verbatim>\<open>os.path.basename\<close>: what follows the last slash.\<close>

definition basename :: "pystr \<Rightarrow> pystr" where
  "basename p = rev (takeWhile (\<lambda>c. c \<noteq> 47) (rev p))"

text \<open>\<^verbatim>\<open>os.path.join(a, b)\<close>.\<close>

definition path_join :: "pystr \<Rightarrow> pystr \<Rightarrow> pystr" where
  "path_join a b =
     (if startswith b [47] then b
      else if a = [] \<or> endswith a [47] then a @ b
      else a @ [47] @ b)"

definition no_unicode :: ucd where
  "no_unicode = \<lparr>ucd_alnum = (\<lambda>_. False), ucd_space = (\<lambda>_. False), ucd_upper = (\<lambda>c. [c]),
     ucd_lower = (\<lambda>c. [c]), ucd_decimal = (\<lambda>_. None),
     ucd_printable = (\<lambda>_. False)\<rparr>"

subsection \<open>Laws\<close>

lemma startswith_append [simp]: "startswith (p @ s) p"
  by (simp add: startswith_def)

lemma startswith_iff: "startswith s p \<longleftrightarrow> (\<exists>r. s = p @ r)"
  unfolding startswith_def by (metis append_eq_conv_conj append_take_drop_id)

lemma endswith_single: "endswith s [x] \<longleftrightarrow> s \<noteq> [] \<and> last s = x"
  by (cases s rule: rev_cases) (auto simp: endswith_def)

lemma basename_no_slash: "47 \<notin> set (basename p)"
  unfolding basename_def by (auto dest: set_takeWhileD)

lemma basename_idem: "47 \<notin> set p \<Longrightarrow> basename p = p"
  unfolding basename_def by (subst takeWhile_eq_all_conv [THEN iffD2]) auto

lemma digits_nonempty [simp]: "digits n \<noteq> []"
  by (subst digits.simps) simp

lemma digits_range: "c \<in> set (digits n) \<Longrightarrow> 48 \<le> c \<and> c \<le> 57"
proof (induction n rule: digits.induct)
  case (1 n)
  show ?case
  proof (cases "n < 10")
    case True
    with 1 show ?thesis by (simp add: digits.simps [of n])
  next
    case False
    have "n mod 10 < 10" by simp
    with 1 False show ?thesis by (auto simp: digits.simps [of n])
  qed
qed

lemma parse_digits_append:
  assumes "list_all (\<lambda>c. 48 \<le> c \<and> c \<le> 57) s" "d < 10"
  shows "parse_digits U acc (s @ [48 + d]) = map_option (\<lambda>a. a * 10 + d) (parse_digits U acc s)"
  using assms by (induction s arbitrary: acc) (auto simp: digit_value_def)

lemma parse_nat_digits: "parse_nat U (digits n) = Some n"
proof (induction n rule: digits.induct)
  case (1 n)
  show ?case
  proof (cases "n < 10")
    case True
    then show ?thesis by (simp add: digits.simps [of n] parse_nat_def digit_value_def)
  next
    case False
    obtain c r where cr: "digits (n div 10) = c # r"
      by (meson digits_nonempty neq_Nil_conv)
    then have "list_all (\<lambda>c. 48 \<le> c \<and> c \<le> 57) (c # r)"
      unfolding list_all_iff using digits_range by metis
    then show ?thesis
      using 1 False cr parse_digits_append [of r "n mod 10" U]
      by (auto simp: digits.simps [of n] parse_nat_def digit_value_def)
  qed
qed

lemma strip_no_space: "list_all (\<lambda>c. \<not> isspace U c) s \<Longrightarrow> strip U s = s"
  unfolding strip_def
  by (metis (mono_tags, lifting) dropWhile_eq_self_iff hd_in_set list_all_iff rev_rev_ident set_rev)

theorem int_of_str_of_int: "int_of_str U (str_of_int i) = Some i"
proof -
  obtain c r where cr: "digits (nat \<bar>i\<bar>) = c # r"
    by (meson digits_nonempty neq_Nil_conv)
  have rng: "\<And>x. x \<in> set (c # r) \<Longrightarrow> 48 \<le> x \<and> x \<le> 57"
    using digits_range cr by metis
  then have "list_all (\<lambda>c. \<not> isspace U c) (45 # c # r)"
    unfolding list_all_iff isspace_def by fastforce
  then have "strip U (45 # c # r) = 45 # c # r" "strip U (c # r) = c # r"
    by (auto intro!: strip_no_space)
  moreover have "parse_nat U (c # r) = Some (nat \<bar>i\<bar>)"
    using parse_nat_digits [of U "nat \<bar>i\<bar>"] cr by simp
  ultimately show ?thesis
    using cr rng [of c] by (auto simp: str_of_int_def int_of_str_def abs_if split: if_splits)
qed

end
