(* ===== verification/Json.thy ===== *)
theory Json
  imports Complex_Main Errors Py_Str
begin

text \<open>
  Python values as \<^verbatim>\<open>json.loads\<close> builds them, and the built-ins the worker applies to
  them: truth value, \<^verbatim>\<open>str()\<close>, \<^verbatim>\<open>int()\<close>, \<^verbatim>\<open>d.get(k)\<close>, \<^verbatim>\<open>d[k]\<close>, \<^verbatim>\<open>d.update\<close>. A dict is
  an association list in insertion order.

  Serialised text is represented by the value it denotes: \<open>Text j\<close> stands for any text that
  \<^verbatim>\<open>json.loads\<close> reads as \<open>j\<close>, in particular for \<^verbatim>\<open>json.dumps(j)\<close>, and \<open>NotJson\<close> for
  any text on which it raises \<^verbatim>\<open>JSONDecodeError\<close>.
\<close>

datatype pyfloat = Finite rat | Infinity bool | NaN

datatype json =
    JNull
  | JBool bool
  | JInt int
  | JFloat pyfloat
  | JStr pystr
  | JList "json list"
  | JObj "(pystr \<times> json) list"

datatype json_text = Text json | NotJson

definition loads :: "json_text \<Rightarrow> json option" where
  "loads t = (case t of Text j \<Rightarrow> Some j | NotJson \<Rightarrow> None)"

abbreviation dumps :: "json \<Rightarrow> json_text" where
  "dumps \<equiv> Text"

lemma loads_dumps [simp]: "loads (dumps j) = Some j"
  by (simp add: loads_def)

lemma loads_NotJson [simp]: "loads NotJson = None"
  by (simp add: loads_def)

subsection \<open>Dictionaries\<close>

fun dict_set :: "('k \<times> 'v) list \<Rightarrow> 'k \<Rightarrow> 'v \<Rightarrow> ('k \<times> 'v) list" where
  "dict_set [] k v = [(k, v)]"
| "dict_set ((k', v') # d) k v = (if k' = k then (k, v) # d else (k', v') # dict_set d k v)"

definition dict_update :: "('k \<times> 'v) list \<Rightarrow> ('k \<times> 'v) list \<Rightarrow> ('k \<times> 'v) list" where
  "dict_update d kvs = foldl (\<lambda>d (k, v). dict_set d k v) d kvs"

lemma map_of_dict_set [simp]: "map_of (dict_set d k v) = (map_of d)(k \<mapsto> v)"
  by (induction d k v rule: dict_set.induct) (auto simp: fun_upd_twist)

lemma fst_dict_set: "map fst (dict_set d k v) = (if k \<in> fst ` set d then map fst d else map fst d @ [k])"
  by (induction d k v rule: dict_set.induct) auto

lemma distinct_dict_set: "distinct (map fst d) \<Longrightarrow> distinct (map fst (dict_set d k v))"
  by (auto simp: fst_dict_set)

lemma dict_update_simps [simp]:
  "dict_update d [] = d" "dict_update d ((k, v) # kvs) = dict_update (dict_set d k v) kvs"
  by (simp_all add: dict_update_def)

text \<open>
  What the users of a dict rely on: a lookup after an update. Then a lookup after
  \<^verbatim>\<open>d.update(kvs)\<close> finds the new entries first and the old ones otherwise.
\<close>

locale keyed_store =
  fixes get :: "'d \<Rightarrow> 'k \<Rightarrow> 'v option"
    and put :: "'d \<Rightarrow> 'k \<Rightarrow> 'v \<Rightarrow> 'd"
  assumes get_put: "get (put d k v) = (get d)(k \<mapsto> v)"
begin

lemma get_put_all:
  "distinct (map fst kvs) \<Longrightarrow> get (foldl (\<lambda>d (k, v). put d k v) d kvs) = get d ++ map_of kvs"
proof (induction kvs arbitrary: d)
  case (Cons kv kvs)
  obtain k v where kv: "kv = (k, v)" by (cases kv)
  then have "map_of kvs k = None" using Cons.prems by (simp add: map_of_eq_None_iff)
  with Cons kv show ?case by (auto simp: get_put map_add_def fun_eq_iff split: option.splits)
qed simp

end

interpretation dict: keyed_store map_of dict_set
  by unfold_locales (rule map_of_dict_set)

lemma map_of_dict_update: "distinct (map fst kvs) \<Longrightarrow> map_of (dict_update d kvs) = map_of d ++ map_of kvs"
  unfolding dict_update_def by (rule dict.get_put_all)

lemma distinct_dict_update: "distinct (map fst d) \<Longrightarrow> distinct (map fst (dict_update d kvs))"
  by (induction kvs arbitrary: d) (auto simp: distinct_dict_set)

subsection \<open>Built-ins\<close>

fun truthy :: "json \<Rightarrow> bool" where
  "truthy JNull = False"
| "truthy (JBool b) = b"
| "truthy (JInt i) = (i \<noteq> 0)"
| "truthy (JFloat x) = (x \<noteq> Finite 0)"
| "truthy (JStr s) = (s \<noteq> [])"
| "truthy (JList js) = (js \<noteq> [])"
| "truthy (JObj d) = (d \<noteq> [])"

text \<open>\<^verbatim>\<open>d.get(k, d0)\<close>; only a dict has the method.\<close>

definition py_get :: "json \<Rightarrow> pystr \<Rightarrow> json \<Rightarrow> exn + json" where
  "py_get j k d0 =
     (case j of
        JObj d \<Rightarrow> Inr (case map_of d k of Some v \<Rightarrow> v | None \<Rightarrow> d0)
      | _ \<Rightarrow> Inl AttributeError)"

text \<open>\<^verbatim>\<open>d[k]\<close> for a string \<^verbatim>\<open>k\<close>.\<close>

definition py_item :: "json \<Rightarrow> pystr \<Rightarrow> exn + json" where
  "py_item j k =
     (case j of
        JObj d \<Rightarrow> (case map_of d k of Some v \<Rightarrow> Inr v | None \<Rightarrow> Inl KeyError)
      | _ \<Rightarrow> Inl TypeError)"

text \<open>\<^verbatim>\<open>str(v)\<close>; the text of a float, list or dict is the parameter \<open>R\<close>.\<close>

definition py_str :: "(json \<Rightarrow> pystr) \<Rightarrow> json \<Rightarrow> pystr" where
  "py_str R j =
     (case j of
        JNull \<Rightarrow> py ''None''
      | JBool b \<Rightarrow> if b then py ''True'' else py ''False''
      | JInt i \<Rightarrow> str_of_int i
      | JStr s \<Rightarrow> s
      | _ \<Rightarrow> R j)"

definition trunc_rat :: "rat \<Rightarrow> int" where
  "trunc_rat q = (if q < 0 then - \<lfloor>- q\<rfloor> else \<lfloor>q\<rfloor>)"

text \<open>\<^verbatim>\<open>int(v)\<close>.\<close>

definition py_int :: "ucd \<Rightarrow> json \<Rightarrow> exn + int" where
  "py_int U j =
     (case j of
        JInt i \<Rightarrow> Inr i
      | JBool b \<Rightarrow> Inr (if b then 1 else 0)
      | JFloat (Finite q) \<Rightarrow> Inr (trunc_rat q)
      | JFloat (Infinity _) \<Rightarrow> Inl OverflowError
      | JFloat NaN \<Rightarrow> Inl ValueError
      | JStr s \<Rightarrow> (case int_of_str U s of Some i \<Rightarrow> Inr i | None \<Rightarrow> Inl ValueError)
      | _ \<Rightarrow> Inl TypeError)"

text \<open>Sequencing of computations that may raise, without effects.\<close>

definition ebind :: "exn + 'a \<Rightarrow> ('a \<Rightarrow> exn + 'b) \<Rightarrow> exn + 'b" where
  "ebind m f = (case m of Inl e \<Rightarrow> Inl e | Inr a \<Rightarrow> f a)"

lemma ebind_simps [simp]: "ebind (Inl e) f = Inl e" "ebind (Inr a) f = f a"
  by (simp_all add: ebind_def)

lemma ebind_Inr: "ebind m f = Inr b \<longleftrightarrow> (\<exists>a. m = Inr a \<and> f a = Inr b)"
  by (cases m) auto

lemma ebind_Inl: "ebind m f = Inl e \<longleftrightarrow> m = Inl e \<or> (\<exists>a. m = Inr a \<and> f a = Inl e)"
  by (cases m) auto

fun emap :: "('a \<Rightarrow> exn + 'b) \<Rightarrow> 'a list \<Rightarrow> exn + 'b list" where
  "emap f [] = Inr []"
| "emap f (x # xs) = ebind (f x) (\<lambda>y. ebind (emap f xs) (\<lambda>ys. Inr (y # ys)))"

end
