(* ===== verification/Environment.thy ===== *)
theory Environment
  imports Json
begin

text \<open>
  Effects. Everything the worker does outside its own memory is a \<open>cmd\<close>: a Redis or MinIO
  call, a one-shot \<^verbatim>\<open>docker\<close> command, the sandbox process, the file system, the clock, a
  metric. What those systems answer is not part of this repository, so it is a parameter:
  an \<open>env\<close> maps the history so far and the next command to a reply or to the exception the
  client library raises. Nothing is assumed about it, so a theorem about all environments
  covers failing, slow and concurrently modified services.

  An effectful operation of type \<open>'a io\<close> takes the history and returns its result together
  with the events it adds, oldest first. The combinators follow Python: \<open>bnd\<close> sequences,
  \<open>catch\<close> is \<^verbatim>\<open>try/except\<close>, \<open>try_finally\<close> is \<^verbatim>\<open>try/finally\<close>.
\<close>

datatype stream_kind = Stdout | Stderr

datatype set_mode = Ex int | KeepTtl

datatype field = FText json_text | FStr pystr

datatype redis_cmd =
    Get pystr
  | Exists pystr
  | Set pystr json_text set_mode
  | Zrem pystr pystr
  | Publish pystr json_text
  | XGroupCreate pystr pystr pystr bool
  | XReadGroup pystr pystr pystr int int
  | XPendingRange pystr pystr int int
  | XClaim pystr pystr pystr int "pystr list"
  | XAck pystr pystr pystr
  | XDel pystr pystr
  | XAdd pystr "(pystr \<times> field) list" int
  | XLen pystr
  | Aclose

datatype minio_cmd =
    BucketExists pystr
  | MakeBucket pystr
  | PutObject pystr pystr json_text pystr

text \<open>
  The sandbox process: a one-shot \<^verbatim>\<open>docker\<close> command, the spawn of \<^verbatim>\<open>docker run\<close>, its
  standard input, the chunks its pipes deliver, the waits on it and its exit status.
\<close>

datatype proc_cmd =
    Simple "pystr list"
  | Spawn "pystr list"
  | WriteStdin pybytes
  | CloseStdin
  | ReadStreams
  | WaitAny int bool
  | WaitProc "int option"
  | KillProc
  | ReturnCode
  | SampleTicks

datatype fs_cmd =
    Makedirs pystr
  | Mkdtemp pystr pystr
  | Chmod pystr nat
  | Realpath pystr
  | WriteText pystr pystr
  | WriteJson pystr json_text
  | ReadText pystr
  | Rmtree pystr
  | Isdir pystr
  | Listdir pystr
  | Getmtime pystr

text \<open>
  The event loop: how many jobs are in flight, acquiring a pool slot, starting a job task,
  waiting for the jobs or the reaper to end, setting the two stop events, the polls of the cancellation watcher.
\<close>

datatype task_cmd =
    InflightCount
  | AcquireSlot
  | StartTask pystr
  | GatherTasks
  | JoinReaper
  | SetStopping
  | SetReaperStop
  | WatchPolls

text \<open>The operations of the metrics client.\<close>

datatype metric_op = Inc | Dec | SetTo | Observe

text \<open>Start-up: the two clients, the metrics endpoint, the signal handlers.\<close>

datatype startup_cmd =
    RedisClient pystr
  | MinioClient pystr bool
  | MetricsServer int
  | SignalHandler int

datatype cmd =
    Redis redis_cmd
  | Minio minio_cmd
  | Proc proc_cmd
  | Fs fs_cmd
  | Task task_cmd
  | Startup startup_cmd
  | Clock
  | NowIso
  | Metric pystr metric_op "(pystr \<times> pystr) list" rat
  | Sleep rat
  | StopIsSet
  | StopWait int
  | RandInt int int
  | RandUniform rat rat

type_synonym fields = "(pystr \<times> json_text) list"

datatype reply =
    RUnit
  | RInt int
  | RBool bool
  | RText "json_text option"
  | RStr pystr
  | RStrs "pystr list"
  | RProc int pybytes pybytes
  | REntries "(pystr \<times> fields) list"
  | RStreams "(pystr \<times> (pystr \<times> fields) list) list"
  | RPending "(pystr \<times> int) list"
  | RWait bool bool
  | RTime rat
  | RExit "int option"
  | RChunks "(stream_kind \<times> pybytes) list"

type_synonym event = "cmd \<times> (exn + reply)"
type_synonym history = "event list"
type_synonym 'a io = "history \<Rightarrow> (exn + 'a) \<times> event list"

record env =
  ask_unit :: "history \<Rightarrow> cmd \<Rightarrow> exn + unit"
  ask_int :: "history \<Rightarrow> cmd \<Rightarrow> exn + int"
  ask_bool :: "history \<Rightarrow> cmd \<Rightarrow> exn + bool"
  ask_text :: "history \<Rightarrow> cmd \<Rightarrow> exn + json_text option"
  ask_str :: "history \<Rightarrow> cmd \<Rightarrow> exn + pystr"
  ask_strs :: "history \<Rightarrow> cmd \<Rightarrow> exn + pystr list"
  ask_proc :: "history \<Rightarrow> cmd \<Rightarrow> exn + int \<times> pybytes \<times> pybytes"
  ask_entries :: "history \<Rightarrow> cmd \<Rightarrow> exn + (pystr \<times> fields) list"
  ask_streams :: "history \<Rightarrow> cmd \<Rightarrow> exn + (pystr \<times> (pystr \<times> fields) list) list"
  ask_pending :: "history \<Rightarrow> cmd \<Rightarrow> exn + (pystr \<times> int) list"
  ask_wait :: "history \<Rightarrow> cmd \<Rightarrow> exn + bool \<times> bool"
  ask_time :: "history \<Rightarrow> cmd \<Rightarrow> exn + rat"
  ask_exit :: "history \<Rightarrow> cmd \<Rightarrow> exn + int option"
  ask_chunks :: "history \<Rightarrow> cmd \<Rightarrow> exn + (stream_kind \<times> pybytes) list"

subsection \<open>Combinators\<close>

definition ret :: "'a \<Rightarrow> 'a io" where
  "ret a h = (Inr a, [])"

definition raise :: "exn \<Rightarrow> 'a io" where
  "raise e h = (Inl e, [])"

definition bnd :: "'a io \<Rightarrow> ('a \<Rightarrow> 'b io) \<Rightarrow> 'b io" where
  "bnd m f h =
     (case m h of
        (Inl e, t) \<Rightarrow> (Inl e, t)
      | (Inr a, t) \<Rightarrow> (let (r, t') = f a (h @ t) in (r, t @ t')))"

abbreviation seq :: "'a io \<Rightarrow> 'b io \<Rightarrow> 'b io" where
  "seq m n \<equiv> bnd m (\<lambda>_. n)"

text \<open>The handler answers \<open>None\<close> for an exception no clause of the \<^verbatim>\<open>except\<close> names.\<close>

definition catch :: "'a io \<Rightarrow> (exn \<Rightarrow> 'a io option) \<Rightarrow> 'a io" where
  "catch m H h =
     (case m h of
        (Inl e, t) \<Rightarrow>
          (case H e of
             None \<Rightarrow> (Inl e, t)
           | Some m' \<Rightarrow> (let (r, t') = m' (h @ t) in (r, t @ t')))
      | (Inr a, t) \<Rightarrow> (Inr a, t))"

definition try_finally :: "'a io \<Rightarrow> unit io \<Rightarrow> 'a io" where
  "try_finally m f h =
     (let (r, t) = m h; (r', t') = f (h @ t)
      in (case r' of Inl e \<Rightarrow> (Inl e, t @ t') | Inr _ \<Rightarrow> (r, t @ t')))"

definition suppress :: "(exn \<Rightarrow> bool) \<Rightarrow> unit io \<Rightarrow> unit io" where
  "suppress P m = catch m (\<lambda>e. if P e then Some (ret ()) else None)"

text \<open>Running an operation to its value or exception, as awaiting a finished task does.\<close>

definition attempt :: "'a io \<Rightarrow> (exn + 'a) io" where
  "attempt m h = (Inr (fst (m h)), snd (m h))"

definition lift :: "exn + 'a \<Rightarrow> 'a io" where
  "lift r = (case r of Inl e \<Rightarrow> raise e | Inr a \<Rightarrow> ret a)"

fun for_each :: "('a \<Rightarrow> unit io) \<Rightarrow> 'a list \<Rightarrow> unit io" where
  "for_each f [] = ret ()"
| "for_each f (x # xs) = seq (f x) (for_each f xs)"

definition call :: "(history \<Rightarrow> cmd \<Rightarrow> exn + 'a) \<Rightarrow> ('a \<Rightarrow> reply) \<Rightarrow> cmd \<Rightarrow> 'a io" where
  "call ask wrap c h = (ask h c, [(c, map_sum id wrap (ask h c))])"

definition do_unit :: "env \<Rightarrow> cmd \<Rightarrow> unit io" where
  "do_unit E = call (ask_unit E) (\<lambda>_. RUnit)"
definition get_int :: "env \<Rightarrow> cmd \<Rightarrow> int io" where
  "get_int E = call (ask_int E) RInt"
definition get_bool :: "env \<Rightarrow> cmd \<Rightarrow> bool io" where
  "get_bool E = call (ask_bool E) RBool"
definition get_text :: "env \<Rightarrow> cmd \<Rightarrow> json_text option io" where
  "get_text E = call (ask_text E) RText"
definition get_str :: "env \<Rightarrow> cmd \<Rightarrow> pystr io" where
  "get_str E = call (ask_str E) RStr"
definition get_strs :: "env \<Rightarrow> cmd \<Rightarrow> pystr list io" where
  "get_strs E = call (ask_strs E) RStrs"
definition get_proc :: "env \<Rightarrow> cmd \<Rightarrow> (int \<times> pybytes \<times> pybytes) io" where
  "get_proc E = call (ask_proc E) (\<lambda>(rc, out, err). RProc rc out err)"
definition get_entries :: "env \<Rightarrow> cmd \<Rightarrow> (pystr \<times> fields) list io" where
  "get_entries E = call (ask_entries E) REntries"
definition get_streams :: "env \<Rightarrow> cmd \<Rightarrow> (pystr \<times> (pystr \<times> fields) list) list io" where
  "get_streams E = call (ask_streams E) RStreams"
definition get_pending :: "env \<Rightarrow> cmd \<Rightarrow> (pystr \<times> int) list io" where
  "get_pending E = call (ask_pending E) RPending"
definition get_wait :: "env \<Rightarrow> cmd \<Rightarrow> (bool \<times> bool) io" where
  "get_wait E = call (ask_wait E) (\<lambda>(a, b). RWait a b)"
definition get_time :: "env \<Rightarrow> cmd \<Rightarrow> rat io" where
  "get_time E = call (ask_time E) RTime"
definition get_exit :: "env \<Rightarrow> cmd \<Rightarrow> int option io" where
  "get_exit E = call (ask_exit E) RExit"
definition get_chunks :: "env \<Rightarrow> cmd \<Rightarrow> (stream_kind \<times> pybytes) list io" where
  "get_chunks E = call (ask_chunks E) RChunks"

text \<open>A metric update cannot fail.\<close>

definition metric :: "string \<Rightarrow> metric_op \<Rightarrow> (pystr \<times> pystr) list \<Rightarrow> rat \<Rightarrow> unit io" where
  "metric name oper labels value h = (Inr (), [(Metric (py name) oper labels value, Inr RUnit)])"

text \<open>Nor can setting an event.\<close>

definition set_event :: "task_cmd \<Rightarrow> unit io" where
  "set_event c h = (Inr (), [(Task c, Inr RUnit)])"

lemmas call_defs = do_unit_def get_int_def get_bool_def get_text_def get_str_def get_strs_def
  get_proc_def get_entries_def get_streams_def get_pending_def get_wait_def get_time_def
  get_exit_def get_chunks_def

subsection \<open>Symbolic execution\<close>

lemma ret_step [io_step]: "ret a h = (Inr a, [])"
  by (simp add: ret_def)

lemma raise_step [io_step]: "raise e h = (Inl e, [])"
  by (simp add: raise_def)

lemma bnd_assoc: "bnd (bnd m f) g = bnd m (\<lambda>a. bnd (f a) g)"
  by (rule ext) (auto simp: bnd_def split: sum.splits prod.splits)

lemma bnd_ret [simp]: "bnd (ret a) f = f a"
  by (rule ext) (simp add: bnd_def ret_def split: prod.splits)

lemma bnd_raise [simp]: "bnd (raise e) f = raise e"
  by (rule ext) (simp add: bnd_def raise_def)

lemma bnd_ret_right [simp]: "bnd m ret = m"
  by (rule ext) (auto simp: bnd_def ret_def split: sum.splits prod.splits)

lemma lift_simps [simp]: "lift (Inl e) = raise e" "lift (Inr a) = ret a"
  by (simp_all add: lift_def)

lemma bnd_Inr [io_step]: "m h = (Inr a, t) \<Longrightarrow> bnd m f h = (fst (f a (h @ t)), t @ snd (f a (h @ t)))"
  by (simp add: bnd_def split: prod.splits)

lemma bnd_Inl [io_step]: "m h = (Inl e, t) \<Longrightarrow> bnd m f h = (Inl e, t)"
  by (simp add: bnd_def)

lemma call_step: "call ask wrap c h = (ask h c, [(c, map_sum id wrap (ask h c))])"
  by (simp add: call_def)

subsection \<open>Which events an operation can emit\<close>

definition only :: "(event \<Rightarrow> bool) \<Rightarrow> 'a io \<Rightarrow> bool" where
  "only P m \<longleftrightarrow> (\<forall>h. list_all P (snd (m h)))"

lemma only_ret [intro!, simp]: "only P (ret a)"
  by (simp add: only_def ret_def)

lemma only_raise [intro!, simp]: "only P (raise e)"
  by (simp add: only_def raise_def)

lemma only_bnd [intro]: "only P m \<Longrightarrow> (\<And>a. only P (f a)) \<Longrightarrow> only P (bnd m f)"
  by (auto simp: only_def bnd_def split: sum.splits prod.splits) (metis list_all_append snd_conv)+

lemma only_catch [intro]:
  "only P m \<Longrightarrow> (\<And>e m'. H e = Some m' \<Longrightarrow> only P m') \<Longrightarrow> only P (catch m H)"
  by (auto simp: only_def catch_def split: sum.splits prod.splits option.splits)
    (metis list_all_append snd_conv)+

lemma only_finally [intro]: "only P m \<Longrightarrow> only P f \<Longrightarrow> only P (try_finally m f)"
  by (auto simp: only_def try_finally_def split: sum.splits prod.splits)
    (metis list_all_append snd_conv)+

lemma only_suppress [intro]: "only P m \<Longrightarrow> only P (suppress Q m)"
  unfolding suppress_def by (rule only_catch) (auto split: if_splits)

lemma only_attempt [intro]: "only P m \<Longrightarrow> only P (attempt m)"
  by (simp add: only_def attempt_def)

lemma only_lift [intro!, simp]: "only P (lift r)"
  by (cases r) auto

lemma only_for_each [intro]: "(\<And>x. x \<in> set xs \<Longrightarrow> only P (f x)) \<Longrightarrow> only P (for_each f xs)"
  by (induction xs) (auto intro!: only_bnd)

lemma only_call [intro]: "(\<And>r. P (c, r)) \<Longrightarrow> only P (call ask wrap c)"
  by (simp add: only_def call_def)

lemma only_calls [intro]:
  "(\<And>r. P (c, r)) \<Longrightarrow> only P (do_unit E c)"
  "(\<And>r. P (c, r)) \<Longrightarrow> only P (get_int E c)"
  "(\<And>r. P (c, r)) \<Longrightarrow> only P (get_bool E c)"
  "(\<And>r. P (c, r)) \<Longrightarrow> only P (get_text E c)"
  "(\<And>r. P (c, r)) \<Longrightarrow> only P (get_str E c)"
  "(\<And>r. P (c, r)) \<Longrightarrow> only P (get_strs E c)"
  "(\<And>r. P (c, r)) \<Longrightarrow> only P (get_proc E c)"
  "(\<And>r. P (c, r)) \<Longrightarrow> only P (get_entries E c)"
  "(\<And>r. P (c, r)) \<Longrightarrow> only P (get_streams E c)"
  "(\<And>r. P (c, r)) \<Longrightarrow> only P (get_pending E c)"
  "(\<And>r. P (c, r)) \<Longrightarrow> only P (get_wait E c)"
  "(\<And>r. P (c, r)) \<Longrightarrow> only P (get_time E c)"
  "(\<And>r. P (c, r)) \<Longrightarrow> only P (get_exit E c)"
  "(\<And>r. P (c, r)) \<Longrightarrow> only P (get_chunks E c)"
  unfolding call_defs by (auto intro: only_call)

lemma only_set_event [intro]: "P (Task c, Inr RUnit) \<Longrightarrow> only P (set_event c)"
  by (simp add: only_def set_event_def)

lemma only_metric [intro]: "P (Metric (py name) oper labels v, Inr RUnit) \<Longrightarrow> only P (metric name oper labels v)"
  by (simp add: only_def metric_def)

lemma onlyD: "only P m \<Longrightarrow> ev \<in> set (snd (m h)) \<Longrightarrow> P ev"
  by (auto simp: only_def list_all_iff)

end
