(* ===== verification/Seccomp.thy ===== *)
theory Seccomp
  imports Environment "HOL-Library.List_Lexorder" "HOL-Library.Word"
begin

unbundle bit_operations_syntax

text \<open>
  \<^verbatim>\<open>worker/sandbox/seccomp.py\<close>: the syscall lists, the two profile builders and
  \<^verbatim>\<open>profile_path\<close>. A profile is a record with the keys of the JSON object; a Python
  set of names is a list without a meaning to its order.

  What a rule of a profile says about a system call is stated by \<open>rule_applies\<close>, after the
  OCI runtime specification: a rule applies to a call when it names it and every argument
  condition holds, where \<^verbatim>\<open>SCMP_CMP_MASKED_EQ\<close> compares the masked 64-bit argument.
\<close>

subsection \<open>Constants and lists\<close>

definition CLONE_NAMESPACE_MASK :: nat where
  "CLONE_NAMESPACE_MASK = 0x7E020000"

definition CLONE_NAMESPACE_FLAGS :: "nat list" where
  "CLONE_NAMESPACE_FLAGS =
     [0x00020000, 0x02000000, 0x04000000, 0x08000000, 0x10000000, 0x20000000, 0x40000000]"

definition ENOSYS :: int where
  "ENOSYS = 38"

definition BLOCKLIST_LANGUAGES :: "pystr list" where
  "BLOCKLIST_LANGUAGES = map py [''typescript'', ''go'', ''rust'']"

definition ARCHITECTURES :: "pystr list" where
  "ARCHITECTURES = map py [''SCMP_ARCH_X86_64'', ''SCMP_ARCH_X86'', ''SCMP_ARCH_X32'',
     ''SCMP_ARCH_AARCH64'', ''SCMP_ARCH_ARM'']"

definition DANGEROUS_SYSCALLS :: "pystr list" where
  "DANGEROUS_SYSCALLS =
     map py
       [''ptrace'', ''process_vm_readv'', ''process_vm_writev'', ''kcmp'', ''init_module'',
        ''finit_module'', ''delete_module'', ''create_module'', ''get_kernel_syms'',
        ''query_module'', ''mount'', ''umount'', ''umount2'', ''mount_setattr'', ''move_mount'',
        ''open_tree'', ''fsopen'', ''fsconfig'', ''fspick'', ''pivot_root'', ''chroot'',
        ''unshare'', ''setns'', ''bpf'', ''keyctl'', ''add_key'', ''request_key'',
        ''perf_event_open'', ''userfaultfd'', ''io_uring_setup'', ''io_uring_enter'',
        ''io_uring_register'', ''io_setup'', ''io_destroy'', ''io_submit'', ''io_cancel'',
        ''io_getevents'', ''kexec_load'', ''kexec_file_load'', ''reboot'', ''swapon'', ''swapoff'',
        ''settimeofday'', ''stime'', ''clock_settime'', ''clock_settime64'', ''clock_adjtime'',
        ''clock_adjtime64'', ''adjtimex'', ''acct'', ''quotactl'', ''nfsservctl'', ''ioperm'',
        ''iopl'', ''modify_ldt'', ''vm86'', ''vm86old'', ''personality'', ''open_by_handle_at'',
        ''name_to_handle_at'', ''fanotify_init'', ''fanotify_mark'', ''lookup_dcookie'', ''sysfs'',
        ''_sysctl'', ''vhangup'', ''memfd_create'', ''memfd_secret'', ''mknod'', ''mknodat'',
        ''setuid'', ''setgid'', ''setreuid'', ''setregid'', ''setresuid'', ''setresgid'',
        ''setfsuid'', ''setfsgid'', ''setgroups'', ''capset'']"

text \<open>The allow-list, in two parts: files first, then memory, processes, time and events.\<close>

definition COMMON_FILE_SYSCALLS :: "pystr list" where
  "COMMON_FILE_SYSCALLS =
     map py
       [''read'', ''write'', ''readv'', ''writev'', ''pread64'', ''pwrite64'', ''preadv'',
        ''pwritev'', ''preadv2'', ''pwritev2'', ''open'', ''openat'', ''openat2'', ''close'',
        ''close_range'', ''creat'', ''lseek'', ''_llseek'', ''dup'', ''dup2'', ''dup3'', ''pipe'',
        ''pipe2'', ''fcntl'', ''fcntl64'', ''flock'', ''fsync'', ''fdatasync'', ''sync'',
        ''syncfs'', ''sync_file_range'', ''fadvise64'', ''fadvise64_64'', ''readahead'',
        ''sendfile'', ''sendfile64'', ''copy_file_range'', ''splice'', ''tee'', ''vmsplice'',
        ''ioctl'', ''stat'', ''fstat'', ''lstat'', ''newfstatat'', ''statx'', ''fstatat64'',
        ''stat64'', ''lstat64'', ''fstat64'', ''statfs'', ''fstatfs'', ''statfs64'', ''fstatfs64'',
        ''getdents'', ''getdents64'', ''getcwd'', ''chdir'', ''fchdir'', ''rename'', ''renameat'',
        ''renameat2'', ''mkdir'', ''mkdirat'', ''rmdir'', ''link'', ''linkat'', ''unlink'',
        ''unlinkat'', ''symlink'', ''symlinkat'', ''readlink'', ''readlinkat'', ''chmod'',
        ''fchmod'', ''fchmodat'', ''chown'', ''fchown'', ''lchown'', ''fchownat'', ''umask'',
        ''access'', ''faccessat'', ''faccessat2'', ''truncate'', ''ftruncate'', ''truncate64'',
        ''ftruncate64'', ''utime'', ''utimes'', ''utimensat'', ''utimensat_time64'', ''futimesat'']"

definition COMMON_OTHER_SYSCALLS :: "pystr list" where
  "COMMON_OTHER_SYSCALLS =
     map py
       [''mmap'', ''mmap2'', ''munmap'', ''mremap'', ''mprotect'', ''msync'', ''mincore'',
        ''madvise'', ''mlock'', ''munlock'', ''mlock2'', ''mlockall'', ''munlockall'', ''brk'',
        ''get_mempolicy'', ''set_mempolicy'', ''membarrier'', ''rt_sigaction'', ''rt_sigprocmask'',
        ''rt_sigreturn'', ''rt_sigpending'', ''rt_sigsuspend'', ''rt_sigtimedwait'',
        ''rt_sigtimedwait_time64'', ''rt_sigqueueinfo'', ''rt_tgsigqueueinfo'', ''sigaltstack'',
        ''signalfd'', ''signalfd4'', ''kill'', ''tgkill'', ''tkill'', ''getpid'', ''getppid'',
        ''gettid'', ''getuid'', ''geteuid'', ''getgid'', ''getegid'', ''getgroups'', ''getresuid'',
        ''getresgid'', ''getpgrp'', ''getpgid'', ''setpgid'', ''getsid'', ''setsid'',
        ''getpriority'', ''setpriority'', ''set_tid_address'', ''set_robust_list'',
        ''get_robust_list'', ''prctl'', ''arch_prctl'', ''getcpu'', ''capget'', ''execve'',
        ''execveat'', ''fork'', ''vfork'', ''exit'', ''exit_group'', ''wait4'', ''waitid'',
        ''futex'', ''futex_waitv'', ''futex_time64'', ''set_thread_area'', ''get_thread_area'',
        ''sched_yield'', ''sched_getaffinity'', ''sched_setaffinity'', ''sched_getparam'',
        ''sched_setparam'', ''sched_getscheduler'', ''sched_setscheduler'',
        ''sched_get_priority_max'', ''sched_get_priority_min'', ''sched_rr_get_interval'',
        ''sched_rr_get_interval_time64'', ''sched_getattr'', ''sched_setattr'', ''rseq'',
        ''nanosleep'', ''clock_nanosleep'', ''clock_nanosleep_time64'', ''clock_gettime'',
        ''clock_gettime64'', ''clock_getres'', ''clock_getres_time64'', ''gettimeofday'', ''time'',
        ''times'', ''getrandom'', ''poll'', ''ppoll'', ''ppoll_time64'', ''select'', ''_newselect'',
        ''pselect6'', ''pselect6_time64'', ''epoll_create'', ''epoll_create1'', ''epoll_ctl'',
        ''epoll_wait'', ''epoll_pwait'', ''epoll_pwait2'', ''eventfd'', ''eventfd2'',
        ''timerfd_create'', ''timerfd_settime'', ''timerfd_settime64'', ''timerfd_gettime'',
        ''timerfd_gettime64'', ''inotify_init'', ''inotify_init1'', ''inotify_add_watch'',
        ''inotify_rm_watch'', ''restart_syscall'', ''getrlimit'', ''setrlimit'', ''prlimit64'',
        ''getrusage'', ''uname'', ''sysinfo'']"

definition COMMON_SYSCALLS :: "pystr list" where
  "COMMON_SYSCALLS = COMMON_FILE_SYSCALLS @ COMMON_OTHER_SYSCALLS"

definition LANGUAGE_EXTRA :: "(pystr \<times> pystr list) list" where
  "LANGUAGE_EXTRA =
     [(py ''python'', []),
      (py ''javascript'', map py [''epoll_pwait'', ''statx'']),
      (py ''typescript'', map py [''epoll_pwait'', ''statx'']),
      (py ''java'', map py [''get_mempolicy'', ''set_mempolicy'', ''getcpu'', ''sched_setaffinity'']),
      (py ''go'', map py [''sched_getaffinity'', ''rseq'']),
      (py ''ruby'', []),
      (py ''rust'', [])]"

definition NETWORK_SYSCALLS :: "pystr list" where
  "NETWORK_SYSCALLS =
     map py
       [''socket'', ''connect'', ''bind'', ''listen'', ''accept'', ''accept4'', ''getsockname'',
        ''getpeername'', ''sendto'', ''recvfrom'', ''sendmsg'', ''recvmsg'', ''sendmmsg'',
        ''recvmmsg'', ''recvmmsg_time64'', ''getsockopt'', ''setsockopt'', ''shutdown'']"

definition ALWAYS_LOCAL :: "pystr list" where
  "ALWAYS_LOCAL = [py ''socketpair'']"

subsection \<open>Profiles\<close>

definition allowed_syscalls :: "pystr \<Rightarrow> bool \<Rightarrow> pystr list" where
  "allowed_syscalls language network_enabled =
     (let allowed = COMMON_SYSCALLS
            @ (case map_of LANGUAGE_EXTRA language of Some extra \<Rightarrow> extra | None \<Rightarrow> []);
          allowed = allowed @ ALWAYS_LOCAL;
          allowed = (if network_enabled then allowed @ NETWORK_SYSCALLS else allowed)
      in filter (\<lambda>s. s \<notin> set DANGEROUS_SYSCALLS) (remdups allowed))"

datatype seccomp_action = SCMP_ACT_ALLOW | SCMP_ACT_ERRNO

record seccomp_arg =
  sa_index :: nat
  sa_value :: nat
  sa_valueTwo :: nat
  sa_op :: pystr

record seccomp_rule =
  names :: "pystr list"
  action :: seccomp_action
  errnoRet :: "int option"
  args :: "seccomp_arg list"

record seccomp_profile =
  defaultAction :: seccomp_action
  defaultErrnoRet :: "int option"
  architectures :: "pystr list"
  syscalls :: "seccomp_rule list"

definition masked_eq :: "nat \<Rightarrow> nat \<Rightarrow> seccomp_arg" where
  "masked_eq m v = \<lparr>sa_index = 0, sa_value = m, sa_valueTwo = v, sa_op = py ''SCMP_CMP_MASKED_EQ''\<rparr>"

definition build_allowlist_profile :: "pystr \<Rightarrow> bool \<Rightarrow> seccomp_profile" where
  "build_allowlist_profile language network_enabled =
     (let allowed = allowed_syscalls language network_enabled
      in \<lparr>defaultAction = SCMP_ACT_ERRNO, defaultErrnoRet = Some 1, architectures = ARCHITECTURES,
          syscalls =
            [\<lparr>names = sort allowed, action = SCMP_ACT_ALLOW, errnoRet = None, args = []\<rparr>,
             \<lparr>names = [py ''clone''], action = SCMP_ACT_ALLOW, errnoRet = None,
              args = [masked_eq CLONE_NAMESPACE_MASK 0]\<rparr>,
             \<lparr>names = [py ''clone3''], action = SCMP_ACT_ERRNO, errnoRet = Some ENOSYS, args = []\<rparr>]\<rparr>)"

definition build_blocklist_profile :: seccomp_profile where
  "build_blocklist_profile =
     \<lparr>defaultAction = SCMP_ACT_ALLOW, defaultErrnoRet = None, architectures = ARCHITECTURES,
      syscalls =
        [\<lparr>names = sort DANGEROUS_SYSCALLS, action = SCMP_ACT_ERRNO, errnoRet = Some 1, args = []\<rparr>,
         \<lparr>names = [py ''clone3''], action = SCMP_ACT_ERRNO, errnoRet = Some ENOSYS, args = []\<rparr>]
        @ map (\<lambda>flag. \<lparr>names = [py ''clone''], action = SCMP_ACT_ERRNO, errnoRet = Some 1,
                       args = [masked_eq flag flag]\<rparr>) CLONE_NAMESPACE_FLAGS\<rparr>"

definition build_profile :: "pystr \<Rightarrow> bool \<Rightarrow> seccomp_profile" where
  "build_profile language network_enabled =
     (if language \<in> set BLOCKLIST_LANGUAGES then build_blocklist_profile
      else build_allowlist_profile language network_enabled)"

subsection \<open>The profile file\<close>

definition action_json :: "seccomp_action \<Rightarrow> json" where
  "action_json a = (case a of SCMP_ACT_ALLOW \<Rightarrow> JStr (py ''SCMP_ACT_ALLOW'')
                            | SCMP_ACT_ERRNO \<Rightarrow> JStr (py ''SCMP_ACT_ERRNO''))"

definition arg_json :: "seccomp_arg \<Rightarrow> json" where
  "arg_json a =
     JObj [(py ''index'', JInt (int (sa_index a))), (py ''value'', JInt (int (sa_value a))),
           (py ''valueTwo'', JInt (int (sa_valueTwo a))), (py ''op'', JStr (sa_op a))]"

definition opt_key :: "string \<Rightarrow> int option \<Rightarrow> (pystr \<times> json) list" where
  "opt_key k v = (case v of None \<Rightarrow> [] | Some i \<Rightarrow> [(py k, JInt i)])"

definition rule_json :: "seccomp_rule \<Rightarrow> json" where
  "rule_json r =
     JObj ([(py ''names'', JList (map JStr (names r))), (py ''action'', action_json (action r))]
           @ opt_key ''errnoRet'' (errnoRet r)
           @ (if args r = [] then [] else [(py ''args'', JList (map arg_json (args r)))]))"

definition profile_json :: "seccomp_profile \<Rightarrow> json" where
  "profile_json p =
     JObj ([(py ''defaultAction'', action_json (defaultAction p))]
           @ opt_key ''defaultErrnoRet'' (defaultErrnoRet p)
           @ [(py ''architectures'', JList (map JStr (architectures p))),
              (py ''syscalls'', JList (map rule_json (syscalls p)))])"

text \<open>
  \<^verbatim>\<open>profile_path\<close>: the environment variable and the temporary directory are parameters.
  The result is memoised per process (\<^verbatim>\<open>lru_cache\<close>): a profile whose write is already in
  the history is not written again.
\<close>

definition profile_file :: "(pystr \<rightharpoonup> pystr) \<Rightarrow> pystr \<Rightarrow> pystr \<Rightarrow> bool \<Rightarrow> pystr \<times> pystr" where
  "profile_file environ tempdir language network_enabled =
     (let cache_dir = (case environ (py ''SECCOMP_CACHE_DIR'') of
             Some d \<Rightarrow> if d = [] then path_join tempdir (py ''sandbox-seccomp'') else d
           | None \<Rightarrow> path_join tempdir (py ''sandbox-seccomp''));
          suffix = (if network_enabled then py ''-net'' else [])
      in (cache_dir, path_join cache_dir (language @ suffix @ py ''.json'')))"

definition profile_path ::
    "env \<Rightarrow> (pystr \<rightharpoonup> pystr) \<Rightarrow> pystr \<Rightarrow> pystr \<Rightarrow> bool \<Rightarrow> pystr io" where
  "profile_path E environ tempdir language network_enabled h =
     (let (cache_dir, path) = profile_file environ tempdir language network_enabled;
          write = Fs (WriteJson path (dumps (profile_json (build_profile language network_enabled))))
      in if (write, Inr RUnit) \<in> set h then ret path h
         else seq (do_unit E (Fs (Makedirs cache_dir)))
                (seq (do_unit E write) (ret path)) h)"

definition main_json :: "pystr list \<Rightarrow> int \<times> json_text option" where
  "main_json argv =
     (case argv of
        _ # language # rest \<Rightarrow>
          (0, Some (dumps (profile_json (build_profile language (py ''--network'' \<in> set rest)))))
      | _ \<Rightarrow> (2, None))"

subsection \<open>What a profile says about a system call\<close>

definition arg_holds :: "seccomp_arg \<Rightarrow> (nat \<Rightarrow> 64 word) \<Rightarrow> bool" where
  "arg_holds a xs \<longleftrightarrow> xs (sa_index a) AND of_nat (sa_value a) = of_nat (sa_valueTwo a)"

definition rule_applies :: "seccomp_rule \<Rightarrow> pystr \<Rightarrow> (nat \<Rightarrow> 64 word) \<Rightarrow> bool" where
  "rule_applies r name xs \<longleftrightarrow> name \<in> set (names r) \<and> list_all (\<lambda>a. arg_holds a xs) (args r)"

definition applying :: "seccomp_profile \<Rightarrow> seccomp_action \<Rightarrow> pystr \<Rightarrow> (nat \<Rightarrow> 64 word) \<Rightarrow> bool" where
  "applying p a name xs \<longleftrightarrow> list_ex (\<lambda>r. action r = a \<and> rule_applies r name xs) (syscalls p)"

lemmas syscall_list_defs = DANGEROUS_SYSCALLS_def COMMON_SYSCALLS_def COMMON_FILE_SYSCALLS_def
  COMMON_OTHER_SYSCALLS_def NETWORK_SYSCALLS_def ALWAYS_LOCAL_def LANGUAGE_EXTRA_def

text \<open>Membership in mapped literals, decided on the literals.\<close>

lemma disjoint_py: "list_all (\<lambda>x. \<not> List.member ys x) xs \<Longrightarrow> set (map py xs) \<inter> set (map py ys) = {}"
  by (auto simp: list_all_iff)

lemma common_file_not_dangerous: "set COMMON_FILE_SYSCALLS \<inter> set DANGEROUS_SYSCALLS = {}"
  unfolding COMMON_FILE_SYSCALLS_def DANGEROUS_SYSCALLS_def by (rule disjoint_py) code_simp

lemma common_other_not_dangerous: "set COMMON_OTHER_SYSCALLS \<inter> set DANGEROUS_SYSCALLS = {}"
  unfolding COMMON_OTHER_SYSCALLS_def DANGEROUS_SYSCALLS_def by (rule disjoint_py) code_simp

lemma network_not_common:
  "set NETWORK_SYSCALLS \<inter> set COMMON_FILE_SYSCALLS = {}"
  "set NETWORK_SYSCALLS \<inter> set COMMON_OTHER_SYSCALLS = {}"
  "set NETWORK_SYSCALLS \<inter> set DANGEROUS_SYSCALLS = {}"
  unfolding NETWORK_SYSCALLS_def COMMON_FILE_SYSCALLS_def COMMON_OTHER_SYSCALLS_def DANGEROUS_SYSCALLS_def
  by (rule disjoint_py, code_simp)+

definition extra_syscalls :: "pystr \<Rightarrow> pystr list" where
  "extra_syscalls language = (case map_of LANGUAGE_EXTRA language of Some extra \<Rightarrow> extra | None \<Rightarrow> [])"

text \<open>Every per-language extra is already in the common list: the extras change no profile.\<close>

lemma extras_listed:
  "list_all (\<lambda>x. py x \<in> set COMMON_SYSCALLS)
     [''epoll_pwait'', ''statx'', ''get_mempolicy'', ''set_mempolicy'', ''getcpu'',
      ''sched_setaffinity'', ''sched_getaffinity'', ''rseq'']"
  unfolding COMMON_SYSCALLS_def COMMON_FILE_SYSCALLS_def COMMON_OTHER_SYSCALLS_def by simp

lemma extra_in_common: "set (extra_syscalls language) \<subseteq> set COMMON_SYSCALLS"
  using extras_listed by (auto simp: extra_syscalls_def LANGUAGE_EXTRA_def split: if_splits)

lemma set_allowed_syscalls:
  "set (allowed_syscalls language net) =
     set COMMON_SYSCALLS \<union> {py ''socketpair''} \<union> (if net then set NETWORK_SYSCALLS else {})"
proof -
  have "py ''socketpair'' \<notin> set DANGEROUS_SYSCALLS"
    by (simp add: DANGEROUS_SYSCALLS_def)
  moreover have "set COMMON_SYSCALLS \<inter> set DANGEROUS_SYSCALLS = {}"
    using common_file_not_dangerous common_other_not_dangerous by (auto simp: COMMON_SYSCALLS_def)
  ultimately show ?thesis
    using extra_in_common [of language] network_not_common(3)
    by (auto simp: allowed_syscalls_def extra_syscalls_def [symmetric] ALWAYS_LOCAL_def)
qed

lemma clone_not_listed:
  "py ''clone'' \<notin> set COMMON_SYSCALLS \<union> set NETWORK_SYSCALLS \<union> set DANGEROUS_SYSCALLS"
  "py ''clone3'' \<notin> set COMMON_SYSCALLS \<union> set NETWORK_SYSCALLS \<union> set DANGEROUS_SYSCALLS"
  unfolding COMMON_SYSCALLS_def COMMON_FILE_SYSCALLS_def COMMON_OTHER_SYSCALLS_def
    NETWORK_SYSCALLS_def DANGEROUS_SYSCALLS_def by simp_all

subsection \<open>Namespace flags\<close>

text \<open>The mask is the union of the single flags, bit by bit.\<close>

lemma masked_zero_iff:
  "(x :: 64 word) AND of_nat CLONE_NAMESPACE_MASK = 0 \<longleftrightarrow>
     (\<forall>flag \<in> set CLONE_NAMESPACE_FLAGS. x AND of_nat flag \<noteq> of_nat flag)"
proof -
  have "x AND 2 ^ n = (if bit x n then 2 ^ n else 0)" for n
    by (rule bit_word_eqI) (auto simp: bit_simps)
  moreover have "(2 :: 64 word) ^ n \<noteq> 0" if "n < 64" for n
    using that by (simp add: exp_eq_zero_iff)
  ultimately have single: "(x AND 2 ^ n = 2 ^ n) = bit x n" "(x AND 2 ^ n = 0) = (\<not> bit x n)"
    if "n < 64" for n
    using that by simp_all
  have mask: "(of_nat CLONE_NAMESPACE_MASK :: 64 word) =
      2 ^ 17 OR 2 ^ 25 OR 2 ^ 26 OR 2 ^ 27 OR 2 ^ 28 OR 2 ^ 29 OR 2 ^ 30"
    by (simp add: CLONE_NAMESPACE_MASK_def)
  have flags: "map of_nat CLONE_NAMESPACE_FLAGS =
      [2 ^ 17, 2 ^ 25, 2 ^ 26, 2 ^ 27, 2 ^ 28, 2 ^ 29, (2 :: 64 word) ^ 30]"
    by (simp add: CLONE_NAMESPACE_FLAGS_def)
  have or2: "(x AND (a OR b) = 0) \<longleftrightarrow> x AND a = 0 \<and> x AND b = 0" for a b :: "64 word"
    by (auto simp: bit_eq_iff bit_simps)
  have "x AND of_nat CLONE_NAMESPACE_MASK = 0 \<longleftrightarrow>
      (\<forall>f \<in> set (map of_nat CLONE_NAMESPACE_FLAGS). x AND f = 0)"
    unfolding mask flags by (simp only: or2 list.set ball_simps simp_thms)
  also have "\<dots> \<longleftrightarrow> (\<forall>f \<in> set (map of_nat CLONE_NAMESPACE_FLAGS). x AND f \<noteq> f)"
    unfolding flags by (simp add: single del: power_numeral)
  finally show ?thesis by simp
qed

lemma dangerous_not_allowed:
  "name \<in> set DANGEROUS_SYSCALLS \<Longrightarrow> name \<notin> set (allowed_syscalls language net)"
  by (auto simp: allowed_syscalls_def Let_def)

lemma masked_eq_holds: "arg_holds (masked_eq m v) xs \<longleftrightarrow> xs 0 AND of_nat m = of_nat v"
  by (simp add: arg_holds_def masked_eq_def)

lemma allowlist_allows:
  "applying (build_allowlist_profile language net) SCMP_ACT_ALLOW name xs \<longleftrightarrow>
     name \<in> set (allowed_syscalls language net) \<or>
     name = py ''clone'' \<and> xs 0 AND of_nat CLONE_NAMESPACE_MASK = 0"
  by (auto simp: applying_def build_allowlist_profile_def Let_def rule_applies_def masked_eq_holds)

lemma blocklist_denies:
  "applying build_blocklist_profile SCMP_ACT_ERRNO name xs \<longleftrightarrow>
     name \<in> set DANGEROUS_SYSCALLS \<or> name = py ''clone3'' \<or>
     name = py ''clone'' \<and> xs 0 AND of_nat CLONE_NAMESPACE_MASK \<noteq> 0"
  by (auto simp: applying_def build_blocklist_profile_def rule_applies_def masked_eq_holds masked_zero_iff
      list_ex_iff)

text \<open>
  C9: No profile lets a dangerous system call run. Under a default-deny profile no allow
  rule applies to it, whatever its arguments; under a default-allow profile a deny rule
  applies to it.
\<close>

theorem dangerous_syscalls_denied:
  assumes "name \<in> set DANGEROUS_SYSCALLS"
  shows "(defaultAction (build_profile language net) = SCMP_ACT_ERRNO \<and>
            \<not> applying (build_profile language net) SCMP_ACT_ALLOW name xs) \<or>
         (defaultAction (build_profile language net) = SCMP_ACT_ALLOW \<and>
            applying (build_profile language net) SCMP_ACT_ERRNO name xs)"
proof -
  have "name \<noteq> py ''clone''" using assms clone_not_listed by auto
  then show ?thesis
    using assms dangerous_not_allowed
    by (auto simp: build_profile_def allowlist_allows blocklist_denies)
      (simp_all add: build_blocklist_profile_def build_allowlist_profile_def Let_def)
qed

theorem dangerous_syscalls_denied_witness:
  "\<not> applying (build_profile (py ''python'') False) SCMP_ACT_ALLOW (py ''ptrace'') (\<lambda>_. 0)
   \<and> py ''ptrace'' \<in> set DANGEROUS_SYSCALLS"
proof -
  have mem: "py ''ptrace'' \<in> set DANGEROUS_SYSCALLS" by (simp add: DANGEROUS_SYSCALLS_def)
  have "defaultAction (build_profile (py ''python'') False) \<noteq> SCMP_ACT_ALLOW"
    by (simp add: build_profile_def BLOCKLIST_LANGUAGES_def build_allowlist_profile_def Let_def)
  with dangerous_syscalls_denied [OF mem, of "py ''python''" False "\<lambda>_. 0"] mem show ?thesis by simp
qed

text \<open>
  C23: The default-deny and the default-allow profiles decide \<^verbatim>\<open>clone\<close> identically: it is
  let through exactly when its flags create no namespace, that is, when none of the seven
  \<^verbatim>\<open>CLONE_NEW*\<close> bits of the 64-bit flag argument is set; \<^verbatim>\<open>clone3\<close> is never let through.
\<close>

theorem clone_policy_agrees:
  "(applying (build_allowlist_profile language net) SCMP_ACT_ALLOW (py ''clone'') xs \<longleftrightarrow>
      list_all (\<lambda>flag. xs 0 AND of_nat flag \<noteq> of_nat flag) CLONE_NAMESPACE_FLAGS) \<and>
   (\<not> applying build_blocklist_profile SCMP_ACT_ERRNO (py ''clone'') xs \<longleftrightarrow>
      list_all (\<lambda>flag. xs 0 AND of_nat flag \<noteq> of_nat flag) CLONE_NAMESPACE_FLAGS) \<and>
   \<not> applying (build_allowlist_profile language net) SCMP_ACT_ALLOW (py ''clone3'') xs \<and>
   applying build_blocklist_profile SCMP_ACT_ERRNO (py ''clone3'') xs"
  using clone_not_listed
  by (auto simp: allowlist_allows blocklist_denies set_allowed_syscalls masked_zero_iff list_all_iff)

text \<open>
  C24: The network switch of a default-deny profile is exactly the network system calls:
  without egress none of them is let through, with egress all are, and no other call's
  treatment changes. The default-allow profiles ignore the switch.
\<close>

theorem network_switch_exact:
  "(applying (build_allowlist_profile language True) SCMP_ACT_ALLOW name xs \<longleftrightarrow>
      applying (build_allowlist_profile language False) SCMP_ACT_ALLOW name xs \<or>
      name \<in> set NETWORK_SYSCALLS) \<and>
   \<not> (name \<in> set NETWORK_SYSCALLS \<and>
      applying (build_allowlist_profile language False) SCMP_ACT_ALLOW name xs) \<and>
   list_all (\<lambda>l. build_profile l True = build_profile l False) BLOCKLIST_LANGUAGES"
proof -
  have "py ''socketpair'' \<notin> set NETWORK_SYSCALLS" by (simp add: NETWORK_SYSCALLS_def)
  then have "\<not> (name \<in> set NETWORK_SYSCALLS \<and>
      applying (build_allowlist_profile language False) SCMP_ACT_ALLOW name xs)"
    using network_not_common clone_not_listed
    by (auto simp: allowlist_allows set_allowed_syscalls COMMON_SYSCALLS_def)
  then show ?thesis
    by (auto simp: allowlist_allows set_allowed_syscalls build_profile_def list_all_iff)
qed

end
