(* ===== verification/Utf8.thy ===== *)
theory Utf8
  imports Prelude
begin

text \<open>
  The UTF-8 codec the worker uses through \<^verbatim>\<open>str.encode("utf-8")\<close>,
  \<^verbatim>\<open>bytes.decode("utf-8", errors)\<close> and
  \<^verbatim>\<open>codecs.getincrementaldecoder("utf-8")(errors="replace")\<close>: part of Python's standard
  library, modelled from its documented behaviour (RFC 3629 well-formedness; an ill-formed
  sequence is replaced or dropped per maximal subpart; a truncated sequence at the end of
  non-final input is kept for the next call).
\<close>

subsection \<open>Encoding\<close>

definition scalar :: "nat \<Rightarrow> bool" where
  "scalar c \<longleftrightarrow> c < 0xD800 \<or> 0xE000 \<le> c \<and> c < 0x110000"

definition enc :: "nat \<Rightarrow> pybytes" where
  "enc c =
     (if c < 0x80 then [c]
      else if c < 0x800 then [0xC0 + c div 64, 0x80 + c mod 64]
      else if c < 0x10000 then [0xE0 + c div 4096, 0x80 + c div 64 mod 64, 0x80 + c mod 64]
      else [0xF0 + c div 262144, 0x80 + c div 4096 mod 64, 0x80 + c div 64 mod 64, 0x80 + c mod 64])"

definition encode :: "pystr \<Rightarrow> pybytes" where
  "encode s = concat (map enc s)"

definition encodable :: "pystr \<Rightarrow> bool" where
  "encodable s \<longleftrightarrow> list_all scalar s"

subsection \<open>Decoding\<close>

datatype step = Char nat nat | Bad nat | More

definition cont :: "nat \<Rightarrow> bool" where
  "cont b \<longleftrightarrow> 0x80 \<le> b \<and> b \<le> 0xBF"

definition second_ok :: "nat \<Rightarrow> nat \<Rightarrow> bool" where
  "second_ok b0 b1 \<longleftrightarrow> cont b1 \<and>
     (b0 = 0xE0 \<longrightarrow> 0xA0 \<le> b1) \<and> (b0 = 0xED \<longrightarrow> b1 \<le> 0x9F) \<and>
     (b0 = 0xF0 \<longrightarrow> 0x90 \<le> b1) \<and> (b0 = 0xF4 \<longrightarrow> b1 \<le> 0x8F)"

fun utf8_step :: "pybytes \<Rightarrow> step" where
  "utf8_step [] = More"
| "utf8_step (b0 # r0) =
     (if b0 < 0x80 then Char b0 1
      else if 0xC2 \<le> b0 \<and> b0 \<le> 0xDF then
        (case r0 of [] \<Rightarrow> More
         | b1 # _ \<Rightarrow> if cont b1 then Char ((b0 - 0xC0) * 64 + (b1 - 0x80)) 2 else Bad 1)
      else if 0xE0 \<le> b0 \<and> b0 \<le> 0xEF then
        (case r0 of [] \<Rightarrow> More
         | b1 # r1 \<Rightarrow> if \<not> second_ok b0 b1 then Bad 1
             else (case r1 of [] \<Rightarrow> More
               | b2 # _ \<Rightarrow> if cont b2
                   then Char ((b0 - 0xE0) * 4096 + (b1 - 0x80) * 64 + (b2 - 0x80)) 3
                   else Bad 2))
      else if 0xF0 \<le> b0 \<and> b0 \<le> 0xF4 then
        (case r0 of [] \<Rightarrow> More
         | b1 # r1 \<Rightarrow> if \<not> second_ok b0 b1 then Bad 1
             else (case r1 of [] \<Rightarrow> More
               | b2 # r2 \<Rightarrow> if \<not> cont b2 then Bad 2
                   else (case r2 of [] \<Rightarrow> More
                     | b3 # _ \<Rightarrow> if cont b3
                         then Char ((b0 - 0xF0) * 262144 + (b1 - 0x80) * 4096
                                    + (b2 - 0x80) * 64 + (b3 - 0x80)) 4
                         else Bad 3)))
      else Bad 1)"

datatype errors = Replace | Ignore

definition bad :: "errors \<Rightarrow> pystr" where
  "bad h = (case h of Replace \<Rightarrow> [0xFFFD] | Ignore \<Rightarrow> [])"

lemma utf8_step_length:
  "utf8_step bs = Char c n \<Longrightarrow> 1 \<le> n \<and> n \<le> length bs"
  "utf8_step bs = Bad n \<Longrightarrow> 1 \<le> n \<and> n \<le> length bs"
  by (induction bs rule: utf8_step.induct) (auto split: if_splits list.splits)

function decode :: "errors \<Rightarrow> bool \<Rightarrow> pybytes \<Rightarrow> pystr \<times> pybytes" where
  "decode h final bs =
     (if bs = [] then ([], [])
      else (case utf8_step bs of
        Char c n \<Rightarrow> (let (out, rest) = decode h final (drop n bs) in (c # out, rest))
      | Bad n \<Rightarrow> (let (out, rest) = decode h final (drop n bs) in (bad h @ out, rest))
      | More \<Rightarrow> if final then (bad h, []) else ([], bs)))"
  by pat_completeness auto
termination
  by (relation "measure (\<lambda>(h, final, bs). length bs)") (auto dest: utf8_step_length)

declare decode.simps [simp del]

text \<open>
  \<^verbatim>\<open>IncrementalDecoder.decode(chunk, final)\<close>: the buffered bytes come first, the
  undecoded tail is buffered for the next call.
\<close>

definition incr_decode :: "errors \<Rightarrow> pybytes \<Rightarrow> pybytes \<Rightarrow> bool \<Rightarrow> pystr \<times> pybytes" where
  "incr_decode h buf chunk final = decode h final (buf @ chunk)"

subsection \<open>Chunk independence\<close>

text \<open>What a step decides about a prefix it also decides about every extension.\<close>

lemma utf8_step_extend: "utf8_step bs \<noteq> More \<Longrightarrow> utf8_step (bs @ ys) = utf8_step bs"
  by (induction bs rule: utf8_step.induct) (auto split: if_splits list.splits)

lemma decode_Nil [simp]: "decode h final [] = ([], [])"
  by (simp add: decode.simps)

lemma decode_Char:
  "utf8_step bs = Char c n \<Longrightarrow>
   decode h final bs = (c # fst (decode h final (drop n bs)), snd (decode h final (drop n bs)))"
  by (auto simp: decode.simps [of h final bs] split: prod.splits dest: utf8_step_length)

lemma decode_Bad:
  "utf8_step bs = Bad n \<Longrightarrow>
   decode h final bs = (bad h @ fst (decode h final (drop n bs)), snd (decode h final (drop n bs)))"
  by (auto simp: decode.simps [of h final bs] split: prod.splits dest: utf8_step_length)

lemma decode_More:
  "utf8_step bs = More \<Longrightarrow> bs \<noteq> [] \<Longrightarrow>
   decode h final bs = (if final then (bad h, []) else ([], bs))"
  by (simp add: decode.simps [of h final bs])

lemma decode_induct [case_names Nil Char Bad More]:
  assumes "P []"
    and "\<And>bs c n. bs \<noteq> [] \<Longrightarrow> utf8_step bs = Char c n \<Longrightarrow> P (drop n bs) \<Longrightarrow> P bs"
    and "\<And>bs n. bs \<noteq> [] \<Longrightarrow> utf8_step bs = Bad n \<Longrightarrow> P (drop n bs) \<Longrightarrow> P bs"
    and "\<And>bs. bs \<noteq> [] \<Longrightarrow> utf8_step bs = More \<Longrightarrow> P bs"
  shows "P bs"
proof (induction bs rule: length_induct)
  case (1 bs)
  show ?case
  proof (cases "bs = []")
    case False
    then show ?thesis
      using 1 assms(2-4) utf8_step_length [of bs]
      by (cases "utf8_step bs") (metis One_nat_def diff_less length_drop length_greater_0_conv less_le_trans zero_less_one)+
  qed (simp add: assms(1))
qed

lemma decode_append:
  "decode h final (xs @ ys) =
     (let (out, rest) = decode h False xs; (out', rest') = decode h final (rest @ ys)
      in (out @ out', rest'))"
proof (induction xs rule: decode_induct)
  case Nil
  then show ?case by (simp split: prod.splits)
next
  case (Char bs c n)
  then have "utf8_step (bs @ ys) = Char c n" "drop n (bs @ ys) = drop n bs @ ys"
    using utf8_step_extend [of bs ys] utf8_step_length [of bs] by auto
  with Char show ?case
    by (simp add: decode_Char split: prod.splits)
next
  case (Bad bs n)
  then have "utf8_step (bs @ ys) = Bad n" "drop n (bs @ ys) = drop n bs @ ys"
    using utf8_step_extend [of bs ys] utf8_step_length [of bs] by auto
  with Bad show ?case
    by (simp add: decode_Bad split: prod.splits)
next
  case (More bs)
  then show ?case by (simp add: decode_More)
qed

subsection \<open>Decoding what was encoded\<close>

lemma enc_length: "1 \<le> length (enc c)" "length (enc c) \<le> 4" "enc c \<noteq> []"
  by (simp_all add: enc_def)

lemma enc_bytes: "scalar c \<Longrightarrow> b \<in> set (enc c) \<Longrightarrow> b < 256"
  by (auto simp: enc_def scalar_def split: if_splits)

lemma cont_mod64 [simp]: "cont (128 + x mod 64)"
proof -
  have "x mod 64 < 64" by simp
  then show ?thesis unfolding cont_def by linarith
qed

lemma base64_3: "c div 4096 * 4096 + c div 64 mod 64 * 64 + c mod 64 = (c :: nat)"
proof -
  have "c div 4096 = c div 64 div 64" by (simp add: div_mult2_eq [symmetric])
  moreover have "c = c div 64 * 64 + c mod 64" by simp
  moreover have "c div 64 = c div 64 div 64 * 64 + c div 64 mod 64" by simp
  ultimately show ?thesis by linarith
qed

lemma base64_4:
  "c div 262144 * 262144 + c div 4096 mod 64 * 4096 + c div 64 mod 64 * 64 + c mod 64 = (c :: nat)"
proof -
  have "c div 262144 = c div 4096 div 64" by (simp add: div_mult2_eq [symmetric])
  moreover have "c div 4096 = c div 4096 div 64 * 64 + c div 4096 mod 64" by simp
  ultimately show ?thesis using base64_3 [of c] by linarith
qed

lemma utf8_step_enc:
  assumes "scalar c"
  shows "utf8_step (enc c @ ys) = Char c (length (enc c))"
proof -
  consider "c < 0x80" | "0x80 \<le> c" "c < 0x800" | "0x800 \<le> c" "c < 0x10000"
    | "0x10000 \<le> c" "c < 0x110000"
    using assms unfolding scalar_def by atomize_elim arith
  then show ?thesis
  proof cases
    case 1
    then show ?thesis by (simp add: enc_def)
  next
    case 2
    then have "(c div 64) * 64 + c mod 64 = c" "2 \<le> c div 64" "c div 64 < 32"
      using 2 by auto
    with 2 show ?thesis by (simp add: enc_def)
  next
    case 3
    note c = base64_3 [of c]
    have "c div 64 mod 64 < 64" "c mod 64 < 64" by simp_all
    with c 3 assms have "second_ok (0xE0 + c div 4096) (0x80 + c div 64 mod 64)"
      unfolding second_ok_def scalar_def by (simp del: mod_less_divisor; linarith)
    with c 3 show ?thesis by (simp add: enc_def)
  next
    case 4
    note c = base64_4 [of c]
    have b: "c div 4096 mod 64 < 64" "c div 64 mod 64 < 64" "c mod 64 < 64" by simp_all
    with c 4 have "second_ok (0xF0 + c div 262144) (0x80 + c div 4096 mod 64)"
      unfolding second_ok_def by (simp del: mod_less_divisor; linarith)
    moreover have "c div 262144 \<le> 4" using 4 by simp
    ultimately show ?thesis using c 4 by (simp add: enc_def)
  qed
qed

text \<open>A proper prefix of an encoded character is never decided: it waits for more bytes.\<close>

lemma utf8_step_take_enc:
  assumes "scalar c" "k < length (enc c)"
  shows "utf8_step (take k (enc c)) = More"
proof (rule ccontr)
  assume "utf8_step (take k (enc c)) \<noteq> More"
  then have "utf8_step (take k (enc c) @ drop k (enc c)) = utf8_step (take k (enc c))"
    by (rule utf8_step_extend)
  moreover have "utf8_step (enc c) = Char c (length (enc c))"
    using utf8_step_enc [OF assms(1), of "[]"] by simp
  ultimately have "utf8_step (take k (enc c)) = Char c (length (enc c))"
    by simp
  with assms(2) show False
    by (auto dest: utf8_step_length)
qed

lemma decode_enc:
  "scalar c \<Longrightarrow> decode h final (enc c @ ys) =
     (c # fst (decode h final ys), snd (decode h final ys))"
  using decode_Char [OF utf8_step_enc] by simp

lemma encode_simps [simp]:
  "encode [] = []" "encode (c # s) = enc c @ encode s" "encode (s @ t) = encode s @ encode t"
  by (simp_all add: encode_def)

lemma encodable_simps [simp]:
  "encodable []" "encodable (c # s) \<longleftrightarrow> scalar c \<and> encodable s"
  "encodable (s @ t) \<longleftrightarrow> encodable s \<and> encodable t"
  by (simp_all add: encodable_def)

lemma decode_encode: "encodable s \<Longrightarrow> decode h final (encode s) = (s, [])"
  by (induction s) (simp_all add: decode_enc)

text \<open>The longest prefix of a text whose encoding fits into \<open>k\<close> bytes.\<close>

fun fit :: "nat \<Rightarrow> pystr \<Rightarrow> pystr" where
  "fit k [] = []"
| "fit k (c # s) = (if length (enc c) \<le> k then c # fit (k - length (enc c)) s else [])"

lemma fit_prefix: "\<exists>rest. s = fit k s @ rest"
  by (induction k s rule: fit.induct) auto

lemma fit_length: "length (encode (fit k s)) \<le> k"
  by (induction k s rule: fit.induct) auto

lemma fit_all: "length (encode s) \<le> k \<Longrightarrow> fit k s = s"
  by (induction k s rule: fit.induct) auto

lemma fit_maximal:
  "s = fit k s @ c # rest \<Longrightarrow> k < length (encode (fit k s @ [c]))"
  by (induction k s rule: fit.induct) (auto split: if_splits)

lemma fit_append:
  "fit k (s @ t) = (if length (encode s) \<le> k then s @ fit (k - length (encode s)) t else fit k s)"
  by (induction k s rule: fit.induct) (auto simp: fit_all)

text \<open>Cutting encoded text at any byte and dropping the broken tail is taking that prefix.\<close>

lemma decode_take_encode:
  "encodable s \<Longrightarrow> fst (decode Ignore True (take k (encode s))) = fit k s"
proof (induction k s rule: fit.induct)
  case (2 k c s)
  show ?case
  proof (cases "length (enc c) \<le> k")
    case True
    then have "take k (encode (c # s)) = enc c @ take (k - length (enc c)) (encode s)"
      by simp
    with 2 True show ?thesis by (simp add: decode_enc)
  next
    case False
    then have "take k (encode (c # s)) = take k (enc c)" by simp
    moreover have "fst (decode Ignore True (take k (enc c))) = []"
      using 2 False utf8_step_take_enc [of c k]
      by (cases "k = 0") (simp_all add: decode_More bad_def enc_length(3))
    ultimately show ?thesis using False by simp
  qed
qed simp

subsection \<open>What the decoder emits can be encoded again\<close>

lemma scalar_2: "0xC2 \<le> b0 \<Longrightarrow> b0 \<le> 0xDF \<Longrightarrow> cont b1 \<Longrightarrow> scalar ((b0 - 0xC0) * 64 + (b1 - 0x80))"
  unfolding scalar_def cont_def by arith

lemma scalar_3:
  "0xE0 \<le> b0 \<Longrightarrow> b0 \<le> 0xEF \<Longrightarrow> second_ok b0 b1 \<Longrightarrow> cont b2 \<Longrightarrow>
   scalar ((b0 - 0xE0) * 4096 + (b1 - 0x80) * 64 + (b2 - 0x80))"
  unfolding scalar_def second_ok_def cont_def
  by (cases "b0 < 0xED"; cases "b0 = 0xED") (simp_all; linarith)+

lemma scalar_4:
  "0xF0 \<le> b0 \<Longrightarrow> b0 \<le> 0xF4 \<Longrightarrow> second_ok b0 b1 \<Longrightarrow> cont b2 \<Longrightarrow> cont b3 \<Longrightarrow>
   scalar ((b0 - 0xF0) * 262144 + (b1 - 0x80) * 4096 + (b2 - 0x80) * 64 + (b3 - 0x80))"
  unfolding scalar_def second_ok_def cont_def
  by (cases "b0 = 0xF0"; cases "b0 = 0xF4") (simp_all; linarith)+

lemma utf8_step_scalar: "utf8_step bs = Char c n \<Longrightarrow> scalar c"
  by (induction bs rule: utf8_step.induct)
    (auto intro: scalar_2 scalar_3 scalar_4 simp del: diff_is_0_eq split: if_splits list.splits,
     simp add: scalar_def)

lemma decode_encodable: "encodable (fst (decode h final bs))"
proof (induction bs rule: decode_induct)
  case (Char bs c n)
  then show ?case by (simp add: decode_Char utf8_step_scalar)
next
  case (Bad bs n)
  then show ?case by (simp add: decode_Bad bad_def scalar_def split: errors.splits)
next
  case (More bs)
  then show ?case by (simp add: decode_More bad_def scalar_def split: errors.splits)
qed simp

lemma decode_ascii: "\<forall>b \<in> set bs. b < 128 \<Longrightarrow> decode h final bs = (bs, [])"
  by (induction bs) (simp_all add: decode_Char)

end
