(* ===== verification/Output_Capture.thy ===== *)
theory Output_Capture
  imports Utf8 Environment
begin

text \<open>
  \<^verbatim>\<open>_OutputCapture\<close> and \<^verbatim>\<open>_pump\<close> of \<^verbatim>\<open>worker/sandbox/executor.py\<close>: stdout and stderr
  are decoded incrementally and kept under one combined byte cap. The two pumps run
  concurrently; a schedule is the list of reads in the order in which they complete, each
  with its stream and its chunk.

  The abstract contract is one log of tagged characters: what is kept is the longest prefix
  of that log that fits the cap, whatever the chunking and the interleaving.
\<close>

subsection \<open>_OutputCapture\<close>

record capture =
  max_bytes :: int
  stdout_parts :: "pystr list"
  stderr_parts :: "pystr list"
  used :: int
  truncated_flag :: bool

definition new_capture :: "int \<Rightarrow> capture" where
  "new_capture n =
     \<lparr>max_bytes = n, stdout_parts = [], stderr_parts = [], used = 0, truncated_flag = False\<rparr>"

definition add_part :: "stream_kind \<Rightarrow> pystr \<Rightarrow> capture \<Rightarrow> capture" where
  "add_part kind tx c =
     (if kind = Stdout then c\<lparr>stdout_parts := stdout_parts c @ [tx]\<rparr>
      else c\<lparr>stderr_parts := stderr_parts c @ [tx]\<rparr>)"

definition capture_append :: "stream_kind \<Rightarrow> pystr \<Rightarrow> capture \<Rightarrow> exn + pystr \<times> capture" where
  "capture_append kind tx c =
     (if used c \<ge> max_bytes c then Inr ([], c\<lparr>truncated_flag := True\<rparr>)
      else if \<not> encodable tx then Inl UnicodeEncodeError
      else
        let encoded = encode tx; room = max_bytes c - used c
        in if int (length encoded) > room
           then let kept = fst (decode Ignore True (take (nat room) encoded))
                in Inr (kept, add_part kind kept (c\<lparr>used := max_bytes c, truncated_flag := True\<rparr>))
           else Inr (tx, add_part kind tx (c\<lparr>used := used c + int (length encoded)\<rparr>)))"

definition capture_stdout :: "capture \<Rightarrow> pystr" where
  "capture_stdout c = concat (stdout_parts c)"

definition capture_stderr :: "capture \<Rightarrow> pystr" where
  "capture_stderr c = concat (stderr_parts c)"

definition captured :: "stream_kind \<Rightarrow> capture \<Rightarrow> pystr" where
  "captured k c = (case k of Stdout \<Rightarrow> capture_stdout c | Stderr \<Rightarrow> capture_stderr c)"

subsection \<open>_pump\<close>

text \<open>
  One pump: its decoder's buffered bytes and whether it has ended, by end of file or by an
  exception of the output callback.
\<close>

datatype pump_end = Reading | Eof | Raised

record pumps =
  pending_bytes :: "stream_kind \<Rightarrow> pybytes"
  pump_end :: "stream_kind \<Rightarrow> pump_end"
  first_raised :: "exn option"
  pump_capture :: capture

definition new_pumps :: "int \<Rightarrow> pumps" where
  "new_pumps n = \<lparr>pending_bytes = (\<lambda>_. []), pump_end = (\<lambda>_. Reading), first_raised = None,
     pump_capture = new_capture n\<rparr>"

definition pump_raise :: "stream_kind \<Rightarrow> exn \<Rightarrow> pumps \<Rightarrow> pumps" where
  "pump_raise kind e p =
     p\<lparr>pump_end := (pump_end p)(kind := Raised),
       first_raised := (case first_raised p of None \<Rightarrow> Some e | Some e0 \<Rightarrow> Some e0)\<rparr>"

text \<open>The empty chunk is end of file and leaves the loop.\<close>

definition pump_finish :: "stream_kind \<Rightarrow> pybytes \<Rightarrow> pumps \<Rightarrow> pumps" where
  "pump_finish kind chunk p =
     (if chunk = [] then p\<lparr>pump_end := (pump_end p)(kind := Eof)\<rparr> else p)"

text \<open>
  One iteration of the read loop of the pump of stream \<open>kind\<close>, on the chunk its read
  returned; the empty chunk is end of file. An exception ends this pump only.
\<close>

definition pump_iter ::
    "(stream_kind \<Rightarrow> pystr \<Rightarrow> unit io) option \<Rightarrow> stream_kind \<Rightarrow> pybytes \<Rightarrow> pumps \<Rightarrow> pumps io" where
  "pump_iter on_output kind chunk p =
     (if pump_end p kind \<noteq> Reading then ret p
      else
        let (tx, rest) = incr_decode Replace (pending_bytes p kind) chunk (chunk = []);
            p1 = p\<lparr>pending_bytes := (pending_bytes p)(kind := rest)\<rparr>
        in if tx = [] then ret (pump_finish kind chunk p1)
           else (case capture_append kind tx (pump_capture p1) of
              Inl e \<Rightarrow> ret (pump_raise kind e p1)
            | Inr (kept, c) \<Rightarrow>
                let p2 = p1\<lparr>pump_capture := c\<rparr>
                in (case on_output of
                      None \<Rightarrow> ret (pump_finish kind chunk p2)
                    | Some callback \<Rightarrow>
                        if kept = [] then ret (pump_finish kind chunk p2)
                        else catch (seq (callback kind kept) (ret (pump_finish kind chunk p2)))
                               (\<lambda>e. Some (ret (pump_raise kind e p2))))))"

fun pump_schedule ::
    "(stream_kind \<Rightarrow> pystr \<Rightarrow> unit io) option \<Rightarrow> (stream_kind \<times> pybytes) list \<Rightarrow> pumps \<Rightarrow> pumps io" where
  "pump_schedule on_output [] p = ret p"
| "pump_schedule on_output ((kind, chunk) # s) p =
     bnd (pump_iter on_output kind chunk p) (pump_schedule on_output s)"

text \<open>
  \<^verbatim>\<open>await gather(pump(stdout), pump(stderr))\<close>: both pipes reach end of file after the
  chunks of the schedule; the first exception of a pump is raised by the await.
\<close>

definition run_pumps ::
    "(stream_kind \<Rightarrow> pystr \<Rightarrow> unit io) option \<Rightarrow> (stream_kind \<times> pybytes) list \<Rightarrow> int \<Rightarrow> capture io" where
  "run_pumps on_output s n =
     bnd (pump_schedule on_output (s @ [(Stdout, []), (Stderr, [])]) (new_pumps n))
       (\<lambda>p. case first_raised p of
          Some e \<Rightarrow> raise e
        | None \<Rightarrow> ret (pump_capture p))"

subsection \<open>The contract of a bounded output sink\<close>

type_synonym log = "(stream_kind \<times> nat) list"

definition proj :: "stream_kind \<Rightarrow> log \<Rightarrow> pystr" where
  "proj k l = map snd (filter (\<lambda>x. fst x = k) l)"

definition log_bytes :: "log \<Rightarrow> nat" where
  "log_bytes l = length (encode (map snd l))"

text \<open>The longest prefix of the log that fits into \<open>n\<close> bytes.\<close>

definition fit_log :: "nat \<Rightarrow> log \<Rightarrow> log" where
  "fit_log n l = take (length (fit n (map snd l))) l"

lemma proj_append [simp]: "proj k (l @ l') = proj k l @ proj k l'"
  by (simp add: proj_def)

lemma proj_tag [simp]: "proj k (map (Pair k') s) = (if k = k' then s else [])"
  by (simp add: proj_def filter_map comp_def)

lemma proj_Nil [simp]: "proj k [] = []"
  by (simp add: proj_def)

lemma log_bytes_simps [simp]:
  "log_bytes [] = 0" "log_bytes (l @ l') = log_bytes l + log_bytes l'"
  "log_bytes (map (Pair k) s) = length (encode s)"
  by (simp_all add: log_bytes_def comp_def)

lemma map_snd_fit_log: "map snd (fit_log n l) = fit n (map snd l)"
proof -
  obtain r where "map snd l = fit n (map snd l) @ r" using fit_prefix by blast
  then show ?thesis unfolding fit_log_def by (metis append_eq_conv_conj take_map)
qed

lemma log_bytes_fit_log: "log_bytes (fit_log n l) \<le> n"
  by (simp add: log_bytes_def map_snd_fit_log fit_length)

lemma fit_log_all: "log_bytes l \<le> n \<Longrightarrow> fit_log n l = l"
  by (simp add: log_bytes_def fit_log_def fit_all)

lemma fit_log_append:
  "fit_log n (l @ l') =
     (if log_bytes l \<le> n then l @ fit_log (n - log_bytes l) l' else fit_log n l)"
  by (auto simp: fit_log_def log_bytes_def fit_append)
    (metis fit_prefix length_append length_map le_add1)

lemma fit_log_tag: "fit_log n (map (Pair k) s) = map (Pair k) (fit n s)"
proof -
  obtain r where "s = fit n s @ r" using fit_prefix by blast
  then show ?thesis unfolding fit_log_def
    by (simp add: comp_def take_map) (metis append_eq_conv_conj)
qed

lemma fit_log_0 [simp]: "fit_log 0 l = []"
proof -
  have "fit 0 s = []" for s by (cases s) (simp_all add: enc_length(3))
  then show ?thesis by (simp add: fit_log_def)
qed

lemma fit_log_prefix: "\<exists>r. l = fit_log n l @ r"
  unfolding fit_log_def by (metis append_take_drop_id)

lemma proj_log_bytes: "log_bytes l = length (encode (proj Stdout l)) + length (encode (proj Stderr l))"
proof (induction l)
  case (Cons x l)
  obtain k c where "x = (k, c)" by (cases x)
  with Cons show ?case by (cases k) (simp_all add: log_bytes_def proj_def)
qed simp

locale output_sink =
  fixes new :: "int \<Rightarrow> 'c"
    and push :: "stream_kind \<Rightarrow> pystr \<Rightarrow> 'c \<Rightarrow> exn + pystr \<times> 'c"
    and view :: "stream_kind \<Rightarrow> 'c \<Rightarrow> pystr"
    and cut :: "'c \<Rightarrow> bool"
    and rel :: "int \<Rightarrow> log \<Rightarrow> 'c \<Rightarrow> bool"
  assumes rel_new: "rel n [] (new n)"
    and rel_push: "rel n l c \<Longrightarrow> encodable tx \<Longrightarrow> tx \<noteq> [] \<Longrightarrow>
      \<exists>kept c'. push k tx c = Inr (kept, c') \<and> rel n (l @ map (Pair k) tx) c'
        \<and> view k c' = view k c @ kept \<and> (\<forall>k'. k' \<noteq> k \<longrightarrow> view k' c' = view k' c)"
    and rel_view: "rel n l c \<Longrightarrow> view k c = proj k (fit_log (nat n) l)"
    and rel_cut: "rel n l c \<Longrightarrow> cut c \<longleftrightarrow> nat n < log_bytes l"
begin

lemma view_bounded:
  assumes "rel n l c"
  shows "length (encode (view Stdout c)) + length (encode (view Stderr c)) \<le> nat n"
  using log_bytes_fit_log [of "nat n" l] by (simp add: rel_view [OF assms] proj_log_bytes)

lemma view_prefix: "rel n l c \<Longrightarrow> \<exists>r. proj k l = view k c @ r"
  by (metis fit_log_prefix proj_append rel_view)

lemma view_uncut: "rel n l c \<Longrightarrow> \<not> cut c \<Longrightarrow> view k c = proj k l"
  by (simp add: rel_view rel_cut fit_log_all)

end

definition capture_rel :: "int \<Rightarrow> log \<Rightarrow> capture \<Rightarrow> bool" where
  "capture_rel n l c \<longleftrightarrow>
     max_bytes c = n \<and> (\<forall>k. captured k c = proj k (fit_log (nat n) l)) \<and>
     truncated_flag c = (nat n < log_bytes l) \<and>
     (if truncated_flag c then n \<le> used c else used c = int (log_bytes l))"

lemma captured_add_part [simp]:
  "captured k (add_part k' tx c) = captured k c @ (if k = k' then tx else [])"
  by (cases k; cases k') (simp_all add: captured_def capture_stdout_def capture_stderr_def add_part_def)

lemma captured_frame [simp]:
  "captured k (c\<lparr>used := u\<rparr>) = captured k c" "captured k (c\<lparr>truncated_flag := b\<rparr>) = captured k c"
  by (cases k; simp add: captured_def capture_stdout_def capture_stderr_def)+

lemma add_part_frame [simp]:
  "max_bytes (add_part k t c) = max_bytes c" "used (add_part k t c) = used c"
  "truncated_flag (add_part k t c) = truncated_flag c"
  by (simp_all add: add_part_def)

lemma capture_rel_new: "capture_rel n [] (new_capture n)"
  by (auto simp: capture_rel_def new_capture_def captured_def capture_stdout_def capture_stderr_def
      fit_log_def split: stream_kind.splits)

lemma encode_eq_Nil [simp]: "encode s = [] \<longleftrightarrow> s = []"
  by (cases s) (simp_all add: enc_length(3))

lemma append_full:
  assumes "capture_rel n l c" "used c \<ge> n" "tx \<noteq> []"
  shows "capture_append k tx c = Inr ([], c\<lparr>truncated_flag := True\<rparr>)"
    and "capture_rel n (l @ map (Pair k) tx) (c\<lparr>truncated_flag := True\<rparr>)"
proof -
  have pos: "0 < length (encode tx)" using assms(3) by simp
  have ge: "nat n \<le> log_bytes l"
    using assms(1,2) by (auto simp: capture_rel_def split: if_splits)
  then have "fit_log (nat n) (l @ map (Pair k) tx) = fit_log (nat n) l"
    using pos by (auto simp: fit_log_append fit_log_all)
  moreover have "nat n < log_bytes l + length (encode tx)" using ge pos by linarith
  ultimately show "capture_rel n (l @ map (Pair k) tx) (c\<lparr>truncated_flag := True\<rparr>)"
    using assms by (simp add: capture_rel_def)
qed (use assms in \<open>simp add: capture_append_def capture_rel_def\<close>)

lemma append_room:
  assumes "capture_rel n l c" "used c < n" "encodable tx"
  shows "\<exists>kept c'. capture_append k tx c = Inr (kept, c') \<and> capture_rel n (l @ map (Pair k) tx) c'
      \<and> captured k c' = captured k c @ kept \<and> (\<forall>k'. k' \<noteq> k \<longrightarrow> captured k' c' = captured k' c)"
proof -
  have c: "used c = int (log_bytes l)" "\<not> truncated_flag c" "log_bytes l \<le> nat n" "max_bytes c = n"
    "\<And>k. captured k c = proj k l"
    using assms(1,2) by (auto simp: capture_rel_def fit_log_all split: if_splits)
  have room: "nat (n - int (log_bytes l)) = nat n - log_bytes l" using c assms(2) by simp
  have fits: "fit_log (nat n) (l @ map (Pair k) tx) =
      l @ map (Pair k) (fit (nat n - log_bytes l) tx)"
    using c(3) by (simp add: fit_log_append fit_log_tag)
  show ?thesis
  proof (cases "int (length (encode tx)) > n - int (log_bytes l)")
    case True
    then show ?thesis using assms(2,3) c
      by (auto simp: capture_append_def Let_def room decode_take_encode capture_rel_def fits)
  next
    case False
    then have "length (encode tx) \<le> nat n - log_bytes l" using c by simp
    then show ?thesis using assms(2,3) c
      by (auto simp: capture_append_def Let_def room capture_rel_def fits fit_all)
  qed
qed

interpretation cap: output_sink new_capture capture_append captured truncated_flag capture_rel
proof (unfold_locales, goal_cases)
  case (1 n)
  show ?case by (rule capture_rel_new)
next
  case (2 n l c tx k)
  then show ?case
    using append_full [of n l c tx k] append_room [of n l c tx k]
    by (cases "used c < n") auto
qed (simp_all add: capture_rel_def)


subsection \<open>The pumps against the contract\<close>

text \<open>The bytes a stream delivers up to its first end of file.\<close>

definition stream_bytes :: "stream_kind \<Rightarrow> (stream_kind \<times> pybytes) list \<Rightarrow> pybytes" where
  "stream_bytes k s = concat (takeWhile (\<lambda>c. c \<noteq> []) (map snd (filter (\<lambda>x. fst x = k) s)))"

definition at_eof :: "stream_kind \<Rightarrow> (stream_kind \<times> pybytes) list \<Rightarrow> bool" where
  "at_eof k s \<longleftrightarrow> (k, []) \<in> set s"

lemma concat_takeWhile_snoc:
  "concat (takeWhile (\<lambda>c. c \<noteq> []) (cs @ [c])) =
     concat (takeWhile (\<lambda>c. c \<noteq> []) cs) @ (if [] \<in> set cs then [] else c)"
  by (induction cs) auto

lemma stream_bytes_snoc:
  "stream_bytes k (s @ [(k', chunk)]) =
     stream_bytes k s @ (if k = k' \<and> \<not> at_eof k s then chunk else [])"
proof -
  have "at_eof k s \<longleftrightarrow> [] \<in> set (map snd (filter (\<lambda>x. fst x = k) s))"
    by (force simp: at_eof_def)
  then show ?thesis by (auto simp: stream_bytes_def concat_takeWhile_snoc)
qed

lemma at_eof_snoc: "at_eof k (s @ [(k', chunk)]) \<longleftrightarrow> at_eof k s \<or> k = k' \<and> chunk = []"
  by (auto simp: at_eof_def)

text \<open>
  After the reads \<open>s\<close>, with log \<open>l\<close>: a pump that did not raise has pushed what its decoder
  makes of the bytes so far, and buffers exactly the undecided tail.
\<close>

definition stream_inv :: "bool \<Rightarrow> pybytes \<Rightarrow> pystr \<Rightarrow> pybytes \<Rightarrow> pump_end \<Rightarrow> exn option \<Rightarrow> bool" where
  "stream_inv eof bs out buf pe raised \<longleftrightarrow>
     (pe = Raised \<longrightarrow> raised \<noteq> None) \<and>
     (pe \<noteq> Raised \<longrightarrow> (pe = Eof \<longleftrightarrow> eof) \<and> decode Replace eof bs = (out, buf))"

definition pump_inv :: "int \<Rightarrow> (stream_kind \<times> pybytes) list \<Rightarrow> log \<Rightarrow> pumps \<Rightarrow> bool" where
  "pump_inv n s l p \<longleftrightarrow> capture_rel n l (pump_capture p) \<and>
     (\<forall>k. stream_inv (at_eof k s) (stream_bytes k s) (proj k l) (pending_bytes p k)
            (pump_end p k) (first_raised p))"

lemma first_raised_new: "first_raised (new_pumps n) = None"
  by (simp add: new_pumps_def)

lemma pump_inv_new: "pump_inv n [] [] (new_pumps n)"
  by (simp add: pump_inv_def stream_inv_def new_pumps_def cap.rel_new at_eof_def stream_bytes_def)

lemma stream_inv_ended:
  "pe \<noteq> Reading \<Longrightarrow> stream_inv (at_eof k s) (stream_bytes k s) out buf pe r \<Longrightarrow>
   stream_inv (at_eof k (s @ [(k', c)])) (stream_bytes k (s @ [(k', c)])) out buf pe r"
  by (cases pe) (auto simp: stream_inv_def stream_bytes_snoc at_eof_snoc)

lemma stream_inv_other:
  "k \<noteq> k' \<Longrightarrow> stream_inv (at_eof k s) (stream_bytes k s) out buf pe r \<Longrightarrow>
   stream_inv (at_eof k (s @ [(k', c)])) (stream_bytes k (s @ [(k', c)])) out buf pe r"
  by (auto simp: stream_bytes_snoc at_eof_snoc)

lemma stream_inv_raised:
  "stream_inv eof bs out buf pe r \<Longrightarrow> r' \<noteq> None \<Longrightarrow> stream_inv eof bs out buf pe r'"
  by (auto simp: stream_inv_def)

text \<open>Feeding one chunk to the incremental decoder continues decoding the whole stream.\<close>

lemma incr_decode_continues:
  assumes "decode Replace False bs = (out, buf)" "incr_decode Replace buf chunk final = (tx, rest)"
  shows "decode Replace final (bs @ chunk) = (out @ tx, rest)"
  using assms decode_append [of Replace final bs chunk]
  by (simp add: incr_decode_def split: prod.splits)

lemma incr_decode_encodable: "incr_decode Replace buf chunk final = (tx, rest) \<Longrightarrow> encodable tx"
  unfolding incr_decode_def using decode_encodable [of Replace final "buf @ chunk"] by simp

text \<open>What one iteration returns: a finished, a silent, a delivered or a raising read.\<close>

lemma pump_iter_cases:
  obtains (ended) "pump_end p k \<noteq> Reading" "pump_iter cb k chunk p h = (Inr p, [])"
  | (silent) rest where "pump_end p k = Reading"
      "incr_decode Replace (pending_bytes p k) chunk (chunk = []) = ([], rest)"
      "pump_iter cb k chunk p h =
         (Inr (pump_finish k chunk (p\<lparr>pending_bytes := (pending_bytes p)(k := rest)\<rparr>)), [])"
  | (encode_error) tx rest e where "pump_end p k = Reading"
      "incr_decode Replace (pending_bytes p k) chunk (chunk = []) = (tx, rest)" "tx \<noteq> []"
      "capture_append k tx (pump_capture p) = Inl e"
  | (kept) tx rest kept c t p' where "pump_end p k = Reading"
      "incr_decode Replace (pending_bytes p k) chunk (chunk = []) = (tx, rest)" "tx \<noteq> []"
      "capture_append k tx (pump_capture p) = Inr (kept, c)"
      "pump_iter cb k chunk p h = (Inr p', t)"
      "p' = pump_finish k chunk (p\<lparr>pending_bytes := (pending_bytes p)(k := rest), pump_capture := c\<rparr>) \<or>
       (\<exists>e f. cb = Some f \<and> fst (f k kept h) = Inl e \<and>
         p' = pump_raise k e (p\<lparr>pending_bytes := (pending_bytes p)(k := rest), pump_capture := c\<rparr>))"
      "t = (case cb of None \<Rightarrow> [] | Some f \<Rightarrow> if kept = [] then [] else snd (f k kept h))"
proof (cases "pump_end p k = Reading")
  case False
  then show ?thesis using that(1) by (simp add: pump_iter_def ret_def)
next
  case True
  obtain tx rest where dec: "incr_decode Replace (pending_bytes p k) chunk (chunk = []) = (tx, rest)"
    by (cases "incr_decode Replace (pending_bytes p k) chunk (chunk = [])")
  show ?thesis
  proof (cases "tx = []")
    case True': True
    then show ?thesis using that(2) True dec by (simp add: pump_iter_def ret_def)
  next
    case False
    show ?thesis
    proof (cases "capture_append k tx (pump_capture p)")
      case (Inl e)
      then show ?thesis using that(3) True dec False by blast
    next
      case (Inr kc)
      obtain kept c where kc: "kc = (kept, c)" by (cases kc)
      let ?p2 = "p\<lparr>pending_bytes := (pending_bytes p)(k := rest), pump_capture := c\<rparr>"
      have "\<exists>t p'. pump_iter cb k chunk p h = (Inr p', t) \<and>
          (p' = pump_finish k chunk ?p2 \<or>
           (\<exists>e f. cb = Some f \<and> fst (f k kept h) = Inl e \<and> p' = pump_raise k e ?p2)) \<and>
          t = (case cb of None \<Rightarrow> [] | Some f \<Rightarrow> if kept = [] then [] else snd (f k kept h))"
        using True dec False Inr kc
        by (cases cb) (auto simp: pump_iter_def Let_def ret_def catch_def bnd_def split: sum.splits prod.splits)
      then show ?thesis using that(4) True dec False Inr kc by blast
    qed
  qed
qed

lemma pump_iter_inv:
  assumes inv: "pump_inv n s l p"
  shows "\<exists>l' p' t. pump_iter cb k chunk p h = (Inr p', t) \<and> pump_inv n (s @ [(k, chunk)]) l' p'"
proof -
  let ?s = "s @ [(k, chunk)]"
  have rel: "capture_rel n l (pump_capture p)"
    and str: "\<And>k. stream_inv (at_eof k s) (stream_bytes k s) (proj k l) (pending_bytes p k)
                (pump_end p k) (first_raised p)"
    using inv by (auto simp: pump_inv_def)
  have read: "decode Replace (at_eof k ?s) (stream_bytes k ?s) = (proj k l @ tx, rest)"
      "at_eof k ?s \<longleftrightarrow> chunk = []"
    if "pump_end p k = Reading"
      "incr_decode Replace (pending_bytes p k) chunk (chunk = []) = (tx, rest)" for tx rest
    using str [of k] that incr_decode_continues [of "stream_bytes k s" "proj k l"]
    by (auto simp: stream_inv_def stream_bytes_snoc at_eof_snoc)
  show ?thesis
  proof (cases rule: pump_iter_cases [of p k cb chunk h])
    case ended
    then have "pump_inv n ?s l p"
      using rel str unfolding pump_inv_def by (metis stream_inv_ended stream_inv_other)
    with ended show ?thesis by blast
  next
    case (silent rest)
    have "pump_inv n ?s l
        (pump_finish k chunk (p\<lparr>pending_bytes := (pending_bytes p)(k := rest)\<rparr>))"
      using rel str read [OF silent(1,2)] silent(1)
      by (auto simp: pump_inv_def pump_finish_def stream_inv_other)
        (auto simp: stream_inv_def)
    with silent show ?thesis by blast
  next
    case (encode_error tx rest e)
    then show ?thesis using cap.rel_push [OF rel incr_decode_encodable, of _ _ _ tx rest k] by fastforce
  next
    case (kept tx rest kept c t p')
    then have rel': "capture_rel n (l @ map (Pair k) tx) c"
      using cap.rel_push [OF rel incr_decode_encodable [OF kept(2)], of k] by auto
    have "stream_inv (at_eof k' ?s) (stream_bytes k' ?s) (proj k' (l @ map (Pair k) tx))
        (pending_bytes p' k') (pump_end p' k') (first_raised p')" for k'
    proof (cases "k' = k")
      case True
      then show ?thesis using kept(1,6) read [OF kept(1,2)]
        by (auto simp: stream_inv_def pump_finish_def pump_raise_def split: option.splits)
    next
      case False
      then show ?thesis using kept(6) stream_inv_other [OF False str, of chunk]
        by (auto simp: pump_finish_def pump_raise_def intro: stream_inv_raised split: option.splits)
    qed
    moreover have "pump_capture p' = c"
      using kept(6) by (auto simp: pump_finish_def pump_raise_def)
    ultimately have "pump_inv n ?s (l @ map (Pair k) tx) p'"
      using rel' by (simp add: pump_inv_def)
    with kept show ?thesis by blast
  qed
qed

lemma pump_schedule_inv:
  "pump_inv n s0 l p \<Longrightarrow> \<exists>p' t l'. pump_schedule cb s p h = (Inr p', t) \<and> pump_inv n (s0 @ s) l' p'"
proof (induction s arbitrary: s0 l p h)
  case Nil
  then show ?case by (auto simp: ret_def)
next
  case (Cons x s)
  obtain k chunk where x: "x = (k, chunk)" by (cases x)
  obtain l1 p1 t1 where it: "pump_iter cb k chunk p h = (Inr p1, t1)"
    and inv: "pump_inv n (s0 @ [(k, chunk)]) l1 p1"
    using pump_iter_inv [OF Cons.prems] by blast
  from Cons.IH [OF inv, of "h @ t1"] show ?case by (auto simp: x bnd_def it)
qed

subsection \<open>Results of a whole run\<close>

lemma stream_bytes_flush [simp]:
  "stream_bytes k (s @ [(Stdout, []), (Stderr, [])]) = stream_bytes k s"
  "at_eof k (s @ [(Stdout, []), (Stderr, [])])"
  using stream_bytes_snoc [of k "s @ [(Stdout, [])]" Stderr "[]"] stream_bytes_snoc [of k s Stdout "[]"]
  by (auto simp: at_eof_def intro: stream_kind.exhaust [of k])

lemma run_pumps_log:
  assumes "run_pumps cb s n h = (Inr c, t)"
  obtains l where "capture_rel n l c"
    and "\<And>k. proj k l = fst (decode Replace True (stream_bytes k s))"
proof -
  obtain p t' l where run: "pump_schedule cb (s @ [(Stdout, []), (Stderr, [])]) (new_pumps n) h = (Inr p, t')"
    and inv: "pump_inv n (s @ [(Stdout, []), (Stderr, [])]) l p"
    using pump_schedule_inv [OF pump_inv_new, where cb = cb and h = h and s = "s @ [(Stdout, []), (Stderr, [])]"]
    by fastforce
  have fin: "first_raised p = None" "pump_capture p = c"
    using assms run by (auto simp: run_pumps_def bnd_def ret_def raise_def split: option.splits)
  have "decode Replace True (stream_bytes k s) = (proj k l, pending_bytes p k)" for k
    using inv fin(1) by (auto simp: pump_inv_def stream_inv_def)
  then show ?thesis using that [of l] inv fin(2) by (auto simp: pump_inv_def)
qed

text \<open>
  Whatever the program writes, however its output is chunked and interleaved and
  whatever the output callback does, the stdout and stderr that a run returns together
  encode to at most the configured number of bytes.
\<close>

theorem run_pumps_within_cap:
  assumes "run_pumps cb s n h = (Inr c, t)"
  shows "length (encode (capture_stdout c)) + length (encode (capture_stderr c)) \<le> nat n"
  using run_pumps_log [OF assms] cap.view_bounded by (metis captured_def stream_kind.case)

text \<open>
  C6: The captured streams are the longest prefix that fits the cap of one merged log of
  the decoded streams; each stream's share of the log is the decoding of all its bytes, so
  neither chunk boundaries nor the scheduling of the pumps change the text, and the
  truncation flag says exactly that the decoded streams exceed the cap.
\<close>

theorem run_pumps_refines_log:
  assumes "run_pumps cb s n h = (Inr c, t)"
  shows "\<exists>l. (\<forall>k. proj k l = fst (decode Replace True (stream_bytes k s))) \<and>
             (\<forall>k. captured k c = proj k (fit_log (nat n) l)) \<and>
             (truncated_flag c \<longleftrightarrow>
               nat n < length (encode (fst (decode Replace True (stream_bytes Stdout s))))
                     + length (encode (fst (decode Replace True (stream_bytes Stderr s)))))"
proof -
  obtain l where rel: "capture_rel n l c"
    and l: "\<And>k. proj k l = fst (decode Replace True (stream_bytes k s))"
    using run_pumps_log [OF assms] by blast
  then show ?thesis
    using cap.rel_view [OF rel] cap.rel_cut [OF rel] by (auto simp: proj_log_bytes intro!: exI [of _ l])
qed

definition never_raises :: "(stream_kind \<Rightarrow> pystr \<Rightarrow> unit io) option \<Rightarrow> bool" where
  "never_raises cb \<longleftrightarrow> (\<forall>f k tx h. cb = Some f \<longrightarrow> is_ok (fst (f k tx h)))"

lemma pump_iter_no_raise:
  assumes "capture_rel n l (pump_capture p)" "pump_iter cb k chunk p h = (Inr p', t)"
    and "never_raises cb"
  shows "first_raised p' = first_raised p"
proof (cases rule: pump_iter_cases [of p k cb chunk h])
  case (encode_error tx rest e)
  then show ?thesis using cap.rel_push [OF assms(1) incr_decode_encodable, of _ _ _ tx rest k] by fastforce
next
  case (kept tx rest kept c t' p'')
  then have "p' = pump_finish k chunk (p\<lparr>pending_bytes := (pending_bytes p)(k := rest), pump_capture := c\<rparr>)"
    using assms(2,3) unfolding never_raises_def by (metis Inr_inject is_ok_simps(1) prod.inject)
  then show ?thesis by (simp add: pump_finish_def)
qed (use assms(2) in \<open>simp_all add: pump_finish_def\<close>)

lemma pump_schedule_no_raise:
  assumes "never_raises cb"
  shows "pump_inv n s0 l p \<Longrightarrow> \<exists>p' t. pump_schedule cb s p h = (Inr p', t) \<and> first_raised p' = first_raised p"
proof (induction s arbitrary: s0 l p h)
  case Nil
  then show ?case by (simp add: ret_def)
next
  case (Cons x s)
  obtain k chunk where x: "x = (k, chunk)" by (cases x)
  obtain l1 p1 t1 where it: "pump_iter cb k chunk p h = (Inr p1, t1)"
    and inv: "pump_inv n (s0 @ [(k, chunk)]) l1 p1"
    using pump_iter_inv [OF Cons.prems] by blast
  have "first_raised p1 = first_raised p"
    using pump_iter_no_raise [OF _ it] assms Cons.prems by (auto simp: pump_inv_def)
  with Cons.IH [OF inv, of "h @ t1"] it show ?case by (auto simp: x bnd_def)
qed

lemma run_pumps_returns:
  assumes "never_raises cb"
  shows "\<exists>c t. run_pumps cb s n h = (Inr c, t)"
proof -
  obtain p t where "pump_schedule cb (s @ [(Stdout, []), (Stderr, [])]) (new_pumps n) h = (Inr p, t)"
      "first_raised p = None"
    using pump_schedule_no_raise [OF assms pump_inv_new] first_raised_new by metis
  then show ?thesis by (simp add: run_pumps_def bnd_def ret_def)
qed

text \<open>
  C22: The pumps always finish: on every sequence of reads they return a capture, unless the
  output callback itself raises. Output that fits the cap is returned complete and not
  flagged as truncated.
\<close>

theorem run_pumps_total:
  assumes "never_raises cb"
  shows "\<exists>c t. run_pumps cb s n h = (Inr c, t) \<and>
     (length (encode (fst (decode Replace True (stream_bytes Stdout s))))
        + length (encode (fst (decode Replace True (stream_bytes Stderr s)))) \<le> nat n \<longrightarrow>
      (\<forall>k. captured k c = fst (decode Replace True (stream_bytes k s))) \<and> \<not> truncated_flag c)"
proof -
  obtain c t where run: "run_pumps cb s n h = (Inr c, t)" using run_pumps_returns [OF assms] by blast
  obtain l where rel: "capture_rel n l c"
    and l: "\<And>k. proj k l = fst (decode Replace True (stream_bytes k s))"
    using run_pumps_log [OF run] by blast
  have "(\<forall>k. captured k c = proj k l) \<and> \<not> truncated_flag c" if "log_bytes l \<le> nat n"
    using that cap.rel_cut [OF rel] cap.view_uncut [OF rel] by auto
  with run show ?thesis by (auto simp: proj_log_bytes l)
qed

lemma never_raises_None [simp]: "never_raises None"
  by (simp add: never_raises_def)

text \<open>Three bytes of output under a cap of two.\<close>

theorem run_pumps_within_cap_witness:
  "\<exists>c t. run_pumps None [(Stdout, [104, 105, 33])] 2 [] = (Inr c, t) \<and>
     length (encode (capture_stdout c)) + length (encode (capture_stderr c)) \<le> 2"
proof -
  obtain c t where run: "run_pumps None [(Stdout, [104, 105, 33])] 2 [] = (Inr c, t)"
    using run_pumps_returns [OF never_raises_None] by blast
  from run_pumps_within_cap [OF run] run show ?thesis by auto
qed

lemma hi_decoded:
  "fst (decode Replace True (stream_bytes Stdout [(Stdout, [104, 105, 33])])) = [104, 105, 33]"
  "fst (decode Replace True (stream_bytes Stderr [(Stdout, [104, 105, 33])])) = []"
  "length (encode [104, 105, 33]) = 3"
  by (simp_all add: stream_bytes_def decode.simps enc_def)

theorem run_pumps_refines_log_witness:
  "\<exists>c t. run_pumps None [(Stdout, [104, 105, 33])] 2 [] = (Inr c, t) \<and> truncated_flag c"
proof -
  obtain c t where run: "run_pumps None [(Stdout, [104, 105, 33])] 2 [] = (Inr c, t)"
    using run_pumps_returns [OF never_raises_None] by blast
  from run_pumps_refines_log [OF run] run hi_decoded show ?thesis by auto
qed

theorem run_pumps_total_witness:
  "\<exists>c t. run_pumps None [(Stdout, [104, 105, 33])] 3 [] = (Inr c, t) \<and>
     captured Stdout c = [104, 105, 33]"
  using run_pumps_total [OF never_raises_None, of "[(Stdout, [104, 105, 33])]" 3 "[]"] hi_decoded by auto

subsection \<open>What the callback receives\<close>

text \<open>
  \<open>d\<close> reads the stream and the text off an event of the callback; \<open>sent d k\<close> is then the
  text of stream \<open>k\<close> that was handed out.
\<close>

definition sent :: "(event \<Rightarrow> (stream_kind \<times> pystr) option) \<Rightarrow> stream_kind \<Rightarrow> event list \<Rightarrow> pystr" where
  "sent d k t =
     concat (map (\<lambda>ev. case d ev of Some (k', tx) \<Rightarrow> if k' = k then tx else [] | None \<Rightarrow> []) t)"

lemma sent_simps [simp]: "sent d k [] = []" "sent d k (t @ t') = sent d k t @ sent d k t'"
  by (simp_all add: sent_def)

definition hands_out :: "(event \<Rightarrow> (stream_kind \<times> pystr) option) \<Rightarrow> (stream_kind \<Rightarrow> pystr \<Rightarrow> unit io) \<Rightarrow> bool" where
  "hands_out d f \<longleftrightarrow> (\<forall>k tx h. \<exists>ev. snd (f k tx h) = [ev] \<and> d ev = Some (k, tx))"

lemma sent_callback: "hands_out d f \<Longrightarrow> sent d k' (snd (f k tx h)) = (if k' = k then tx else [])"
  unfolding hands_out_def sent_def by (metis (mono_tags, lifting) append_Nil2 case_prod_conv concat.simps list.simps(8,9) option.simps(5))

lemma pump_iter_sent:
  assumes rel: "capture_rel n l (pump_capture p)" and it: "pump_iter (Some f) k chunk p h = (Inr p', t)"
    and out: "hands_out d f"
  shows "captured k' (pump_capture p') = captured k' (pump_capture p) @ sent d k' t"
proof (cases rule: pump_iter_cases [of p k "Some f" chunk h])
  case (encode_error tx rest e)
  then show ?thesis using cap.rel_push [OF rel incr_decode_encodable, of _ _ _ tx rest k] by fastforce
next
  case (kept tx rest kept c t' p'')
  have "captured k c = captured k (pump_capture p) @ kept"
      "k' \<noteq> k \<Longrightarrow> captured k' c = captured k' (pump_capture p)"
    using cap.rel_push [OF rel incr_decode_encodable [OF kept(2)] kept(3), of k] kept(4) by auto
  moreover have "pump_capture p' = c" "t = (if kept = [] then [] else snd (f k kept h))"
    using kept(5-7) it by (auto simp: pump_finish_def pump_raise_def)
  ultimately show ?thesis by (simp add: sent_callback [OF out])
qed (use it in \<open>simp_all add: pump_finish_def\<close>)

lemma pump_schedule_sent:
  assumes out: "hands_out d f"
  shows "pump_inv n s0 l p \<Longrightarrow> pump_schedule (Some f) s p h = (Inr p', t) \<Longrightarrow>
    captured k (pump_capture p') = captured k (pump_capture p) @ sent d k t"
proof (induction s arbitrary: s0 l p h t)
  case Nil
  then show ?case by (simp add: ret_def)
next
  case (Cons x s)
  obtain j chunk where x: "x = (j, chunk)" by (cases x)
  obtain l1 p1 t1 where it: "pump_iter (Some f) j chunk p h = (Inr p1, t1)"
    and inv: "pump_inv n (s0 @ [(j, chunk)]) l1 p1"
    using pump_iter_inv [OF Cons.prems(1)] by blast
  obtain t2 where t2: "pump_schedule (Some f) s p1 (h @ t1) = (Inr p', t2)" "t = t1 @ t2"
    using Cons.prems(2) by (auto simp: x bnd_def it split: prod.splits)
  have "captured k (pump_capture p1) = captured k (pump_capture p) @ sent d k t1"
    using pump_iter_sent [OF _ it out] Cons.prems(1) by (auto simp: pump_inv_def)
  with Cons.IH [OF inv t2(1)] t2(2) show ?case by simp
qed

lemma run_pumps_sent:
  assumes "hands_out d f" "run_pumps (Some f) s n h = (Inr c, t)"
  shows "captured k c = sent d k t"
proof -
  obtain p where p: "pump_schedule (Some f) (s @ [(Stdout, []), (Stderr, [])]) (new_pumps n) h = (Inr p, t)"
      "pump_capture p = c"
    using assms(2) pump_schedule_inv [OF pump_inv_new, where cb = "Some f" and h = h
        and s = "s @ [(Stdout, []), (Stderr, [])]"]
    by (auto simp: run_pumps_def bnd_def ret_def raise_def split: option.splits prod.splits sum.splits)
  have "captured k (pump_capture (new_pumps n)) = []"
    by (cases k) (simp_all add: new_pumps_def new_capture_def captured_def capture_stdout_def capture_stderr_def)
  with pump_schedule_sent [OF assms(1) pump_inv_new p(1)] p(2) show ?thesis by simp
qed

end
