(* ===== verification/Types.thy ===== *)
theory Types
  imports Json
begin

text \<open>
  \<^verbatim>\<open>worker/sandbox/types.py\<close> and \<^verbatim>\<open>worker/sandbox/constants.py\<close>: the request and result
  records, their (de)serialisation, the job statuses and the Redis keys the worker shares
  with the API.
\<close>

subsection \<open>Statuses and keys (constants.py)\<close>

definition JOB_STREAM :: pystr where "JOB_STREAM = py ''sandbox:jobs''"
definition DEAD_LETTER_STREAM :: pystr where "DEAD_LETTER_STREAM = py ''sandbox:jobs:dead''"
definition CONSUMER_GROUP :: pystr where "CONSUMER_GROUP = py ''workers''"

definition RESULT_TTL_SECONDS :: int where "RESULT_TTL_SECONDS = 3600"
definition RECORD_TTL_SECONDS :: int where "RECORD_TTL_SECONDS = 3600 * 2"

datatype job_status = PENDING | RUNNING | COMPLETED | FAILED | TIMEOUT | KILLED

fun status_str :: "job_status \<Rightarrow> pystr" where
  "status_str PENDING = py ''PENDING''"
| "status_str RUNNING = py ''RUNNING''"
| "status_str COMPLETED = py ''COMPLETED''"
| "status_str FAILED = py ''FAILED''"
| "status_str TIMEOUT = py ''TIMEOUT''"
| "status_str KILLED = py ''KILLED''"

definition TERMINAL_STATUSES :: "job_status list" where
  "TERMINAL_STATUSES = [COMPLETED, FAILED, TIMEOUT, KILLED]"

definition job_record_key :: "pystr \<Rightarrow> pystr" where
  "job_record_key job_id = py ''sandbox:job:'' @ job_id"

definition result_key :: "pystr \<Rightarrow> pystr" where
  "result_key job_id = py ''sandbox:result:'' @ job_id"

definition stream_channel :: "pystr \<Rightarrow> pystr" where
  "stream_channel job_id = py ''sandbox:stream:'' @ job_id"

definition cancel_key :: "pystr \<Rightarrow> pystr" where
  "cancel_key job_id = py ''sandbox:cancel:'' @ job_id"

definition concurrency_key :: "pystr \<Rightarrow> pystr" where
  "concurrency_key user_id = py ''sandbox:concurrency:'' @ user_id"

lemmas key_defs = JOB_STREAM_def DEAD_LETTER_STREAM_def job_record_key_def result_key_def
  stream_channel_def cancel_key_def concurrency_key_def

lemma status_str_inject [simp]: "status_str a = status_str b \<longleftrightarrow> a = b"
  by (cases a; cases b) simp_all

subsection \<open>Requests and results (types.py)\<close>

record input_file =
  if_name :: pystr
  if_content :: pystr

record execution_request =
  language :: pystr
  code :: pystr
  stdin :: pystr
  timeout_seconds :: int
  env_vars :: "(pystr \<times> pystr) list"
  files :: "input_file list"

text \<open>Iterating a value: the items of a list, the keys of a dict, the characters of a string.\<close>

definition py_iter :: "json \<Rightarrow> exn + json list" where
  "py_iter j =
     (case j of
        JList js \<Rightarrow> Inr js
      | JObj d \<Rightarrow> Inr (map (JStr \<circ> fst) d)
      | JStr s \<Rightarrow> Inr (map (\<lambda>c. JStr [c]) s)
      | _ \<Rightarrow> Inl TypeError)"

definition py_or :: "json \<Rightarrow> json \<Rightarrow> json" where
  "py_or a b = (if truthy a then a else b)"

definition input_file_of :: "(json \<Rightarrow> pystr) \<Rightarrow> json \<Rightarrow> exn + input_file" where
  "input_file_of R f =
     ebind (py_item f (py ''name'')) (\<lambda>name.
     ebind (py_item f (py ''content'')) (\<lambda>content.
     Inr \<lparr>if_name = py_str R name, if_content = py_str R content\<rparr>))"

definition env_items :: "(json \<Rightarrow> pystr) \<Rightarrow> json \<Rightarrow> exn + (pystr \<times> pystr) list" where
  "env_items R j =
     (case j of
        JObj d \<Rightarrow> Inr (dict_update [] (map (\<lambda>(k, v). (k, py_str R v)) d))
      | _ \<Rightarrow> Inl AttributeError)"

definition request_from_dict :: "ucd \<Rightarrow> (json \<Rightarrow> pystr) \<Rightarrow> json \<Rightarrow> exn + execution_request" where
  "request_from_dict U R data =
     ebind (py_get data (py ''files'') JNull) (\<lambda>raw_files.
     ebind (py_iter (py_or raw_files (JList []))) (\<lambda>fs.
     ebind (emap (input_file_of R) fs) (\<lambda>files.
     ebind (py_item data (py ''language'')) (\<lambda>language.
     ebind (py_item data (py ''code'')) (\<lambda>code.
     ebind (py_get data (py ''stdin'') JNull) (\<lambda>stdin.
     ebind (py_get data (py ''timeout_seconds'') JNull) (\<lambda>timeout.
     ebind (py_int U (py_or timeout (JInt 10))) (\<lambda>timeout_seconds.
     ebind (py_get data (py ''env_vars'') JNull) (\<lambda>raw_env.
     ebind (env_items R (py_or raw_env (JObj []))) (\<lambda>env_vars.
     Inr \<lparr>language = py_str R language, code = py_str R code,
          stdin = py_str R (py_or stdin (JStr [])), timeout_seconds = timeout_seconds,
          env_vars = env_vars, files = files\<rparr>))))))))))"

record output_file =
  of_name :: pystr
  of_size_bytes :: int
  of_url :: pystr

definition output_file_to_dict :: "output_file \<Rightarrow> json" where
  "output_file_to_dict f =
     JObj [(py ''name'', JStr (of_name f)), (py ''size_bytes'', JInt (of_size_bytes f)),
           (py ''url'', JStr (of_url f))]"

record execution_result =
  job_id :: pystr
  status :: job_status
  stdout :: pystr
  stderr :: pystr
  exit_code :: "int option"
  wall_time_ms :: int
  cpu_time_ms :: int
  memory_bytes :: int
  oom_killed :: bool
  timed_out :: bool
  truncated :: bool
  out_files :: "output_file list"

text \<open>The dataclass defaults of \<^verbatim>\<open>ExecutionResult(job_id=..., status=...)\<close>.\<close>

definition new_result :: "pystr \<Rightarrow> job_status \<Rightarrow> execution_result" where
  "new_result jid st =
     \<lparr>job_id = jid, status = st, stdout = [], stderr = [], exit_code = None, wall_time_ms = 0,
      cpu_time_ms = 0, memory_bytes = 0, oom_killed = False, timed_out = False,
      truncated = False, out_files = []\<rparr>"

definition json_of_exit :: "int option \<Rightarrow> json" where
  "json_of_exit c = (case c of None \<Rightarrow> JNull | Some i \<Rightarrow> JInt i)"

definition result_to_dict :: "execution_result \<Rightarrow> json" where
  "result_to_dict r =
     JObj [(py ''job_id'', JStr (job_id r)),
           (py ''status'', JStr (status_str (status r))),
           (py ''stdout'', JStr (stdout r)),
           (py ''stderr'', JStr (stderr r)),
           (py ''exit_code'', json_of_exit (exit_code r)),
           (py ''wall_time_ms'', JInt (wall_time_ms r)),
           (py ''cpu_time_ms'', JInt (cpu_time_ms r)),
           (py ''memory_bytes'', JInt (memory_bytes r)),
           (py ''oom_killed'', JBool (oom_killed r)),
           (py ''timed_out'', JBool (timed_out r)),
           (py ''truncated'', JBool (truncated r)),
           (py ''files'', JList (map output_file_to_dict (out_files r)))]"

definition terminal :: "job_status \<Rightarrow> bool" where
  "terminal s \<longleftrightarrow> s \<in> set TERMINAL_STATUSES"

lemma terminal_simps [simp]:
  "terminal COMPLETED" "terminal FAILED" "terminal TIMEOUT" "terminal KILLED"
  "\<not> terminal PENDING" "\<not> terminal RUNNING"
  by (simp_all add: terminal_def TERMINAL_STATUSES_def)

lemma json_of_exit_inject [simp]: "json_of_exit a = json_of_exit b \<longleftrightarrow> a = b"
  by (cases a; cases b) (simp_all add: json_of_exit_def)

lemma output_file_to_dict_inject [simp]: "output_file_to_dict a = output_file_to_dict b \<longleftrightarrow> a = b"
  by (cases a; cases b) (simp add: output_file_to_dict_def)

lemma result_to_dict_inject: "result_to_dict a = result_to_dict b \<longleftrightarrow> a = b"
  by (cases a; cases b) (auto simp: result_to_dict_def inj_map_eq_map inj_def)

subsection \<open>Round trip of a request\<close>

text \<open>
  The JSON object the API enqueues for a request, field by field as
  \<^verbatim>\<open>ExecutionRequest.from_dict\<close> names them.
\<close>

definition request_payload :: "execution_request \<Rightarrow> json" where
  "request_payload r =
     JObj [(py ''language'', JStr (language r)), (py ''code'', JStr (code r)), (py ''stdin'', JStr (stdin r)),
           (py ''timeout_seconds'', JInt (timeout_seconds r)),
           (py ''env_vars'', JObj (map (\<lambda>(k, v). (k, JStr v)) (env_vars r))),
           (py ''files'', JList (map (\<lambda>f. JObj [(py ''name'', JStr (if_name f)),
                                             (py ''content'', JStr (if_content f))]) (files r)))]"

lemma emap_input_files:
  "emap (input_file_of R) (map (\<lambda>f. JObj [(py ''name'', JStr (if_name f)),
      (py ''content'', JStr (if_content f))]) fs) = Inr fs"
  by (induction fs) (simp_all add: input_file_of_def py_item_def py_str_def)

lemma dict_set_new: "k \<notin> fst ` set d \<Longrightarrow> dict_set d k v = d @ [(k, v)]"
  by (induction d k v rule: dict_set.induct) auto

lemma dict_update_fresh:
  "distinct (map fst (d @ kvs)) \<Longrightarrow> dict_update d kvs = d @ kvs"
proof (induction kvs arbitrary: d)
  case (Cons kv kvs)
  obtain k v where kv: "kv = (k, v)" by (cases kv)
  with Cons.prems have "k \<notin> fst ` set d" by auto
  with Cons kv show ?case by (simp add: dict_set_new)
qed simp

lemma env_items_payload:
  "distinct (map fst env) \<Longrightarrow> env_items R (JObj (map (\<lambda>(k, v). (k, JStr v)) env)) = Inr env"
  using dict_update_fresh [of "[]" env]
  by (simp add: env_items_def py_str_def case_prod_beta comp_def)

text \<open>
  C33: Reading back the payload of a request gives the request: language, code, standard
  input, a non-zero timeout, the environment variables in order and the input files.
\<close>

theorem request_round_trip:
  assumes "timeout_seconds r \<noteq> 0" "distinct (map fst (env_vars r))"
  shows "request_from_dict U R (request_payload r) = Inr r"
proof -
  have "py_or (JStr s) (JStr []) = JStr s" "py_or (JInt (timeout_seconds r)) (JInt 10) = JInt (timeout_seconds r)"
      "py_or (JObj d) (JObj []) = JObj d" "py_or (JList l) (JList []) = JList l" for s d l
    using assms(1) by (auto simp: py_or_def)
  then show ?thesis
    using env_items_payload [OF assms(2), of R] emap_input_files [of R "files r"]
    by (simp add: request_from_dict_def request_payload_def py_get_def py_item_def py_iter_def py_int_def py_str_def)
qed

theorem request_round_trip_witness:
  "request_from_dict no_unicode (\<lambda>_. []) (request_payload
     \<lparr>language = py ''bash'', code = py ''id'', stdin = [], timeout_seconds = 5,
      env_vars = [(py ''A'', py ''1'')], files = [\<lparr>if_name = py ''f'', if_content = []\<rparr>]\<rparr>)
   = Inr \<lparr>language = py ''bash'', code = py ''id'', stdin = [], timeout_seconds = 5,
      env_vars = [(py ''A'', py ''1'')], files = [\<lparr>if_name = py ''f'', if_content = []\<rparr>]\<rparr>"
  by (rule request_round_trip) simp_all

subsection \<open>Redis keys\<close>

text \<open>
  The Redis names of the worker never collide: each key function is injective in its
  id, the five families and the two streams are pairwise disjoint for all ids, even ids that
  contain colons.
\<close>

theorem key_spaces_disjoint:
  "(result_key a = result_key b \<longleftrightarrow> a = b) \<and> (job_record_key a = job_record_key b \<longleftrightarrow> a = b) \<and>
   (cancel_key a = cancel_key b \<longleftrightarrow> a = b) \<and> (stream_channel a = stream_channel b \<longleftrightarrow> a = b) \<and>
   (concurrency_key a = concurrency_key b \<longleftrightarrow> a = b) \<and>
   distinct [result_key a, job_record_key b, cancel_key c, stream_channel d, concurrency_key u,
             JOB_STREAM, DEAD_LETTER_STREAM]"
  by (simp add: key_defs) (simp add: py_def)

end
