(* ===== verification/Resource_Limits.thy ===== *)
theory Resource_Limits
  imports Environment
begin

text \<open>
  \<^verbatim>\<open>worker/sandbox/resource_limits.py\<close>: the resource envelope of a run, the clamping of
  the requested timeout, the docker flags and the table of per-language defaults. The one
  float, the cpu quota, is a rational number printed as Python prints it.
\<close>

definition MAX_TIMEOUT_SECONDS :: int where "MAX_TIMEOUT_SECONDS = 60"
definition MAX_MEMORY_MB :: int where "MAX_MEMORY_MB = 1024"

record resource_config =
  memory_mb :: int
  cpu_quota :: rat
  rc_timeout_seconds :: int
  pids_limit :: int
  disk_mb :: int
  network_enabled :: bool
  output_max_bytes :: int

definition clamp_timeout :: "resource_config \<Rightarrow> int option \<Rightarrow> int" where
  "clamp_timeout rc requested =
     (let ceiling = min (rc_timeout_seconds rc) MAX_TIMEOUT_SECONDS
      in (case requested of
            None \<Rightarrow> ceiling
          | Some r \<Rightarrow> if r \<le> 0 then ceiling else max 1 (min r ceiling)))"

text \<open>\<^verbatim>\<open>repr\<close> of a non-negative float with a finite decimal expansion of at most 17 digits.\<close>

fun frac_digits :: "nat \<Rightarrow> rat \<Rightarrow> pystr" where
  "frac_digits 0 r = []"
| "frac_digits (Suc n) r =
     (if r = 0 then [] else (48 + nat \<lfloor>10 * r\<rfloor>) # frac_digits n (10 * r - of_int \<lfloor>10 * r\<rfloor>))"

definition float_repr :: "rat \<Rightarrow> pystr" where
  "float_repr q =
     str_of_int \<lfloor>q\<rfloor> @ py ''.'' @
     (if q = of_int \<lfloor>q\<rfloor> then py ''0'' else frac_digits 17 (q - of_int \<lfloor>q\<rfloor>))"

definition to_docker_flags :: "resource_config \<Rightarrow> pystr list" where
  "to_docker_flags rc =
     [py ''--memory='' @ str_of_int (memory_mb rc) @ py ''m'',
      py ''--memory-swap='' @ str_of_int (memory_mb rc) @ py ''m'',
      py ''--cpus='' @ float_repr (cpu_quota rc),
      py ''--pids-limit='' @ str_of_int (pids_limit rc),
      py ''--tmpfs=/tmp:rw,noexec,nosuid,nodev,size='' @ str_of_int (disk_mb rc) @ py ''m'',
      py ''--ulimit'', py ''nofile=256:256'',
      py ''--ulimit'', py ''nproc='' @ str_of_int (pids_limit rc) @ py '':'' @ str_of_int (pids_limit rc),
      py ''--ulimit'', py ''fsize='' @ str_of_int (disk_mb rc * 1024 * 1024)]
     @ (if network_enabled rc then [] else [py ''--network=none''])"

definition DEFAULTS :: "(pystr \<times> resource_config) list" where
  "DEFAULTS =
     [(py ''python'', \<lparr>memory_mb = 256, cpu_quota = 1/2, rc_timeout_seconds = 10, pids_limit = 64,
         disk_mb = 64, network_enabled = False, output_max_bytes = 1048576\<rparr>),
      (py ''javascript'', \<lparr>memory_mb = 256, cpu_quota = 1/2, rc_timeout_seconds = 10, pids_limit = 64,
         disk_mb = 64, network_enabled = False, output_max_bytes = 1048576\<rparr>),
      (py ''typescript'', \<lparr>memory_mb = 320, cpu_quota = 3/4, rc_timeout_seconds = 15, pids_limit = 96,
         disk_mb = 128, network_enabled = False, output_max_bytes = 1048576\<rparr>),
      (py ''java'', \<lparr>memory_mb = 512, cpu_quota = 1, rc_timeout_seconds = 20, pids_limit = 128,
         disk_mb = 128, network_enabled = False, output_max_bytes = 1048576\<rparr>),
      (py ''go'', \<lparr>memory_mb = 384, cpu_quota = 1, rc_timeout_seconds = 20, pids_limit = 128,
         disk_mb = 256, network_enabled = False, output_max_bytes = 1048576\<rparr>),
      (py ''ruby'', \<lparr>memory_mb = 256, cpu_quota = 1/2, rc_timeout_seconds = 10, pids_limit = 64,
         disk_mb = 64, network_enabled = False, output_max_bytes = 1048576\<rparr>),
      (py ''rust'', \<lparr>memory_mb = 512, cpu_quota = 1, rc_timeout_seconds = 25, pids_limit = 128,
         disk_mb = 256, network_enabled = False, output_max_bytes = 1048576\<rparr>),
      (py ''bash'', \<lparr>memory_mb = 128, cpu_quota = 1/2, rc_timeout_seconds = 10, pids_limit = 32,
         disk_mb = 32, network_enabled = False, output_max_bytes = 1048576\<rparr>)]"

definition get_resource_config :: "pystr \<Rightarrow> exn + resource_config" where
  "get_resource_config language =
     (case map_of DEFAULTS language of Some rc \<Rightarrow> Inr rc | None \<Rightarrow> Inl KeyError)"

definition has_resource_config :: "pystr \<Rightarrow> bool" where
  "has_resource_config language \<longleftrightarrow> map_of DEFAULTS language \<noteq> None"

text \<open>The envelope every default satisfies.\<close>

definition envelope_ok :: "resource_config \<Rightarrow> bool" where
  "envelope_ok rc \<longleftrightarrow> 0 < memory_mb rc \<and> memory_mb rc \<le> MAX_MEMORY_MB \<and>
     0 < cpu_quota rc \<and> cpu_quota rc \<le> 1 \<and>
     1 \<le> rc_timeout_seconds rc \<and> rc_timeout_seconds rc \<le> 25 \<and>
     0 < pids_limit rc \<and> pids_limit rc \<le> 128 \<and> 0 < disk_mb rc \<and> disk_mb rc < memory_mb rc \<and>
     \<not> network_enabled rc \<and> output_max_bytes rc = 1048576"

lemma DEFAULTS_ok: "list_all (\<lambda>(_, rc). envelope_ok rc) DEFAULTS"
  by (simp add: DEFAULTS_def envelope_ok_def MAX_MEMORY_MB_def)

lemma get_resource_config_ok: "get_resource_config language = Inr rc \<Longrightarrow> envelope_ok rc"
  using DEFAULTS_ok
  by (auto simp: get_resource_config_def list_all_iff split: option.splits dest!: map_of_SomeD)

text \<open>
  The effective timeout always lies between one second and the language's own limit,
  never exceeds the system ceiling of 60 seconds, and is the requested one whenever that is
  already in range; a missing or non-positive request gets the ceiling.
\<close>

theorem clamp_timeout_range:
  assumes "1 \<le> rc_timeout_seconds rc"
  shows "1 \<le> clamp_timeout rc req \<and> clamp_timeout rc req \<le> rc_timeout_seconds rc \<and>
         clamp_timeout rc req \<le> MAX_TIMEOUT_SECONDS \<and>
         (case req of
            None \<Rightarrow> clamp_timeout rc req = min (rc_timeout_seconds rc) MAX_TIMEOUT_SECONDS
          | Some r \<Rightarrow>
              if r \<le> 0 then clamp_timeout rc req = min (rc_timeout_seconds rc) MAX_TIMEOUT_SECONDS
              else clamp_timeout rc req = min r (min (rc_timeout_seconds rc) MAX_TIMEOUT_SECONDS))"
  using assms by (auto simp: clamp_timeout_def Let_def MAX_TIMEOUT_SECONDS_def split: option.splits)

theorem clamp_timeout_range_witness:
  "\<exists>rc. get_resource_config (py ''rust'') = Inr rc \<and> clamp_timeout rc (Some 100) = 25"
proof -
  obtain rc where rc: "get_resource_config (py ''rust'') = Inr rc" "rc_timeout_seconds rc = 25"
    by (simp add: get_resource_config_def DEFAULTS_def)
  have "1 \<le> rc_timeout_seconds rc" using rc by simp
  from clamp_timeout_range [OF this, of "Some 100"] rc show ?thesis
    by (auto simp: MAX_TIMEOUT_SECONDS_def)
qed

lemma str_of_int_inject [simp]: "str_of_int a = str_of_int b \<longleftrightarrow> a = b"
  using int_of_str_of_int by (metis option.inject)

end
