(* ===== verification/Config.thy ===== *)
theory Config
  imports Environment
begin

text \<open>
  \<^verbatim>\<open>worker/config.py\<close>: the worker configuration, read from the process environment (a
  parameter, as are the host name, the random suffix of the worker id and the temporary
  directory), and the translation of a local path to the path the docker daemon sees. The
  functions of \<^verbatim>\<open>posixpath\<close> it uses, \<^verbatim>\<open>normpath\<close>, \<^verbatim>\<open>abspath\<close> and \<^verbatim>\<open>relpath\<close>, are modelled
  on lists of path components; \<open>cwd\<close> is the current directory.
\<close>

definition env_int :: "ucd \<Rightarrow> (pystr \<rightharpoonup> pystr) \<Rightarrow> pystr \<Rightarrow> int \<Rightarrow> exn + int" where
  "env_int U environ name d =
     (case environ name of
        None \<Rightarrow> Inr d
      | Some raw \<Rightarrow>
          if raw = [] then Inr d
          else (case int_of_str U raw of Some i \<Rightarrow> Inr i | None \<Rightarrow> Inl ValueError))"

definition env_str :: "(pystr \<rightharpoonup> pystr) \<Rightarrow> pystr \<Rightarrow> pystr \<Rightarrow> pystr" where
  "env_str environ name d = (case environ name of None \<Rightarrow> d | Some v \<Rightarrow> if v = [] then d else v)"

definition env_bool :: "ucd \<Rightarrow> (pystr \<rightharpoonup> pystr) \<Rightarrow> pystr \<Rightarrow> bool \<Rightarrow> bool" where
  "env_bool U environ name d =
     (case environ name of
        None \<Rightarrow> d
      | Some raw \<Rightarrow> if raw = [] then d
          else lower U raw \<in> set (map py [''1'', ''true'', ''yes'', ''on'']))"

record worker_config =
  redis_url :: pystr
  minio_endpoint :: pystr
  minio_access_key :: pystr
  minio_secret_key :: pystr
  minio_bucket :: pystr
  minio_secure :: bool
  worker_concurrency :: int
  worker_id :: pystr
  docker_path :: pystr
  local_workdir :: pystr
  host_workdir :: pystr
  block_ms :: int
  read_count :: int
  claim_min_idle_ms :: int
  max_retries :: int
  sigterm_grace_seconds :: int
  metrics_port :: int
  log_level :: pystr
  otlp_endpoint :: pystr

definition load_worker_config ::
    "ucd \<Rightarrow> (pystr \<rightharpoonup> pystr) \<Rightarrow> pystr \<Rightarrow> pystr \<Rightarrow> pystr \<Rightarrow> exn + worker_config" where
  "load_worker_config U environ tempdir hostname uuid_hex =
     (let default_workdir = path_join tempdir (py ''sandbox-work'');
          str = (\<lambda>n d. env_str environ (py n) d);
          int = (\<lambda>n d. env_int U environ (py n) d)
      in ebind (int ''WORKER_CONCURRENCY'' 4) (\<lambda>concurrency.
         ebind (int ''QUEUE_BLOCK_MS'' 5000) (\<lambda>block.
         ebind (int ''QUEUE_READ_COUNT'' 10) (\<lambda>count.
         ebind (int ''QUEUE_CLAIM_MIN_IDLE_MS'' 60000) (\<lambda>idle.
         ebind (int ''QUEUE_MAX_RETRIES'' 3) (\<lambda>retries.
         ebind (int ''SIGTERM_GRACE_SECONDS'' 2) (\<lambda>grace.
         ebind (int ''METRICS_PORT'' 9100) (\<lambda>port.
         Inr \<lparr>redis_url = str ''REDIS_URL'' (py ''redis://localhost:6379/0''),
              minio_endpoint = str ''MINIO_ENDPOINT'' (py ''localhost:9000''),
              minio_access_key = str ''MINIO_ACCESS_KEY'' (py ''minioadmin''),
              minio_secret_key = str ''MINIO_SECRET_KEY'' (py ''minioadmin''),
              minio_bucket = str ''MINIO_BUCKET'' (py ''sandbox-artifacts''),
              minio_secure = env_bool U environ (py ''MINIO_USE_SSL'') False,
              worker_concurrency = concurrency,
              worker_id = str ''WORKER_ID'' (hostname @ py ''-'' @ take 8 uuid_hex),
              docker_path = str ''DOCKER_PATH'' (py ''docker''),
              local_workdir = str ''SANDBOX_WORKDIR'' default_workdir,
              host_workdir = str ''SANDBOX_HOST_WORKDIR'' [],
              block_ms = block, read_count = count, claim_min_idle_ms = idle,
              max_retries = retries, sigterm_grace_seconds = grace, metrics_port = port,
              log_level = str ''LOG_LEVEL'' (py ''INFO''),
              otlp_endpoint = str ''OTEL_EXPORTER_OTLP_ENDPOINT'' []\<rparr>))))))))"

subsection \<open>posixpath\<close>

definition dot :: pystr where "dot = [46]"
definition dotdot :: pystr where "dotdot = [46, 46]"

fun norm_comps :: "bool \<Rightarrow> pystr list \<Rightarrow> pystr list \<Rightarrow> pystr list" where
  "norm_comps absolute acc [] = rev acc"
| "norm_comps absolute acc (c # cs) =
     (if c = [] \<or> c = dot then norm_comps absolute acc cs
      else if c \<noteq> dotdot \<or> (\<not> absolute \<and> acc = []) \<or> (acc \<noteq> [] \<and> hd acc = dotdot)
      then norm_comps absolute (c # acc) cs
      else norm_comps absolute (tl acc) cs)"

fun join_slash :: "pystr list \<Rightarrow> pystr" where
  "join_slash [] = []"
| "join_slash [c] = c"
| "join_slash (c # cs) = c @ [47] @ join_slash cs"

definition initial_slashes :: "pystr \<Rightarrow> nat" where
  "initial_slashes p =
     (if startswith p [47, 47] \<and> \<not> startswith p [47, 47, 47] then 2
      else if startswith p [47] then 1 else 0)"

definition normpath :: "pystr \<Rightarrow> pystr" where
  "normpath p =
     (if p = [] then dot
      else let n = initial_slashes p;
               q = replicate n 47 @ join_slash (norm_comps (0 < n) [] (split_on 47 p))
           in if q = [] then dot else q)"

definition abspath :: "pystr \<Rightarrow> pystr \<Rightarrow> pystr" where
  "abspath cwd p = normpath (if startswith p [47] then p else path_join cwd p)"

fun common_prefix :: "pystr list \<Rightarrow> pystr list \<Rightarrow> nat" where
  "common_prefix (a # as) (b # bs) = (if a = b then Suc (common_prefix as bs) else 0)"
| "common_prefix _ _ = 0"

definition comps :: "pystr \<Rightarrow> pystr list" where
  "comps p = filter (\<lambda>c. c \<noteq> []) (split_on 47 p)"

definition relpath :: "pystr \<Rightarrow> pystr \<Rightarrow> pystr \<Rightarrow> exn + pystr" where
  "relpath cwd p start =
     (if p = [] then Inl ValueError
      else let start_list = comps (abspath cwd start); path_list = comps (abspath cwd p);
               i = common_prefix start_list path_list;
               rel_list = replicate (length start_list - i) dotdot @ drop i path_list
           in Inr (if rel_list = [] then dot else join_slash rel_list))"

definition host_path_for :: "pystr \<Rightarrow> worker_config \<Rightarrow> pystr \<Rightarrow> exn + pystr" where
  "host_path_for cwd cfg local_path =
     (if host_workdir cfg = [] then Inr local_path
      else ebind (relpath cwd local_path (local_workdir cfg)) (\<lambda>rel.
           Inr (normpath (path_join (host_workdir cfg) rel))))"

subsection \<open>Laws\<close>

text \<open>A plain component: what a directory entry created by \<^verbatim>\<open>mkdtemp\<close> is called.\<close>

definition plain_comp :: "pystr \<Rightarrow> bool" where
  "plain_comp c \<longleftrightarrow> c \<noteq> [] \<and> c \<noteq> dot \<and> c \<noteq> dotdot \<and> 47 \<notin> set c"

text \<open>The absolute path with the given components.\<close>

definition abs_path :: "pystr list \<Rightarrow> pystr" where
  "abs_path cs = 47 # join_slash cs"

lemma split_on_no_sep: "sep \<notin> set s \<Longrightarrow> split_on sep s = [s]"
  by (induction s) auto

lemma split_on_sep: "sep \<notin> set s \<Longrightarrow> split_on sep (s @ sep # r) = s # split_on sep r"
  by (induction s) auto

lemma split_join:
  "cs \<noteq> [] \<Longrightarrow> list_all plain_comp cs \<Longrightarrow> split_on 47 (join_slash cs) = cs"
  by (induction cs rule: join_slash.induct) (auto simp: plain_comp_def split_on_no_sep split_on_sep)

lemma norm_comps_plain: "list_all plain_comp cs \<Longrightarrow> norm_comps a acc cs = rev acc @ cs"
  by (induction cs arbitrary: acc) (auto simp: plain_comp_def)

lemma comps_abs_path: "list_all plain_comp cs \<Longrightarrow> comps (abs_path cs) = cs"
  by (cases "cs = []")
    (auto simp: comps_def abs_path_def split_join list_all_iff plain_comp_def intro!: filter_True)

lemma join_slash_hd:
  assumes "list_all plain_comp cs" "cs \<noteq> []"
  obtains c r where "join_slash cs = c # r" "c \<noteq> 47"
  using assms by (cases cs rule: join_slash.cases; cases "hd cs") (auto simp: plain_comp_def)

lemma initial_slashes_abs_path: "list_all plain_comp cs \<Longrightarrow> initial_slashes (abs_path cs) = 1"
  by (cases "cs = []")
    (auto simp: initial_slashes_def abs_path_def startswith_def elim: join_slash_hd)

lemma normpath_abs_path: "list_all plain_comp cs \<Longrightarrow> normpath (abs_path cs) = abs_path cs"
proof -
  assume plain: "list_all plain_comp cs"
  have "norm_comps True [] (split_on 47 (abs_path cs)) = cs"
    using plain norm_comps_plain [of cs True "[]"]
    by (cases "cs = []") (simp_all add: abs_path_def split_join)
  with plain show ?thesis
    by (simp add: normpath_def initial_slashes_abs_path) (simp add: abs_path_def)
qed

lemma abspath_abs_path: "list_all plain_comp cs \<Longrightarrow> abspath cwd (abs_path cs) = abs_path cs"
  by (simp add: abspath_def normpath_abs_path) (simp add: abs_path_def startswith_def)

lemma common_prefix_append: "common_prefix cs (cs @ ds) = length cs"
  by (induction cs) simp_all

lemma relpath_below:
  assumes "list_all plain_comp cs" "plain_comp d"
  shows "relpath cwd (abs_path (cs @ [d])) (abs_path cs) = Inr d"
  using assms
  by (simp add: relpath_def abspath_abs_path comps_abs_path common_prefix_append)
    (simp add: abs_path_def plain_comp_def)

lemma path_join_abs_path:
  assumes "list_all plain_comp cs" "cs \<noteq> []" "plain_comp d"
  shows "path_join (abs_path cs) d = abs_path (cs @ [d])"
proof -
  have "\<not> startswith d [47]" using assms(3) by (cases d) (auto simp: plain_comp_def startswith_def)
  moreover have "last (join_slash cs) \<noteq> 47 \<and> join_slash cs \<noteq> []" using assms(1,2)
    by (induction cs rule: join_slash.induct) (auto simp: plain_comp_def dest: last_in_set)
  moreover have "join_slash (cs @ [d]) = join_slash cs @ 47 # d" using assms(2)
    by (induction cs rule: join_slash.induct) auto
  ultimately show ?thesis
    by (simp add: path_join_def abs_path_def endswith_single)
qed

text \<open>
  With a host directory configured, a job directory directly below the worker's local
  work directory is translated to the entry of the same name directly below the host
  directory: the bind mount the daemon resolves is the directory the worker wrote.
\<close>

theorem host_path_for_job_dir:
  assumes "list_all plain_comp cs" "list_all plain_comp hs" "hs \<noteq> []" "plain_comp d"
    and "local_workdir cfg = abs_path cs" "host_workdir cfg = abs_path hs"
  shows "host_path_for cwd cfg (abs_path (cs @ [d])) = Inr (abs_path (hs @ [d]))"
proof -
  have "host_workdir cfg \<noteq> []" using assms(6) by (simp add: abs_path_def)
  then show ?thesis
    using assms by (simp add: host_path_for_def relpath_below path_join_abs_path normpath_abs_path)
qed

theorem host_path_for_job_dir_witness:
  "host_path_for (py ''/'')
     \<lparr>redis_url = [], minio_endpoint = [], minio_access_key = [], minio_secret_key = [],
      minio_bucket = [], minio_secure = False, worker_concurrency = 4, worker_id = [],
      docker_path = py ''docker'', local_workdir = py ''/work'', host_workdir = py ''/srv/jobs'',
      block_ms = 0, read_count = 1, claim_min_idle_ms = 0, max_retries = 3,
      sigterm_grace_seconds = 2, metrics_port = 0, log_level = [], otlp_endpoint = []\<rparr>
     (py ''/work/j1-x'') = Inr (py ''/srv/jobs/j1-x'')"
  using host_path_for_job_dir [of "[py ''work'']" "[py ''srv'', py ''jobs'']" "py ''j1-x''"
      "\<lparr>redis_url = [], minio_endpoint = [], minio_access_key = [], minio_secret_key = [],
      minio_bucket = [], minio_secure = False, worker_concurrency = 4, worker_id = [],
      docker_path = py ''docker'', local_workdir = py ''/work'', host_workdir = py ''/srv/jobs'',
      block_ms = 0, read_count = 1, claim_min_idle_ms = 0, max_retries = 3,
      sigterm_grace_seconds = 2, metrics_port = 0, log_level = [], otlp_endpoint = []\<rparr>" "py ''/''"]
  by (simp add: plain_comp_def abs_path_def dot_def dotdot_def py_def)

end
