(* ===== verification/Image_Registry.thy ===== *)
theory Image_Registry
  imports Resource_Limits Seccomp Config
begin

text \<open>
  \<^verbatim>\<open>worker/sandbox/image_registry.py\<close>: the table of language runtimes. The image reference
  and the optional pinned digest come from the process environment, a parameter.
\<close>

record runtime_config =
  rt_id :: pystr
  rt_name :: pystr
  rt_version :: pystr
  rt_image :: pystr
  rt_image_digest :: pystr
  rt_entrypoint :: "pystr list"
  rt_source_filename :: pystr
  rt_needs_exec_build :: bool
  rt_limits :: resource_config

definition argv_for :: "runtime_config \<Rightarrow> pystr \<Rightarrow> pystr list" where
  "argv_for rt source_path = rt_entrypoint rt @ [source_path]"

definition seccomp_profile_path ::
    "env \<Rightarrow> (pystr \<rightharpoonup> pystr) \<Rightarrow> pystr \<Rightarrow> runtime_config \<Rightarrow> pystr io" where
  "seccomp_profile_path E environ tempdir rt =
     profile_path E environ tempdir (rt_id rt) (network_enabled (rt_limits rt))"

definition image_for :: "ucd \<Rightarrow> (pystr \<rightharpoonup> pystr) \<Rightarrow> pystr \<Rightarrow> pystr \<times> pystr" where
  "image_for U environ language =
     (let prefix = (case environ (py ''SANDBOX_IMAGE_PREFIX'') of Some v \<Rightarrow> v | None \<Rightarrow> []);
          tag = (case environ (py ''SANDBOX_IMAGE_TAG'') of Some v \<Rightarrow> v | None \<Rightarrow> py ''latest'');
          img = prefix @ py ''sandbox-runtime-'' @ language @ py '':'' @ tag;
          digest = (case environ (py ''SANDBOX_DIGEST_'' @ upper U language) of Some v \<Rightarrow> v | None \<Rightarrow> [])
      in (img, digest))"

record runtime_spec =
  sp_id :: pystr
  sp_name :: pystr
  sp_version :: pystr
  sp_entrypoint :: "pystr list"
  sp_source_filename :: pystr
  sp_needs_exec_build :: bool

definition spec :: "string \<Rightarrow> string \<Rightarrow> string \<Rightarrow> string list \<Rightarrow> string \<Rightarrow> bool \<Rightarrow> runtime_spec" where
  "spec i n v e f b =
     \<lparr>sp_id = py i, sp_name = py n, sp_version = py v, sp_entrypoint = map py e,
      sp_source_filename = py f, sp_needs_exec_build = b\<rparr>"

definition SPECS :: "runtime_spec list" where
  "SPECS =
     [spec ''python'' ''Python'' ''3.12'' [''python3'', ''-I'', ''-B''] ''main.py'' False,
      spec ''javascript'' ''JavaScript (Node.js)'' ''20'' [''node''] ''main.js'' False,
      spec ''typescript'' ''TypeScript'' ''5.7'' [''/usr/local/bin/run-code''] ''main.ts'' False,
      spec ''java'' ''Java'' ''21''
        [''java'', ''-XX:+UseSerialGC'', ''-XX:TieredStopAtLevel=1'', ''-Xss8m''] ''Main.java'' False,
      spec ''go'' ''Go'' ''1.22'' [''/usr/local/bin/run-code''] ''main.go'' True,
      spec ''ruby'' ''Ruby'' ''3.3'' [''ruby'', ''--disable-gems''] ''main.rb'' False,
      spec ''rust'' ''Rust'' ''1.83'' [''/usr/local/bin/run-code''] ''main.rs'' True,
      spec ''bash'' ''Bash'' ''5.2'' [''bash''] ''main.sh'' False]"

type_synonym registry = "(pystr \<times> runtime_config) list"

definition runtime_of_spec :: "ucd \<Rightarrow> (pystr \<rightharpoonup> pystr) \<Rightarrow> runtime_spec \<Rightarrow> resource_config \<Rightarrow> runtime_config" where
  "runtime_of_spec U environ sp rc =
     (let (img, digest) = image_for U environ (sp_id sp)
      in \<lparr>rt_id = sp_id sp, rt_name = sp_name sp, rt_version = sp_version sp, rt_image = img,
          rt_image_digest = digest, rt_entrypoint = sp_entrypoint sp,
          rt_source_filename = sp_source_filename sp,
          rt_needs_exec_build = sp_needs_exec_build sp, rt_limits = rc\<rparr>)"

fun build_registry :: "ucd \<Rightarrow> (pystr \<rightharpoonup> pystr) \<Rightarrow> runtime_spec list \<Rightarrow> registry \<Rightarrow> exn + registry" where
  "build_registry U environ [] reg = Inr reg"
| "build_registry U environ (sp # sps) reg =
     ebind (get_resource_config (sp_id sp)) (\<lambda>rc.
     build_registry U environ sps (dict_set reg (sp_id sp) (runtime_of_spec U environ sp rc)))"

definition build :: "ucd \<Rightarrow> (pystr \<rightharpoonup> pystr) \<Rightarrow> exn + registry" where
  "build U environ = build_registry U environ SPECS []"

definition get_runtime :: "registry \<Rightarrow> pystr \<Rightarrow> exn + runtime_config" where
  "get_runtime reg language =
     (case map_of reg language of
        Some rt \<Rightarrow> Inr rt
      | None \<Rightarrow> Inl (UnknownLanguageError language))"

definition list_runtimes :: "registry \<Rightarrow> runtime_config list" where
  "list_runtimes reg = map (\<lambda>k. the (map_of reg k)) (sort (map fst reg))"

definition reload_registry :: "ucd \<Rightarrow> (pystr \<rightharpoonup> pystr) \<Rightarrow> registry \<Rightarrow> exn + registry" where
  "reload_registry U environ old = build U environ"

subsection \<open>The built registry\<close>

text \<open>What every registered runtime satisfies.\<close>

definition runtime_ok :: "pystr \<Rightarrow> runtime_config \<Rightarrow> bool" where
  "runtime_ok language rt \<longleftrightarrow> rt_id rt = language \<and> get_resource_config language = Inr (rt_limits rt) \<and>
     plain_comp (rt_source_filename rt) \<and> rt_entrypoint rt \<noteq> []"

definition registry_ok :: "registry \<Rightarrow> bool" where
  "registry_ok reg \<longleftrightarrow> (\<forall>language rt. map_of reg language = Some rt \<longrightarrow> runtime_ok language rt)"

lemma registry_ok_set:
  "registry_ok reg \<Longrightarrow> runtime_ok k rt \<Longrightarrow> registry_ok (dict_set reg k rt)"
  by (auto simp: registry_ok_def)

lemma build_registry_ok:
  assumes "registry_ok reg"
    and "list_all (\<lambda>sp. plain_comp (sp_source_filename sp) \<and> sp_entrypoint sp \<noteq> []
                        \<and> is_ok (get_resource_config (sp_id sp))) sps"
  shows "\<exists>reg'. build_registry U environ sps reg = Inr reg' \<and> registry_ok reg' \<and>
           dom (map_of reg') = dom (map_of reg) \<union> sp_id ` set sps"
  using assms
proof (induction sps arbitrary: reg)
  case (Cons sp sps)
  then obtain rc where rc: "get_resource_config (sp_id sp) = Inr rc"
    by (cases "get_resource_config (sp_id sp)") auto
  have "runtime_ok (sp_id sp) (runtime_of_spec U environ sp rc)"
    using Cons.prems rc by (simp add: runtime_ok_def runtime_of_spec_def split: prod.splits)
  then have "registry_ok (dict_set reg (sp_id sp) (runtime_of_spec U environ sp rc))"
    using Cons.prems(1) by (rule registry_ok_set [rotated])
  from Cons.IH [OF this] Cons.prems(2) rc show ?case by auto
qed simp

lemma SPECS_ok:
  "list_all (\<lambda>sp. plain_comp (sp_source_filename sp) \<and> sp_entrypoint sp \<noteq> []
                  \<and> is_ok (get_resource_config (sp_id sp))) SPECS"
  by (simp add: SPECS_def spec_def plain_comp_def dot_def dotdot_def get_resource_config_def DEFAULTS_def)
    (simp add: py_def)

text \<open>
  C36: Building the registry never fails, whatever the environment variables; it registers
  exactly the eight languages that have resource limits, each under its own id, with those
  limits, a non-empty entrypoint and a source file name that is a single path component.
\<close>

theorem build_registers_all:
  "\<exists>reg. build U environ = Inr reg \<and> registry_ok reg \<and>
     dom (map_of reg) = {language. has_resource_config language} \<and> card (dom (map_of reg)) = 8"
proof -
  obtain reg where reg: "build U environ = Inr reg" "registry_ok reg"
      "dom (map_of reg) = sp_id ` set SPECS"
    using build_registry_ok [OF _ SPECS_ok, of "[]" U environ] by (auto simp: build_def registry_ok_def)
  have "sp_id ` set SPECS = {language. has_resource_config language}"
    by (auto simp: SPECS_def spec_def has_resource_config_def DEFAULTS_def)
  moreover have "card (sp_id ` set SPECS) = 8"
    by (simp add: SPECS_def spec_def)
  ultimately show ?thesis using reg by auto
qed

end
