(* ===== verification/Run_Command.thy ===== *)
theory Run_Command
  imports Types Image_Registry "HOL-Library.Sublist"
begin

text \<open>
  The pure parts of \<^verbatim>\<open>worker/sandbox/executor.py\<close> that decide what reaches docker: the
  file-name filter \<^verbatim>\<open>_safe_basename\<close>, the reserved environment variables and
  \<^verbatim>\<open>_build_command\<close>, which assembles the argument vector of \<^verbatim>\<open>docker run\<close>.

  \<open>ctx\<close> bundles what the worker process reads from its surroundings: the Unicode database, \<^verbatim>\<open>str\<close> of floats, lists and dicts,
  the environment variables, the temporary and current directories, the registry and the
  configuration.
\<close>

record ctx =
  ucd_of :: ucd
  str_of :: "json \<Rightarrow> pystr"
  environ_of :: "pystr \<rightharpoonup> pystr"
  tempdir_of :: pystr
  cwd_of :: pystr
  registry_of :: registry
  config_of :: worker_config

definition FORBIDDEN_ENV :: "pystr list" where
  "FORBIDDEN_ENV = map py
     [''PATH'', ''LD_PRELOAD'', ''LD_LIBRARY_PATH'', ''LD_AUDIT'', ''HOME'', ''TMPDIR'',
      ''NODE_OPTIONS'', ''PYTHONPATH'', ''PYTHONSTARTUP'', ''BASH_ENV'', ''ENV'', ''IFS'',
      ''RUBYOPT'', ''GEM_PATH'', ''CLASSPATH'', ''JAVA_TOOL_OPTIONS'', ''SANDBOX'']"

definition safe_basename :: "ucd \<Rightarrow> pystr \<Rightarrow> pystr option" where
  "safe_basename U name =
     (if 0 \<in> set name then None
      else let base = basename (replace_char 92 47 name)
           in if base = [] \<or> base = dot \<or> base = dotdot then None
              else if \<not> list_all (\<lambda>c. isalnum U c \<or> c \<in> set (py ''._-'')) base then None
              else if length base > 255 then None
              else Some base)"

definition env_refused :: "ucd \<Rightarrow> pystr \<Rightarrow> bool" where
  "env_refused U key \<longleftrightarrow> upper U key \<in> set FORBIDDEN_ENV \<or> 61 \<in> set key \<or> key = []"

definition user_env :: "ucd \<Rightarrow> (pystr \<times> pystr) list \<Rightarrow> pystr list" where
  "user_env U env =
     concat (map (\<lambda>(key, value). if env_refused U key then [] else [py ''-e'', key @ [61] @ value]) env)"

definition work_in :: "runtime_config \<Rightarrow> pystr" where
  "work_in rt = (if rt_needs_exec_build rt then py ''/build'' else py ''/tmp'')"

text \<open>The options that do not depend on the request, up to the fixed environment.\<close>

definition base_options :: "worker_config \<Rightarrow> runtime_config \<Rightarrow> pystr \<Rightarrow> pystr \<Rightarrow> pystr list" where
  "base_options cfg rt seccomp_path container =
     [docker_path cfg, py ''run'', py ''--rm'', py ''-i'', py ''--name'', container,
      py ''--read-only'', py ''--cap-drop'', py ''ALL'',
      py ''--security-opt'', py ''no-new-privileges'',
      py ''--security-opt'', py ''seccomp='' @ seccomp_path,
      py ''--user'', py ''nobody'', py ''--hostname'', py ''sandbox'',
      py ''--label'', py ''sandbox-managed=1'', py ''--stop-timeout'', py ''2'', py ''--init'']
     @ to_docker_flags (rt_limits rt)
     @ (if rt_needs_exec_build rt
        then [py ''--tmpfs'', py ''/build:rw,exec,nosuid,nodev,size=''
                @ str_of_int (disk_mb (rt_limits rt)) @ py ''m,mode=1777'']
        else [])
     @ [py ''--workdir'', work_in rt, py ''-e'', py ''SANDBOX=1'', py ''-e'', py ''HOME='' @ work_in rt,
        py ''-e'', py ''TMPDIR=/tmp'']"

definition build_command ::
    "ctx \<Rightarrow> pystr \<Rightarrow> runtime_config \<Rightarrow> execution_request \<Rightarrow> pystr \<Rightarrow> pystr \<Rightarrow> exn + pystr list" where
  "build_command X seccomp_path rt request workdir container =
     ebind (host_path_for (cwd_of X) (config_of X) workdir) (\<lambda>host_src.
     Inr (base_options (config_of X) rt seccomp_path container
          @ user_env (ucd_of X) (env_vars request)
          @ [py ''-v'', host_src @ py '':/sandbox:ro'', rt_image rt]
          @ argv_for rt (py ''/sandbox/'' @ rt_source_filename rt)))"

subsection \<open>File names\<close>

lemma safe_basename_plain: "safe_basename U name = Some base \<Longrightarrow> plain_comp base"
  by (auto simp: safe_basename_def Let_def plain_comp_def basename_no_slash split: if_splits)

text \<open>
  C27: A file name that passes the filter is one path component of at most 255 characters,
  all alphanumeric or one of dot, underscore and hyphen: no separator, no NUL and not a
  directory reference. The filter is idempotent: it accepts its own result unchanged.
\<close>

theorem safe_basename_confined:
  assumes "safe_basename U name = Some base"
  shows "plain_comp base \<and> length base \<le> 255 \<and> 0 \<notin> set base \<and> 92 \<notin> set base \<and>
         list_all (\<lambda>c. isalnum U c \<or> c \<in> set (py ''._-'')) base \<and>
         safe_basename U base = Some base"
proof -
  have base: "base = basename (replace_char 92 47 name)" "0 \<notin> set name" "length base \<le> 255"
      "list_all (\<lambda>c. isalnum U c \<or> c \<in> set (py ''._-'')) base"
    using assms by (auto simp: safe_basename_def Let_def split: if_splits)
  have chars: "0 \<notin> set base" "92 \<notin> set base"
    using base(4) by (auto simp: list_all_iff isalnum_def py_def)
  then have "replace_char 92 47 base = base"
    unfolding replace_char_def by (intro map_idI) auto
  moreover have "47 \<notin> set base" using base(1) basename_no_slash by simp
  ultimately have "basename (replace_char 92 47 base) = base" by (simp add: basename_idem)
  then have "safe_basename U base = Some base"
    using assms base chars by (auto simp: safe_basename_def Let_def split: if_splits)
  with base chars safe_basename_plain [OF assms] show ?thesis by simp
qed

theorem safe_basename_confined_witness:
  "safe_basename no_unicode (py ''../../etc/data_1.txt'') = Some (py ''data_1.txt'')
   \<and> plain_comp (py ''data_1.txt'')"
proof -
  have h: "safe_basename no_unicode (py ''../../etc/data_1.txt'') = Some (py ''data_1.txt'')"
    by (simp add: safe_basename_def py_def replace_char_def basename_def dot_def dotdot_def isalnum_def)
  from safe_basename_confined [OF h] h show ?thesis by simp
qed

subsection \<open>The environment of the container\<close>

text \<open>
  How docker reads the vector: an assignment after \<^verbatim>\<open>-e\<close> sets the variable named before its
  first equals sign; later assignments win.
\<close>

definition assign :: "pystr \<Rightarrow> pystr \<times> pystr" where
  "assign a = (takeWhile (\<lambda>c. c \<noteq> 61) a, tl (dropWhile (\<lambda>c. c \<noteq> 61) a))"

fun assignments :: "pystr list \<Rightarrow> (pystr \<times> pystr) list" where
  "assignments (o1 # a # r) =
     (if o1 = py ''-e'' then assign a # assignments r else assignments (a # r))"
| "assignments _ = []"

lemma assign_key: "61 \<notin> set key \<Longrightarrow> assign (key @ 61 # value) = (key, value)"
  unfolding assign_def by (induction key) auto

lemma user_env_simps [simp]:
  "user_env U [] = []"
  "user_env U ((k, v) # env) =
     (if env_refused U k then [] else [py ''-e'', k @ [61] @ v]) @ user_env U env"
  by (simp_all add: user_env_def)

lemma assignments_user_env:
  "assignments (user_env U env) = filter (\<lambda>(k, _). \<not> env_refused U k) env"
  by (induction env) (auto simp: env_refused_def assign_key)

text \<open>
  C25: The request reaches the docker options only through the filtered environment
  variables: what a request adds are the \<^verbatim>\<open>-e\<close> assignments of its own variables whose name
  is non-empty, has no equals sign and is not reserved in any capitalisation; removing that
  segment leaves a vector that is the same for every request.
\<close>

theorem build_command_request_confined:
  assumes "build_command X sec rt request workdir container = Inr argv"
  shows "\<exists>pre post. argv = pre @ user_env (ucd_of X) (env_vars request) @ post \<and>
           (\<forall>request'. build_command X sec rt request' workdir container =
              Inr (pre @ user_env (ucd_of X) (env_vars request') @ post)) \<and>
           assignments (user_env (ucd_of X) (env_vars request)) =
             filter (\<lambda>(k, _). \<not> env_refused (ucd_of X) k) (env_vars request)"
proof -
  obtain host where h: "host_path_for (cwd_of X) (config_of X) workdir = Inr host"
    using assms by (auto simp: build_command_def ebind_Inr)
  let ?pre = "base_options (config_of X) rt sec container"
  let ?post = "[py ''-v'', host @ py '':/sandbox:ro'', rt_image rt]
    @ argv_for rt (py ''/sandbox/'' @ rt_source_filename rt)"
  show ?thesis
    using assms by (intro exI [of _ ?pre] exI [of _ ?post]) (simp add: build_command_def h assignments_user_env)
qed

text \<open>Reading the request-independent options: exactly the three fixed assignments.\<close>

lemma py_append_eq_lit: "py a @ s = py b \<longleftrightarrow> (\<exists>r. b = a @ r \<and> s = py r)"
  unfolding py_def by (auto simp: append_eq_map_conv inj_map_eq_map inj_def)

lemma assignments_Cons: "o1 \<noteq> py ''-e'' \<Longrightarrow> assignments (o1 # r) = assignments r"
  by (cases r) simp_all

lemma assignments_flags:
  "py ''-e'' \<notin> set fs \<Longrightarrow> assignments (fs @ r) = assignments r"
  by (induction fs) (auto simp: assignments_Cons)

lemma assignments_base_options:
  assumes "docker_path cfg \<noteq> py ''-e''" "container \<noteq> py ''-e''"
  shows "assignments (base_options cfg rt sec container @ r) =
     [(py ''SANDBOX'', py ''1''), (py ''HOME'', work_in rt), (py ''TMPDIR'', py ''/tmp'')] @ assignments r"
proof -
  let ?fixed = "[py ''-e'', py ''SANDBOX=1'', py ''-e'', py ''HOME='' @ work_in rt, py ''-e'', py ''TMPDIR=/tmp'']"
  obtain flags where flags: "base_options cfg rt sec container = flags @ ?fixed" "py ''-e'' \<notin> set flags"
  proof
    show "base_options cfg rt sec container =
        take (length (base_options cfg rt sec container) - 6) (base_options cfg rt sec container) @ ?fixed"
      by (simp add: base_options_def)
    show "py ''-e'' \<notin> set (take (length (base_options cfg rt sec container) - 6) (base_options cfg rt sec container))"
      using assms
      by (auto simp: base_options_def to_docker_flags_def work_in_def dest!: sym [of "py ''-e''"])
        (auto simp: py_append_eq_lit)
  qed
  have "assign (py ''SANDBOX=1'') = (py ''SANDBOX'', py ''1'')"
       "assign (py ''TMPDIR=/tmp'') = (py ''TMPDIR'', py ''/tmp'')"
       "assign (py ''HOME='' @ work_in rt) = (py ''HOME'', work_in rt)"
    by (simp_all add: assign_def py_def)
  with flags show ?thesis by (simp add: assignments_flags)
qed

text \<open>
  C26: A submission cannot override the variables the worker sets: whatever environment
  variables it carries, in any capitalisation and order, the assignment docker ends up with
  for \<^verbatim>\<open>SANDBOX\<close>, \<^verbatim>\<open>HOME\<close> and \<^verbatim>\<open>TMPDIR\<close> is the worker's.
\<close>

theorem reserved_env_kept:
  assumes "docker_path cfg \<noteq> py ''-e''" "container \<noteq> py ''-e''"
  shows "map_of (rev (assignments (base_options cfg rt sec container @ user_env U env))) (py ''SANDBOX'')
           = Some (py ''1'') \<and>
         map_of (rev (assignments (base_options cfg rt sec container @ user_env U env))) (py ''HOME'')
           = Some (work_in rt) \<and>
         map_of (rev (assignments (base_options cfg rt sec container @ user_env U env))) (py ''TMPDIR'')
           = Some (py ''/tmp'')"
proof -
  have "map_of (rev (filter (\<lambda>(k, _). \<not> env_refused U k) env)) name = None"
    if "env_refused U name" for name
    using that by (auto simp: map_of_eq_None_iff)
  moreover have "env_refused U (py ''SANDBOX'')" "env_refused U (py ''HOME'')" "env_refused U (py ''TMPDIR'')"
    by (simp_all add: env_refused_def FORBIDDEN_ENV_def upper_def upper_char_def py_def)
  ultimately show ?thesis
    using assms by (simp add: assignments_base_options assignments_user_env map_add_def)
qed

subsection \<open>Hardening\<close>

text \<open>
  How docker reads the options of \<^verbatim>\<open>docker run\<close>: \<^verbatim>\<open>--flag=value\<close> in one word, a switch
  without value, or a flag whose value is the next word.
\<close>

definition SWITCHES :: "pystr list" where
  "SWITCHES = map py
     [''--rm'', ''-i'', ''--interactive'', ''-t'', ''--tty'', ''-d'', ''--detach'', ''--read-only'', ''--init'',
      ''--privileged'', ''-P'', ''--publish-all'', ''--oom-kill-disable'', ''--no-healthcheck'']"

definition inline_value :: "pystr \<Rightarrow> bool" where
  "inline_value w \<longleftrightarrow> startswith w (py ''--'') \<and> 61 \<in> set w"

definition split_option :: "pystr \<Rightarrow> pystr \<times> pystr" where
  "split_option w = (takeWhile (\<lambda>c. c \<noteq> 61) w, tl (dropWhile (\<lambda>c. c \<noteq> 61) w))"

fun docker_options :: "pystr list \<Rightarrow> (pystr \<times> pystr) list" where
  "docker_options [] = []"
| "docker_options [w] = [if inline_value w then split_option w else (w, [])]"
| "docker_options (w # v # ws) =
     (if inline_value w then split_option w # docker_options (v # ws)
      else if w \<in> set SWITCHES then (w, []) # docker_options (v # ws)
      else (w, v) # docker_options ws)"

definition option_values :: "(pystr \<times> pystr) list \<Rightarrow> pystr \<Rightarrow> pystr list" where
  "option_values os f = map snd (filter (\<lambda>(g, _). g = f) os)"

text \<open>
  The hardened container: for every security-relevant flag, all the values docker sees for
  it, and no flag beyond these and the harmless ones. So nothing is missing, nothing is
  given twice with another value, and no option such as \<^verbatim>\<open>--privileged\<close>, \<^verbatim>\<open>--cap-add\<close>,
  \<^verbatim>\<open>--device\<close> or a second mount is there.
\<close>

definition required_values :: "resource_config \<Rightarrow> bool \<Rightarrow> pystr \<Rightarrow> pystr \<Rightarrow> (pystr \<times> pystr list) list" where
  "required_values rc compiles sec host =
     [(py ''--rm'', [[]]), (py ''--read-only'', [[]]), (py ''--init'', [[]]),
      (py ''--cap-drop'', [py ''ALL'']),
      (py ''--security-opt'', [py ''no-new-privileges'', py ''seccomp='' @ sec]),
      (py ''--user'', [py ''nobody'']),
      (py ''--network'', [py ''none'']),
      (py ''--memory'', [str_of_int (memory_mb rc) @ py ''m'']),
      (py ''--memory-swap'', [str_of_int (memory_mb rc) @ py ''m'']),
      (py ''--cpus'', [float_repr (cpu_quota rc)]),
      (py ''--pids-limit'', [str_of_int (pids_limit rc)]),
      (py ''--tmpfs'', (py ''/tmp:rw,noexec,nosuid,nodev,size='' @ str_of_int (disk_mb rc) @ py ''m'')
         # (if compiles then [py ''/build:rw,exec,nosuid,nodev,size='' @ str_of_int (disk_mb rc) @ py ''m,mode=1777'']
            else [])),
      (py ''--ulimit'', [py ''nofile=256:256'',
         py ''nproc='' @ str_of_int (pids_limit rc) @ py '':'' @ str_of_int (pids_limit rc),
         py ''fsize='' @ str_of_int (disk_mb rc * 1048576)]),
      (py ''-v'', [host @ py '':/sandbox:ro''])]"

definition HARMLESS_FLAGS :: "pystr list" where
  "HARMLESS_FLAGS = map py [''-i'', ''--name'', ''--hostname'', ''--label'', ''--stop-timeout'', ''--workdir'', ''-e'']"

definition hardened :: "resource_config \<Rightarrow> bool \<Rightarrow> pystr \<Rightarrow> pystr \<Rightarrow> (pystr \<times> pystr) list \<Rightarrow> bool" where
  "hardened rc compiles sec host os \<longleftrightarrow>
     list_all (\<lambda>(f, vs). option_values os f = vs) (required_values rc compiles sec host) \<and>
     list_all (\<lambda>(f, _). f \<in> set (map fst (required_values rc compiles sec host) @ HARMLESS_FLAGS)) os"

lemma inline_option:
  "startswith p (py ''--'') \<Longrightarrow> 61 \<notin> set p \<Longrightarrow> inline_value (p @ 61 # v) \<and> split_option (p @ 61 # v) = (p, v)"
proof
  assume p: "startswith p (py ''--'')" "61 \<notin> set p"
  have no: "c \<noteq> 61" if "c \<in> set p" for c using p(2) that by auto
  show "inline_value (p @ 61 # v)" using p(1) by (auto simp: inline_value_def startswith_iff)
  show "split_option (p @ 61 # v) = (p, v)"
    using no by (simp add: split_option_def takeWhile_append2 dropWhile_append2)
qed

lemma docker_options_word:
  assumes "startswith (py f) (py ''--'')" "61 \<notin> set (py f)"
  shows "docker_options ((py f @ 61 # v) # ws) = (py f, v) # docker_options ws"
  using inline_option [OF assms, of v] by (cases ws) simp_all

lemma docker_options_switch:
  "\<not> inline_value w \<Longrightarrow> w \<in> set SWITCHES \<Longrightarrow> docker_options (w # ws) = (w, []) # docker_options ws"
  by (cases ws) auto

lemma docker_options_pair:
  "\<not> inline_value w \<Longrightarrow> w \<notin> set SWITCHES \<Longrightarrow> docker_options (w # v # ws) = (w, v) # docker_options ws"
  by simp

lemma user_env_options:
  "docker_options (user_env U env @ ws) =
     map (\<lambda>(k, v). (py ''-e'', k @ [61] @ v)) (filter (\<lambda>(k, _). \<not> env_refused U k) env) @ docker_options ws"
proof -
  have "\<not> inline_value (py ''-e'')" "py ''-e'' \<notin> set SWITCHES"
    by (simp_all add: inline_value_def SWITCHES_def) (simp add: py_def)
  then show ?thesis
    by (induction env) (auto simp: user_env_def docker_options_pair)
qed

lemma docker_options_flags:
  assumes "\<not> network_enabled rc"
  shows "docker_options (to_docker_flags rc @ ws) =
     [(py ''--memory'', str_of_int (memory_mb rc) @ py ''m''), (py ''--memory-swap'', str_of_int (memory_mb rc) @ py ''m''),
      (py ''--cpus'', float_repr (cpu_quota rc)), (py ''--pids-limit'', str_of_int (pids_limit rc)),
      (py ''--tmpfs'', py ''/tmp:rw,noexec,nosuid,nodev,size='' @ str_of_int (disk_mb rc) @ py ''m''),
      (py ''--ulimit'', py ''nofile=256:256''),
      (py ''--ulimit'', py ''nproc='' @ str_of_int (pids_limit rc) @ py '':'' @ str_of_int (pids_limit rc)),
      (py ''--ulimit'', py ''fsize='' @ str_of_int (disk_mb rc * 1048576)), (py ''--network'', py ''none'')]
     @ docker_options ws"
proof -
  have words: "py ''--memory='' @ v = py ''--memory'' @ 61 # v" "py ''--memory-swap='' @ v = py ''--memory-swap'' @ 61 # v"
    "py ''--cpus='' @ v = py ''--cpus'' @ 61 # v" "py ''--pids-limit='' @ v = py ''--pids-limit'' @ 61 # v"
    "py ''--tmpfs=/tmp:rw,noexec,nosuid,nodev,size='' @ v = py ''--tmpfs'' @ 61 # py ''/tmp:rw,noexec,nosuid,nodev,size='' @ v"
    "py ''--network=none'' = py ''--network'' @ 61 # py ''none''" for v
    by (simp_all add: py_def)
  have flags: "startswith (py f) (py ''--'') \<and> 61 \<notin> set (py f)"
    if "f \<in> {''--memory'', ''--memory-swap'', ''--cpus'', ''--pids-limit'', ''--tmpfs'', ''--network''}" for f
    using that by (auto simp: startswith_def py_def)
  have ulimit: "\<not> inline_value (py ''--ulimit'')" "py ''--ulimit'' \<notin> set SWITCHES"
    by (simp_all add: inline_value_def SWITCHES_def) (simp add: py_def)
  show ?thesis
    using assms flags
    by (simp add: to_docker_flags_def words docker_options_word docker_options_pair ulimit mult.assoc del: docker_options.simps(2,3))
qed

lemma base_options_read:
  assumes "\<not> network_enabled (rt_limits rt)"
  shows "docker_options (drop 2 (base_options cfg rt sec container) @ ws) =
     [(py ''--rm'', []), (py ''-i'', []), (py ''--name'', container), (py ''--read-only'', []), (py ''--cap-drop'', py ''ALL''),
      (py ''--security-opt'', py ''no-new-privileges''), (py ''--security-opt'', py ''seccomp='' @ sec),
      (py ''--user'', py ''nobody''), (py ''--hostname'', py ''sandbox''), (py ''--label'', py ''sandbox-managed=1''),
      (py ''--stop-timeout'', py ''2''), (py ''--init'', [])]
     @ docker_options (to_docker_flags (rt_limits rt))
     @ (if rt_needs_exec_build rt
        then [(py ''--tmpfs'', py ''/build:rw,exec,nosuid,nodev,size=''
                @ str_of_int (disk_mb (rt_limits rt)) @ py ''m,mode=1777'')] else [])
     @ [(py ''--workdir'', work_in rt), (py ''-e'', py ''SANDBOX=1''), (py ''-e'', py ''HOME='' @ work_in rt),
        (py ''-e'', py ''TMPDIR=/tmp'')]
     @ docker_options ws"
proof -
  have plain: "\<not> inline_value (py f)"
    if "f \<in> {''--rm'', ''-i'', ''--name'', ''--read-only'', ''--cap-drop'', ''--security-opt'', ''--user'',
      ''--hostname'', ''--label'', ''--stop-timeout'', ''--init'', ''--tmpfs'', ''--workdir'', ''-e''}" for f
    using that by (auto simp: inline_value_def py_def)
  have switch: "py f \<in> set SWITCHES \<longleftrightarrow> f \<in> {''--rm'', ''-i'', ''--read-only'', ''--init''}"
    if "f \<in> {''--rm'', ''-i'', ''--name'', ''--read-only'', ''--cap-drop'', ''--security-opt'', ''--user'',
      ''--hostname'', ''--label'', ''--stop-timeout'', ''--init'', ''--tmpfs'', ''--workdir'', ''-e''}" for f
    using that by (auto simp: SWITCHES_def)
  note flags = docker_options_flags [OF assms] docker_options_flags [OF assms, of "[]", simplified]
  show ?thesis
    by (simp add: base_options_def flags plain switch docker_options_switch docker_options_pair
        del: docker_options.simps(2,3))
qed

lemma command_hardened:
  assumes "\<not> network_enabled (rt_limits rt)"
  shows "hardened (rt_limits rt) (rt_needs_exec_build rt) sec host
     (docker_options (drop 2 (base_options cfg rt sec container) @ user_env U env @ [py ''-v'', host @ py '':/sandbox:ro'']))"
proof -
  have mount: "\<not> inline_value (py ''-v'')" "py ''-v'' \<notin> set SWITCHES"
    by (simp_all add: inline_value_def SWITCHES_def) (simp add: py_def)
  have user: "option_values (map (\<lambda>(k, v). (py ''-e'', k @ 61 # v)) env') f = []" if "f \<noteq> py ''-e''" for f env'
    using that by (auto simp: option_values_def filter_empty_conv)
  have app: "option_values (os @ os') f = option_values os f @ option_values os' f" for os os' f
    by (simp add: option_values_def)
  have one: "option_values ((g, v) # os) f = (if g = f then [v] else []) @ option_values os f" "option_values [] f = []"
    for g v os f
    by (simp_all add: option_values_def)
  note flags = docker_options_flags [OF assms, of "[]", simplified]
  show ?thesis
    unfolding hardened_def base_options_read [OF assms] user_env_options flags
      docker_options_pair [OF mount] docker_options.simps(1)
    by (simp add: required_values_def HARMLESS_FLAGS_def app one user list_all_iff split: prod.splits)
qed

end
