(* ===== verification/Traces.thy ===== *)
theory Traces
  imports Environment
begin

text \<open>
  Reasoning about the events of an effectful operation: how the trace of a compound
  operation splits, and three judgements that compose along the program text. \<open>only P m\<close>
  (of Environment) bounds the events of \<open>m\<close>; \<open>ensures B m\<close> says that \<open>m\<close> cannot return
  without an event satisfying \<open>B\<close>; \<open>guarded B A m\<close> says that in every trace of \<open>m\<close>, also
  one that ends in an exception, no \<open>A\<close> event comes before the first \<open>B\<close> event.
\<close>

subsection \<open>Splitting a trace\<close>

lemma bnd_eq:
  "bnd m f h = (r, t) \<longleftrightarrow>
     (\<exists>e. m h = (Inl e, t) \<and> r = Inl e) \<or>
     (\<exists>a t1 t2. m h = (Inr a, t1) \<and> f a (h @ t1) = (r, t2) \<and> t = t1 @ t2)"
  by (auto simp: bnd_def split: prod.splits sum.splits)

lemma bnd_Inr_eq:
  "bnd m f h = (Inr b, t) \<longleftrightarrow>
     (\<exists>a t1 t2. m h = (Inr a, t1) \<and> f a (h @ t1) = (Inr b, t2) \<and> t = t1 @ t2)"
  by (simp add: bnd_eq)

lemma try_finally_eq:
  "try_finally m f h = (r, t) \<longleftrightarrow>
     (\<exists>r1 t1 r2 t2. m h = (r1, t1) \<and> f (h @ t1) = (r2, t2) \<and> t = t1 @ t2 \<and>
        r = (case r2 of Inl e \<Rightarrow> Inl e | Inr _ \<Rightarrow> r1))"
  by (auto simp: try_finally_def split: prod.splits sum.splits)

lemma catch_eq:
  "catch m H h = (r, t) \<longleftrightarrow>
     (\<exists>a. m h = (Inr a, t) \<and> r = Inr a) \<or>
     (\<exists>e. m h = (Inl e, t) \<and> H e = None \<and> r = Inl e) \<or>
     (\<exists>e m' t1 t2. m h = (Inl e, t1) \<and> H e = Some m' \<and> m' (h @ t1) = (r, t2) \<and> t = t1 @ t2)"
  by (auto simp: catch_def split: prod.splits sum.splits option.splits)

lemma attempt_eq: "attempt m h = (r, t) \<longleftrightarrow> (\<exists>r'. m h = (r', t) \<and> r = Inr r')"
  by (auto simp: attempt_def prod_eq_iff)

lemma ret_eq [simp]: "ret a h = (r, t) \<longleftrightarrow> r = Inr a \<and> t = []"
  by (auto simp: ret_def)

lemma raise_eq [simp]: "raise e h = (r, t) \<longleftrightarrow> r = Inl e \<and> t = []"
  by (auto simp: raise_def)

lemma lift_eq [simp]: "lift x h = (r, t) \<longleftrightarrow> r = x \<and> t = []"
  by (cases x) auto

lemma only_trace: "only P m \<Longrightarrow> m h = (r, t) \<Longrightarrow> ev \<in> set t \<Longrightarrow> P ev"
  using onlyD [of P m ev h] by simp

lemma call_eq: "call ask wrap c h = (r, t) \<longleftrightarrow> r = ask h c \<and> t = [(c, map_sum id wrap r)]"
  by (auto simp: call_def)

subsection \<open>Order of events\<close>

fun precedes :: "(event \<Rightarrow> bool) \<Rightarrow> (event \<Rightarrow> bool) \<Rightarrow> event list \<Rightarrow> bool" where
  "precedes B A [] = True"
| "precedes B A (ev # t) = (\<not> A ev \<and> (B ev \<or> precedes B A t))"

lemma precedes_append [simp]:
  "precedes B A (t1 @ t2) \<longleftrightarrow> precedes B A t1 \<and> (list_ex B t1 \<or> precedes B A t2)"
  by (induction t1) auto

lemma precedes_none: "list_all (\<lambda>ev. \<not> A ev) t \<Longrightarrow> precedes B A t"
  by (induction t) auto

lemma precedesD: "precedes B A (t1 @ ev # t2) \<Longrightarrow> A ev \<Longrightarrow> \<exists>b \<in> set t1. B b"
  by (induction t1) auto

definition ensures :: "(event \<Rightarrow> bool) \<Rightarrow> 'a io \<Rightarrow> bool" where
  "ensures B m \<longleftrightarrow> (\<forall>h a t. m h = (Inr a, t) \<longrightarrow> list_ex B t)"

definition guarded :: "(event \<Rightarrow> bool) \<Rightarrow> (event \<Rightarrow> bool) \<Rightarrow> 'a io \<Rightarrow> bool" where
  "guarded B A m \<longleftrightarrow> (\<forall>h. precedes B A (snd (m h)))"

lemma ensures_bnd1: "ensures B m \<Longrightarrow> ensures B (bnd m f)"
  by (force simp: ensures_def bnd_Inr_eq)

lemma ensures_bnd2: "(\<And>a. ensures B (f a)) \<Longrightarrow> ensures B (bnd m f)"
  by (force simp: ensures_def bnd_Inr_eq)

lemma ensures_raise [simp]: "ensures B (raise e)"
  by (simp add: ensures_def)

lemma guarded_only: "only (\<lambda>ev. \<not> A ev) m \<Longrightarrow> guarded B A m"
  by (simp add: guarded_def only_def precedes_none)

lemma guarded_bnd:
  assumes "guarded B A m" "ensures B m \<or> (\<forall>a. guarded B A (f a))"
  shows "guarded B A (bnd m f)"
  unfolding guarded_def
proof
  fix h
  obtain r t where m: "m h = (r, t)" by fastforce
  have t: "precedes B A t" using assms(1) m by (auto simp: guarded_def dest: spec [of _ h])
  show "precedes B A (snd (bnd m f h))"
  proof (cases r)
    case (Inr a)
    then have "list_ex B t \<or> precedes B A (snd (f a (h @ t)))"
      using assms(2) m by (auto simp: ensures_def guarded_def)
    with m t Inr show ?thesis by (auto simp: bnd_def split: prod.splits)
  qed (simp add: bnd_def m t)
qed

lemma guarded_bnd_est: "guarded B A m \<Longrightarrow> ensures B m \<Longrightarrow> guarded B A (bnd m f)"
  by (blast intro: guarded_bnd)

lemma guarded_bnd_seq: "guarded B A m \<Longrightarrow> (\<And>a. guarded B A (f a)) \<Longrightarrow> guarded B A (bnd m f)"
  by (blast intro: guarded_bnd)

lemma guarded_catch:
  assumes "guarded B A m" "\<And>e m'. H e = Some m' \<Longrightarrow> guarded B A m'"
  shows "guarded B A (catch m H)"
  unfolding guarded_def
proof
  fix h
  obtain r t where m: "m h = (r, t)" by fastforce
  have t: "precedes B A t" using assms(1) m by (auto simp: guarded_def dest: spec [of _ h])
  show "precedes B A (snd (catch m H h))"
    using assms(2) m t by (auto simp: catch_def guarded_def split: sum.splits option.splits prod.splits)
      (metis snd_conv)
qed

lemma guardedD: "guarded B A m \<Longrightarrow> m h = (r, t) \<Longrightarrow> precedes B A t"
  unfolding guarded_def by (metis snd_conv)

subsection \<open>Operations that cannot raise\<close>

definition succeeds :: "'a io \<Rightarrow> bool" where
  "succeeds m \<longleftrightarrow> (\<forall>h. is_ok (fst (m h)))"

lemma succeedsE:
  assumes "succeeds m"
  obtains a t where "m h = (Inr a, t)"
proof -
  have "is_ok (fst (m h))" using assms by (simp add: succeeds_def)
  then show ?thesis using that by (cases "m h"; cases "fst (m h)") auto
qed

lemma succeeds_ret [simp]: "succeeds (ret a)"
  by (simp add: succeeds_def ret_def)

lemma succeedsI: "(\<And>h. \<exists>a t. m h = (Inr a, t)) \<Longrightarrow> succeeds m"
  unfolding succeeds_def by (metis fst_conv is_ok_simps(2))

lemma succeeds_bnd:
  assumes "succeeds m" "\<And>a. succeeds (f a)"
  shows "succeeds (bnd m f)"
proof (rule succeedsI)
  fix h
  obtain a t where m: "m h = (Inr a, t)" using assms(1) by (rule succeedsE)
  obtain b t' where "f a (h @ t) = (Inr b, t')" using assms(2) by (rule succeedsE)
  with m show "\<exists>b t. bnd m f h = (Inr b, t)" by (simp add: bnd_def)
qed

lemma succeeds_attempt [simp]: "succeeds (attempt m)"
  by (simp add: succeeds_def attempt_def)

lemma succeeds_metric [simp]: "succeeds (metric name oper labels v)"
  by (simp add: succeeds_def metric_def)

lemma succeeds_call: "(\<And>h. is_ok (ask h c)) \<Longrightarrow> succeeds (call ask wrap c)"
  by (simp add: succeeds_def call_def)

lemma succeeds_catch:
  assumes "succeeds m"
  shows "succeeds (catch m H)"
proof (rule succeedsI)
  fix h
  obtain a t where "m h = (Inr a, t)" using assms by (rule succeedsE)
  then show "\<exists>b t. catch m H h = (Inr b, t)" by (simp add: catch_def)
qed

lemma succeeds_suppress: "succeeds m \<Longrightarrow> succeeds (suppress P m)"
  by (simp add: suppress_def succeeds_catch)

lemmas succeeds_rules = succeeds_bnd succeeds_catch succeeds_suppress succeeds_call

lemma try_finally_Inr:
  "try_finally m f h = (Inr a, t) \<longleftrightarrow>
     (\<exists>t1 t2. m h = (Inr a, t1) \<and> f (h @ t1) = (Inr (), t2) \<and> t = t1 @ t2)"
  by (auto simp: try_finally_def split: prod.splits sum.splits)

subsection \<open>Which exceptions an operation can raise\<close>

definition raises :: "(exn \<Rightarrow> bool) \<Rightarrow> 'a io \<Rightarrow> bool" where
  "raises Q m \<longleftrightarrow> (\<forall>h e t. m h = (Inl e, t) \<longrightarrow> Q e)"

lemma raises_trivial [simp]: "raises Q (ret a)" "raises Q (attempt m)" "raises Q (metric n oper l v)"
  by (auto simp: raises_def attempt_eq metric_def)

lemma raises_raise: "Q e \<Longrightarrow> raises Q (raise e)"
  by (simp add: raises_def)

lemma raises_succeeds: "succeeds m \<Longrightarrow> raises Q m"
  unfolding raises_def by (metis Inl_Inr_False prod.inject succeedsE)

lemma raises_bnd: "raises Q m \<Longrightarrow> (\<And>a. raises Q (f a)) \<Longrightarrow> raises Q (bnd m f)"
  unfolding raises_def bnd_eq by (metis Inl_inject)

lemma raises_catch: "raises Q m \<Longrightarrow> (\<And>e m'. H e = Some m' \<Longrightarrow> raises Q m') \<Longrightarrow> raises Q (catch m H)"
  unfolding raises_def catch_eq by (metis Inl_Inr_False Inl_inject)

lemma raises_suppress: "raises Q m \<Longrightarrow> raises Q (suppress P m)"
  unfolding suppress_def by (rule raises_catch) (auto split: if_splits)

lemma raises_finally: "raises Q m \<Longrightarrow> raises Q f \<Longrightarrow> raises Q (try_finally m f)"
  unfolding raises_def try_finally_def by (auto split: prod.splits sum.splits) blast

lemma raises_lift: "(\<And>e. x = Inl e \<Longrightarrow> Q e) \<Longrightarrow> raises Q (lift x)"
  by (cases x) (auto simp: raises_raise)

lemma raises_call: "(\<And>h e. ask h c = Inl e \<Longrightarrow> Q e) \<Longrightarrow> raises Q (call ask wrap c)"
  by (auto simp: raises_def call_eq)

lemma raises_for_each: "(\<And>x. raises Q (f x)) \<Longrightarrow> raises Q (for_each f xs)"
  by (induction xs) (auto intro!: raises_bnd)

lemma raises_weaken: "raises P m \<Longrightarrow> (\<And>e. P e \<Longrightarrow> Q e) \<Longrightarrow> raises Q m"
  by (auto simp: raises_def)

lemma raises_suppress_all: "raises P m \<Longrightarrow> succeeds (suppress P m)"
  unfolding succeeds_def raises_def suppress_def catch_def
  by (auto simp: is_ok_def ret_def split: prod.splits sum.splits)

end
