(* ===== verification/Sample_Env.thy ===== *)
theory Sample_Env
  imports Run_Command Output_Capture
begin

text \<open>
  A concrete environment and configuration, at which the theorems about arbitrary
  environments are instantiated: every service answers, every container exits at once.
\<close>

definition calm :: env where
  "calm =
     \<lparr>ask_unit = (\<lambda>_ _. Inr ()), ask_int = (\<lambda>_ _. Inr 0), ask_bool = (\<lambda>_ _. Inr False),
      ask_text = (\<lambda>_ _. Inr None),
      ask_str = (\<lambda>_ c. case c of Fs (Mkdtemp p d) \<Rightarrow> Inr (d @ [47] @ p @ [120]) | Fs (Realpath p) \<Rightarrow> Inr p
                          | Redis _ \<Rightarrow> Inr (py ''1-0'') | NowIso \<Rightarrow> Inr (py ''2025-01-01'') | _ \<Rightarrow> Inl OSError),
      ask_strs = (\<lambda>_ _. Inr []), ask_proc = (\<lambda>_ _. Inr (0, [], [])), ask_entries = (\<lambda>_ _. Inr []),
      ask_streams = (\<lambda>_ _. Inr []), ask_pending = (\<lambda>_ _. Inr []),
      ask_wait = (\<lambda>_ _. Inr (True, False)), ask_time = (\<lambda>_ _. Inr 0), ask_exit = (\<lambda>_ _. Inr (Some 0)),
      ask_chunks = (\<lambda>_ _. Inr [(Stdout, [104, 105])])\<rparr>"

definition sample_config :: worker_config where
  "sample_config =
     \<lparr>redis_url = [], minio_endpoint = [], minio_access_key = [], minio_secret_key = [],
      minio_bucket = py ''artifacts'', minio_secure = False, worker_concurrency = 2, worker_id = py ''w1'',
      docker_path = py ''docker'', local_workdir = py ''/work'', host_workdir = [],
      block_ms = 0, read_count = 1, claim_min_idle_ms = 60000, max_retries = 3,
      sigterm_grace_seconds = 2, metrics_port = 0, log_level = [], otlp_endpoint = []\<rparr>"

definition sample_ctx :: ctx where
  "sample_ctx =
     \<lparr>ucd_of = no_unicode, str_of = (\<lambda>_. []), environ_of = Map.empty, tempdir_of = py ''/tmp'',
      cwd_of = py ''/'', registry_of = (case build no_unicode Map.empty of Inr reg \<Rightarrow> reg),
      config_of = sample_config\<rparr>"

definition sample_request :: execution_request where
  "sample_request =
     \<lparr>language = py ''python'', code = py ''print(1)'', stdin = [], timeout_seconds = 10,
      env_vars = [], files = []\<rparr>"

lemma sample_sel [simp]:
  "config_of sample_ctx = sample_config" "ucd_of sample_ctx = no_unicode"
  "environ_of sample_ctx = Map.empty" "tempdir_of sample_ctx = py ''/tmp''" "cwd_of sample_ctx = py ''/''"
  "docker_path sample_config = py ''docker''" "local_workdir sample_config = py ''/work''"
  "host_workdir sample_config = []" "sigterm_grace_seconds sample_config = 2"
  "language sample_request = py ''python''" "code sample_request = py ''print(1)''"
  "stdin sample_request = []" "files sample_request = []" "env_vars sample_request = []"
  "timeout_seconds sample_request = 10"
  by (simp_all add: sample_ctx_def sample_config_def sample_request_def)

lemma sample_registry: "build no_unicode Map.empty = Inr (registry_of sample_ctx)"
  using build_registry_ok [OF _ SPECS_ok, of "[]" no_unicode Map.empty]
  by (auto simp: sample_ctx_def build_def registry_ok_def)

definition sample_rt :: runtime_config where
  "sample_rt =
     \<lparr>rt_id = py ''python'', rt_name = py ''Python'', rt_version = py ''3.12'',
      rt_image = py ''sandbox-runtime-python:latest'', rt_image_digest = [],
      rt_entrypoint = [py ''python3'', py ''-I'', py ''-B''], rt_source_filename = py ''main.py'',
      rt_needs_exec_build = False,
      rt_limits = \<lparr>memory_mb = 256, cpu_quota = 1 / 2, rc_timeout_seconds = 10, pids_limit = 64,
        disk_mb = 64, network_enabled = False, output_max_bytes = 1048576\<rparr>\<rparr>"

lemma sample_runtime [simp]: "get_runtime (registry_of sample_ctx) (py ''python'') = Inr sample_rt"
  by (simp add: sample_ctx_def build_def SPECS_def spec_def get_resource_config_def DEFAULTS_def
      runtime_of_spec_def image_for_def get_runtime_def py_append [symmetric] sample_rt_def)

lemma sample_rt_sel [simp]:
  "rt_id sample_rt = py ''python''" "rt_image_digest sample_rt = []"
  "rt_source_filename sample_rt = py ''main.py''" "rt_image sample_rt = py ''sandbox-runtime-python:latest''"
  "output_max_bytes (rt_limits sample_rt) = 1048576" "network_enabled (rt_limits sample_rt) = False"
  by (simp_all add: sample_rt_def)

lemma calm_sel [simp]:
  "ask_unit calm h c = Inr ()" "ask_int calm h c = Inr 0" "ask_bool calm h c = Inr False"
  "ask_text calm h c = Inr None" "ask_proc calm h c = Inr (0, [], [])" "ask_entries calm h c = Inr []"
  "ask_strs calm h c = Inr []" "ask_streams calm h c = Inr []" "ask_pending calm h c = Inr []"
  "ask_wait calm h c = Inr (True, False)" "ask_time calm h c = Inr 0" "ask_exit calm h c = Inr (Some 0)"
  "ask_chunks calm h c = Inr [(Stdout, [104, 105])]"
  "ask_str calm h (Fs (Mkdtemp p d)) = Inr (d @ [47] @ p @ [120])"
  "ask_str calm h (Fs (Realpath p)) = Inr p"
  "ask_str calm h (Redis rc) = Inr (py ''1-0'')" "ask_str calm h NowIso = Inr (py ''2025-01-01'')"
  by (simp_all add: calm_def)

subsection \<open>The command line of a submission with hostile variables\<close>

definition hostile_env :: "(pystr \<times> pystr) list" where
  "hostile_env = [(py ''home'', py ''/root''), (py ''A=B'', py ''1''), (py ''LANG'', py ''C'')]"

lemma hostile_refused:
  "env_refused no_unicode (py ''home'')" "env_refused no_unicode (py ''A=B'')"
  "\<not> env_refused no_unicode (py ''LANG'')"
  by (simp_all add: env_refused_def FORBIDDEN_ENV_def upper_def upper_char_def py_def)

theorem build_command_request_confined_witness:
  "\<exists>argv pre post. build_command sample_ctx [] sample_rt (sample_request\<lparr>env_vars := hostile_env\<rparr>)
       (py ''/work/j1-x'') (py ''sandbox-j1'') = Inr argv \<and>
     argv = pre @ [py ''-e'', py ''LANG=C''] @ post"
proof -
  have host: "host_path_for (py ''/'') sample_config (py ''/work/j1-x'') = Inr (py ''/work/j1-x'')"
    by (simp add: host_path_for_def)
  have user: "user_env no_unicode hostile_env = [py ''-e'', py ''LANG=C'']"
    by (simp add: hostile_env_def hostile_refused) (simp add: py_def)
  obtain argv where argv: "build_command sample_ctx [] sample_rt (sample_request\<lparr>env_vars := hostile_env\<rparr>)
      (py ''/work/j1-x'') (py ''sandbox-j1'') = Inr argv"
    by (simp add: build_command_def host)
  from build_command_request_confined [OF argv] argv user show ?thesis by auto
qed

theorem reserved_env_kept_witness:
  "map_of (rev (assignments (base_options sample_config sample_rt [] (py ''sandbox-j1'')
     @ user_env no_unicode hostile_env))) (py ''HOME'') = Some (py ''/tmp'')"
proof -
  have "docker_path sample_config \<noteq> py ''-e''" "py ''sandbox-j1'' \<noteq> py ''-e''" by simp_all
  from reserved_env_kept [OF this, of sample_rt "[]" no_unicode hostile_env] show ?thesis
    by (simp add: work_in_def sample_rt_def)
qed

end
