(* ===== verification/Executor.thy ===== *)
theory Executor
  imports Output_Capture Run_Command Traces Sample_Env
begin

text \<open>
  \<^verbatim>\<open>SandboxExecutor\<close> of \<^verbatim>\<open>worker/sandbox/executor.py\<close>: image verification, work directory,
  the run itself with its timeout ladder, the result, resource sampling and cleanup. The
  injectable seams (\<^verbatim>\<open>spawn\<close>, \<^verbatim>\<open>simple\<close>, the clock) are commands of the environment.

  The tasks of \<^verbatim>\<open>_run\<close> (standard input, the two pumps, the sampler, the wait) run
  concurrently and share only the capture and the sample; the model runs them one after the
  other, the environment choosing what each of them observes: which wait finishes first, the
  order in which the pipes deliver chunks, how often the sampler ticks.
\<close>

definition SIGKILL_EXIT :: int where "SIGKILL_EXIT = 137"
definition KILL_WAIT_SECONDS :: int where "KILL_WAIT_SECONDS = 5"

definition simple :: "env \<Rightarrow> pystr list \<Rightarrow> (int \<times> pybytes \<times> pybytes) io" where
  "simple E argv = get_proc E (Proc (Simple argv))"

abbreviation utf8 :: "pybytes \<Rightarrow> pystr" where
  "utf8 bs \<equiv> fst (decode Replace True bs)"

subsection \<open>Image verification and work directory\<close>

definition verify_image :: "env \<Rightarrow> ctx \<Rightarrow> runtime_config \<Rightarrow> unit io" where
  "verify_image E X rt =
     bnd (simple E [docker_path (config_of X), py ''image'', py ''inspect'', rt_image rt,
                    py ''--format'', py ''{{json .RepoDigests}}''])
       (\<lambda>(rc, out, err).
          if rc \<noteq> 0 then
            let msg = lower (ucd_of X) (utf8 err)
            in if contains msg (py ''cannot connect to the docker daemon'')
                  \<or> contains msg (py ''is the docker daemon running'')
               then raise (DockerUnavailableError (strip (ucd_of X) (utf8 err)))
               else raise (ImageNotFoundError (rt_image rt))
          else if rt_image_digest rt \<noteq> [] \<and> \<not> contains (utf8 out) (rt_image_digest rt)
          then raise (ImageIntegrityError (rt_image rt) (rt_image_digest rt) (strip (ucd_of X) (utf8 out)))
          else ret ())"

definition write_file :: "env \<Rightarrow> ctx \<Rightarrow> pystr \<Rightarrow> pystr \<Rightarrow> pystr \<Rightarrow> unit io" where
  "write_file E X workdir name content =
     bnd (get_str E (Fs (Realpath (path_join workdir name)))) (\<lambda>real.
     bnd (get_str E (Fs (Realpath workdir))) (\<lambda>base.
       if \<not> startswith real (base @ [47])
       then raise (SandboxError (py ''path escapes sandbox dir: '' @ repr (ucd_of X) name) (py ''path_escape''))
       else if \<not> encodable content
       then seq (do_unit E (Fs (WriteText real []))) (raise UnicodeEncodeError)
       else seq (do_unit E (Fs (WriteText real content)))
              (do_unit E (Fs (Chmod real 420)))))"

definition write_input :: "env \<Rightarrow> ctx \<Rightarrow> pystr \<Rightarrow> input_file \<Rightarrow> unit io" where
  "write_input E X workdir f =
     (case safe_basename (ucd_of X) (if_name f) of
        None \<Rightarrow> raise (SandboxError (py ''unsafe input filename: '' @ repr (ucd_of X) (if_name f)) (py ''unsafe_filename''))
      | Some safe \<Rightarrow> write_file E X workdir safe (if_content f))"

definition prepare_workdir ::
    "env \<Rightarrow> ctx \<Rightarrow> runtime_config \<Rightarrow> execution_request \<Rightarrow> pystr \<Rightarrow> pystr io" where
  "prepare_workdir E X rt request jid =
     seq (do_unit E (Fs (Makedirs (local_workdir (config_of X)))))
     (bnd (get_str E (Fs (Mkdtemp (jid @ py ''-'') (local_workdir (config_of X))))) (\<lambda>workdir.
      seq (do_unit E (Fs (Chmod workdir 493)))
      (seq (write_file E X workdir (rt_source_filename rt) (code request))
      (seq (for_each (write_input E X workdir) (files request))
      (ret workdir)))))"

subsection \<open>Waiting and the kill ladder\<close>

datatype outcome = Completed | TimedOut | Killed

definition terminate :: "env \<Rightarrow> ctx \<Rightarrow> pystr \<Rightarrow> unit io" where
  "terminate E X container =
     (let docker = docker_path (config_of X)
      in seq (simple E [docker, py ''kill'', py ''--signal=TERM'', container])
         (bnd (get_bool E (Proc (WaitProc (Some (sigterm_grace_seconds (config_of X)))))) (\<lambda>exited.
          if exited then ret ()
          else seq (simple E [docker, py ''kill'', py ''--signal=KILL'', container])
            (bnd (get_bool E (Proc (WaitProc (Some KILL_WAIT_SECONDS)))) (\<lambda>exited.
             if exited then ret ()
             else seq (simple E [docker, py ''rm'', py ''-f'', container])
                (seq (suppress (\<lambda>e. e = ProcessLookupError) (do_unit E (Proc KillProc)))
                (seq (get_bool E (Proc (WaitProc None))) (ret ()))))))))"

definition await_completion :: "env \<Rightarrow> ctx \<Rightarrow> pystr \<Rightarrow> int \<Rightarrow> bool \<Rightarrow> outcome io" where
  "await_completion E X container timeout has_cancel =
     bnd (get_wait E (Proc (WaitAny timeout has_cancel))) (\<lambda>(exited, cancelled).
       if exited then ret Completed
       else seq (terminate E X container)
              (ret (if has_cancel \<and> cancelled then Killed else TimedOut)))"

definition feed_stdin :: "env \<Rightarrow> pybytes \<Rightarrow> unit io" where
  "feed_stdin E data =
     suppress (\<lambda>e. e = BrokenPipeError \<or> e = ConnectionResetError \<or> e = RuntimeError)
       (seq (if data \<noteq> [] then do_unit E (Proc (WriteStdin data)) else ret ())
            (do_unit E (Proc CloseStdin)))"

subsection \<open>Resource sampling\<close>

record sample =
  peak_bytes :: int
  cpu_usec :: int

definition new_sample :: sample where
  "new_sample = \<lparr>peak_bytes = 0, cpu_usec = 0\<rparr>"

type_synonym cid_cache = "pystr \<rightharpoonup> pystr"

definition resolve_cid :: "env \<Rightarrow> ctx \<Rightarrow> pystr \<Rightarrow> cid_cache \<Rightarrow> (pystr \<times> cid_cache) io" where
  "resolve_cid E X container cache =
     (case cache container of
        Some cid \<Rightarrow> ret (cid, cache)
      | None \<Rightarrow>
          bnd (simple E [docker_path (config_of X), py ''inspect'', py ''-f'', py ''{{.Id}}'', container])
            (\<lambda>(rc, out, err).
               let cid = (if rc = 0 then strip (ucd_of X) (utf8 out) else [])
               in ret (cid, if cid \<noteq> [] then cache(container \<mapsto> cid) else cache)))"

text \<open>Reading a text file raises \<^verbatim>\<open>OSError\<close> or a \<^verbatim>\<open>ValueError\<close>; both mean no value.\<close>

definition read_int_file :: "env \<Rightarrow> ctx \<Rightarrow> pystr \<Rightarrow> int option io" where
  "read_int_file E X path =
     catch (bnd (get_str E (Fs (ReadText path))) (\<lambda>t. ret (int_of_str (ucd_of X) (strip (ucd_of X) t))))
       (\<lambda>e. if is_OSError e \<or> is_ValueError e then Some (ret None) else None)"

text \<open>Lines of a text file, as iterating a handle gives them (universal newlines).\<close>

fun file_lines :: "pystr \<Rightarrow> pystr \<Rightarrow> pystr list" where
  "file_lines acc [] = (if acc = [] then [] else [rev acc])"
| "file_lines acc (c # s) =
     (if c = 10 then rev (c # acc) # file_lines [] s else file_lines (c # acc) s)"

definition usage_of_lines :: "ucd \<Rightarrow> pystr list \<Rightarrow> int option" where
  "usage_of_lines U lines =
     (case find (\<lambda>l. startswith l (py ''usage_usec'')) lines of
        None \<Rightarrow> None
      | Some l \<Rightarrow> (case split_ws U l of _ # v # _ \<Rightarrow> int_of_str U v | _ \<Rightarrow> None))"

definition read_usage_usec :: "env \<Rightarrow> ctx \<Rightarrow> pystr \<Rightarrow> int option io" where
  "read_usage_usec E X path =
     catch (bnd (get_str E (Fs (ReadText path))) (\<lambda>t. ret (usage_of_lines (ucd_of X) (file_lines [] t))))
       (\<lambda>e. if is_OSError e \<or> is_ValueError e \<or> e = IndexError then Some (ret None) else None)"

fun first_some :: "('a \<Rightarrow> 'b option io) \<Rightarrow> 'a list \<Rightarrow> 'b option io" where
  "first_some f [] = ret None"
| "first_some f (x # xs) = bnd (f x) (\<lambda>r. case r of Some v \<Rightarrow> ret (Some v) | None \<Rightarrow> first_some f xs)"

definition memory_reader :: "env \<Rightarrow> ctx \<Rightarrow> pystr \<Rightarrow> cid_cache \<Rightarrow> (int \<times> cid_cache) io" where
  "memory_reader E X container cache =
     bnd (resolve_cid E X container cache) (\<lambda>(cid, cache).
       if cid = [] then ret (0, cache)
       else bnd (first_some (read_int_file E X)
               [py ''/sys/fs/cgroup/system.slice/docker-'' @ cid @ py ''.scope/memory.peak'',
                py ''/sys/fs/cgroup/docker/'' @ cid @ py ''/memory.peak'',
                py ''/sys/fs/cgroup/system.slice/docker-'' @ cid @ py ''.scope/memory.current'',
                py ''/sys/fs/cgroup/docker/'' @ cid @ py ''/memory.current'',
                py ''/sys/fs/cgroup/memory/docker/'' @ cid @ py ''/memory.max_usage_in_bytes''])
            (\<lambda>v. ret (case v of Some m \<Rightarrow> m | None \<Rightarrow> 0, cache)))"

definition cpu_reader :: "env \<Rightarrow> ctx \<Rightarrow> pystr \<Rightarrow> cid_cache \<Rightarrow> (int \<times> cid_cache) io" where
  "cpu_reader E X container cache =
     bnd (resolve_cid E X container cache) (\<lambda>(cid, cache).
       if cid = [] then ret (0, cache)
       else bnd (first_some (read_usage_usec E X)
               [py ''/sys/fs/cgroup/system.slice/docker-'' @ cid @ py ''.scope/cpu.stat'',
                py ''/sys/fs/cgroup/docker/'' @ cid @ py ''/cpu.stat''])
            (\<lambda>v. case v of
               Some usec \<Rightarrow> ret (usec, cache)
             | None \<Rightarrow>
                 bnd (read_int_file E X (py ''/sys/fs/cgroup/cpu,cpuacct/docker/'' @ cid @ py ''/cpuacct.usage''))
                   (\<lambda>nanos. ret (case nanos of Some n \<Rightarrow> n div 1000 | None \<Rightarrow> 0, cache))))"

record sampler =
  smp :: sample
  smp_cache :: cid_cache
  smp_observed :: bool

definition note_memory :: "int \<Rightarrow> sample \<Rightarrow> sample" where
  "note_memory mem s = (if mem > peak_bytes s then s\<lparr>peak_bytes := mem\<rparr> else s)"

definition note_cpu :: "int \<Rightarrow> sample \<Rightarrow> sample" where
  "note_cpu cpu s = (if cpu \<noteq> 0 then s\<lparr>cpu_usec := cpu\<rparr> else s)"

text \<open>
  The readings of one tick and of the final read. The sample is updated in place, so an
  exception keeps what was noted before it; the flag says that the sampler stopped there.
\<close>

definition sample_read :: "env \<Rightarrow> ctx \<Rightarrow> pystr \<Rightarrow> sampler \<Rightarrow> (sampler \<times> bool) io" where
  "sample_read E X container s =
     bnd (attempt (memory_reader E X container (smp_cache s))) (\<lambda>r. case r of
        Inl e \<Rightarrow> ret (s, True)
      | Inr (mem, cache) \<Rightarrow>
          let s1 = s\<lparr>smp := note_memory mem (smp s), smp_cache := cache\<rparr>
          in bnd (attempt (cpu_reader E X container cache)) (\<lambda>r. case r of
               Inl e \<Rightarrow> ret (s1, True)
             | Inr (cpu, cache) \<Rightarrow>
                 ret (s1\<lparr>smp := note_cpu cpu (smp s1), smp_cache := cache\<rparr>, False)))"

definition sample_observe :: "env \<Rightarrow> ctx \<Rightarrow> pystr \<Rightarrow> rat \<Rightarrow> sampler \<Rightarrow> (sampler \<times> bool) io" where
  "sample_observe E X container spawned_at s =
     (if smp_observed s then ret (s, False)
      else bnd (attempt (resolve_cid E X container (smp_cache s))) (\<lambda>r. case r of
             Inl e \<Rightarrow> ret (s, True)
           | Inr (cid, cache) \<Rightarrow>
               if cid = [] then ret (s\<lparr>smp_cache := cache\<rparr>, False)
               else bnd (attempt (get_time E Clock)) (\<lambda>r. case r of
                      Inl e \<Rightarrow> ret (s\<lparr>smp_cache := cache, smp_observed := True\<rparr>, True)
                    | Inr now \<Rightarrow>
                        seq (metric ''sandbox_container_startup_seconds'' Observe [] (now - spawned_at))
                          (ret (s\<lparr>smp_cache := cache, smp_observed := True\<rparr>, False)))))"

fun sample_loop :: "env \<Rightarrow> ctx \<Rightarrow> pystr \<Rightarrow> rat \<Rightarrow> nat \<Rightarrow> sampler \<Rightarrow> sampler io" where
  "sample_loop E X container spawned_at 0 s =
     bnd (sample_read E X container s) (\<lambda>(s, _). ret s)"
| "sample_loop E X container spawned_at (Suc n) s =
     bnd (sample_observe E X container spawned_at s) (\<lambda>(s, stop).
       if stop then ret s
       else bnd (sample_read E X container s) (\<lambda>(s, stop).
              if stop then ret s else sample_loop E X container spawned_at n s))"

subsection \<open>The run\<close>

definition build_result ::
    "pystr \<Rightarrow> int option \<Rightarrow> outcome \<Rightarrow> capture \<Rightarrow> sample \<Rightarrow> int \<Rightarrow> execution_result" where
  "build_result jid returncode oc cap s wall_ms =
     (let (st, oom, exit) =
        (case oc of
           Completed \<Rightarrow>
             if returncode = Some SIGKILL_EXIT then (FAILED, True, returncode)
             else (COMPLETED, False, returncode)
         | TimedOut \<Rightarrow> (TIMEOUT, False, None)
         | Killed \<Rightarrow> (KILLED, False, None))
      in \<lparr>job_id = jid, status = st, stdout = capture_stdout cap, stderr = capture_stderr cap,
          exit_code = exit, wall_time_ms = wall_ms, cpu_time_ms = cpu_usec s div 1000,
          memory_bytes = peak_bytes s, oom_killed = oom, timed_out = (oc = TimedOut),
          truncated = truncated_flag cap, out_files = []\<rparr>)"

type_synonym on_output = "(stream_kind \<Rightarrow> pystr \<Rightarrow> unit io) option"

text \<open>\<^verbatim>\<open>_build_command\<close> maps the work directory to its host path, then writes the profile.\<close>

definition run_argv ::
    "env \<Rightarrow> ctx \<Rightarrow> runtime_config \<Rightarrow> execution_request \<Rightarrow> pystr \<Rightarrow> pystr \<Rightarrow> pystr list io" where
  "run_argv E X rt request workdir container =
     seq (lift (host_path_for (cwd_of X) (config_of X) workdir))
     (bnd (seccomp_profile_path E (environ_of X) (tempdir_of X) rt) (\<lambda>sec.
      lift (build_command X sec rt request workdir container)))"

text \<open>
  The part of \<^verbatim>\<open>_run\<close> after the container process has been spawned. The executor's cache of
  container ids is keyed by the container name, and \<^verbatim>\<open>_cleanup\<close> drops the entry of the job;
  so a job starts without one and the cache is part of its sampler. The concurrent tasks are
  placed at the points where the code joins them. When waiting for the program or the output
  callback raises, the code joins none of them: the sampler, the other pump and the stdin
  task keep running, and what they still do after that is outside this definition.
\<close>

definition attend ::
    "env \<Rightarrow> ctx \<Rightarrow> runtime_config \<Rightarrow> execution_request \<Rightarrow> pystr \<Rightarrow> pystr \<Rightarrow> on_output \<Rightarrow> bool
       \<Rightarrow> rat \<Rightarrow> execution_result io" where
  "attend E X rt request jid container on_output has_cancel start =
     (let timeout = clamp_timeout (rt_limits rt) (Some (timeout_seconds request))
      in if \<not> encodable (stdin request) then raise UnicodeEncodeError
         else
         bnd (attempt (feed_stdin E (encode (stdin request)))) (\<lambda>_.
         bnd (await_completion E X container timeout has_cancel) (\<lambda>oc.
         bnd (get_chunks E (Proc ReadStreams)) (\<lambda>chunks.
         bnd (run_pumps on_output chunks (output_max_bytes (rt_limits rt))) (\<lambda>cap.
         bnd (get_int E (Proc SampleTicks)) (\<lambda>ticks.
         bnd (sample_loop E X container start (nat ticks)
                \<lparr>smp = new_sample, smp_cache = Map.empty, smp_observed = False\<rparr>) (\<lambda>s.
         bnd (get_time E Clock) (\<lambda>now.
         bnd (get_exit E (Proc ReturnCode)) (\<lambda>returncode.
         ret (build_result jid returncode oc cap (smp s) (trunc_rat ((now - start) * 1000))))))))))))"

definition run ::
    "env \<Rightarrow> ctx \<Rightarrow> runtime_config \<Rightarrow> execution_request \<Rightarrow> pystr \<Rightarrow> pystr \<Rightarrow> pystr \<Rightarrow> on_output \<Rightarrow> bool
       \<Rightarrow> execution_result io" where
  "run E X rt request jid workdir container on_output has_cancel =
     bnd (get_time E Clock) (\<lambda>start.
     bnd (run_argv E X rt request workdir container) (\<lambda>argv.
     seq (do_unit E (Proc (Spawn argv)))
     (attend E X rt request jid container on_output has_cancel start)))"

definition cleanup :: "env \<Rightarrow> ctx \<Rightarrow> pystr \<Rightarrow> pystr \<Rightarrow> unit io" where
  "cleanup E X container workdir =
     seq (suppress is_Exception
            (seq (simple E [docker_path (config_of X), py ''rm'', py ''-f'', container]) (ret ())))
         (seq (attempt (do_unit E (Fs (Rmtree workdir)))) (ret ()))"

definition execute ::
    "env \<Rightarrow> ctx \<Rightarrow> execution_request \<Rightarrow> pystr \<Rightarrow> on_output \<Rightarrow> bool \<Rightarrow> execution_result io" where
  "execute E X request jid on_output has_cancel =
     bnd (lift (get_runtime (registry_of X) (language request))) (\<lambda>rt.
     seq (verify_image E X rt)
     (bnd (prepare_workdir E X rt request jid) (\<lambda>workdir.
      let container = py ''sandbox-'' @ jid
      in try_finally (run E X rt request jid workdir container on_output has_cancel)
           (cleanup E X container workdir))))"

subsection \<open>Events of the parts\<close>

definition is_redis :: "event \<Rightarrow> bool" where
  "is_redis ev \<longleftrightarrow> (\<exists>c. fst ev = Redis c)"

definition redis_only :: "on_output \<Rightarrow> bool" where
  "redis_only cb \<longleftrightarrow> (\<forall>f k tx. cb = Some f \<longrightarrow> only is_redis (f k tx))"

text \<open>A local event that neither starts a process nor touches the files of a job.\<close>

fun inert_cmd :: "cmd \<Rightarrow> bool" where
  "inert_cmd (Proc (Spawn _)) = False"
| "inert_cmd (Proc _) = True"
| "inert_cmd (Fs (WriteText _ _)) = False"
| "inert_cmd (Fs (Rmtree _)) = False"
| "inert_cmd (Fs (Mkdtemp _ _)) = False"
| "inert_cmd (Fs _) = True"
| "inert_cmd Clock = True"
| "inert_cmd (Metric n oper l _) \<longleftrightarrow> n = py ''sandbox_container_startup_seconds'' \<and> oper = Observe \<and> l = []"
| "inert_cmd _ = False"

definition inert :: "event \<Rightarrow> bool" where
  "inert ev \<longleftrightarrow> inert_cmd (fst ev)"

lemma inert_pair [simp]: "inert (c, r) = inert_cmd c"
  by (simp add: inert_def)

lemma inert_cmd_rmtree [simp]: "\<not> inert_cmd (Fs (Rmtree w))"
  by simp

lemma only_weaken: "only P m \<Longrightarrow> (\<And>ev. P ev \<Longrightarrow> Q ev) \<Longrightarrow> only Q m"
  by (simp add: only_def list_all_iff)

lemma redis_only_weaken:
  assumes "redis_only cb" "\<And>ev. is_redis ev \<Longrightarrow> P ev" "cb = Some f"
  shows "only P (f k tx)"
  by (rule only_weaken [of is_redis]) (use assms in \<open>auto simp: redis_only_def\<close>)

lemma only_pump_iter [intro]:
  assumes "\<And>f k tx. cb = Some f \<Longrightarrow> only P (f k tx)"
  shows "only P (pump_iter cb k chunk p)"
  unfolding pump_iter_def using assms
  by (auto simp: Let_def intro!: only_bnd only_catch split: option.splits sum.splits prod.splits)

lemma only_pump_schedule [intro]:
  assumes "\<And>f k tx. cb = Some f \<Longrightarrow> only P (f k tx)"
  shows "only P (pump_schedule cb s p)"
  by (induction s arbitrary: p) (auto intro!: only_bnd only_pump_iter assms)

lemma only_run_pumps [intro]:
  assumes "\<And>f k tx. cb = Some f \<Longrightarrow> only P (f k tx)"
  shows "only P (run_pumps cb s n)"
  unfolding run_pumps_def using assms by (auto intro!: only_bnd split: option.splits)

lemma only_simple [intro]: "(\<And>r. P (Proc (Simple argv), r)) \<Longrightarrow> only P (simple E argv)"
  unfolding simple_def by (rule only_calls)

lemmas only_rules = only_bnd only_catch only_suppress only_attempt only_calls only_simple only_metric

lemma only_terminate_inert: "only inert (terminate E X container)"
  unfolding terminate_def Let_def by (auto intro!: only_rules)

lemma only_await_inert: "only inert (await_completion E X container timeout has_cancel)"
  unfolding await_completion_def by (auto intro!: only_rules only_terminate_inert)

lemma only_feed_inert: "only inert (feed_stdin E data)"
  unfolding feed_stdin_def by (auto intro!: only_rules)

lemma only_resolve_inert: "only inert (resolve_cid E X container cache)"
  unfolding resolve_cid_def Let_def by (auto intro!: only_rules split: option.splits)

lemma only_first_some: "(\<And>x. only P (f x)) \<Longrightarrow> only P (first_some f xs)"
  by (induction xs) (auto intro!: only_rules split: option.splits)

lemma only_read_inert:
  "only inert (read_int_file E X path)" "only inert (read_usage_usec E X path)"
  unfolding read_int_file_def read_usage_usec_def
  by (auto intro!: only_rules split: if_splits)

lemma only_reader_inert:
  "only inert (memory_reader E X container cache)" "only inert (cpu_reader E X container cache)"
  unfolding memory_reader_def cpu_reader_def
  by (auto intro!: only_rules only_first_some only_resolve_inert only_read_inert split: option.splits)

lemma only_sample_inert:
  "only inert (sample_read E X container s)" "only inert (sample_observe E X container t0 s)"
  unfolding sample_read_def sample_observe_def Let_def
  by (auto intro!: only_rules only_reader_inert only_resolve_inert split: sum.splits)

lemma only_sample_loop_inert: "only inert (sample_loop E X container t0 n s)"
  by (induction n arbitrary: s) (auto intro!: only_rules only_sample_inert)

lemma only_attend:
  assumes "\<And>ev. inert ev \<Longrightarrow> P ev" "\<And>f k tx. cb = Some f \<Longrightarrow> only P (f k tx)"
  shows "only P (attend E X rt request jid container cb has_cancel start)"
proof -
  note weaken = only_weaken [OF _ assms(1)]
  have "only P (run_pumps cb s n)" for s n
    by (rule only_run_pumps) (rule assms(2))
  then show ?thesis
    unfolding attend_def Let_def
    by (auto intro!: only_rules weaken [OF only_feed_inert] weaken [OF only_await_inert]
        weaken [OF only_sample_loop_inert] assms(1))
qed

lemma only_verify_inert: "only inert (verify_image E X rt)"
  unfolding verify_image_def Let_def by (auto intro!: only_rules)

lemma only_run_argv_inert: "only inert (run_argv E X rt request workdir container)"
proof -
  have "only inert (seccomp_profile_path E (environ_of X) (tempdir_of X) rt)"
    by (auto simp: only_def seccomp_profile_path_def profile_path_def Let_def call_defs call_def
        bnd_def ret_def split: prod.splits sum.splits)
  then show ?thesis unfolding run_argv_def by (auto intro!: only_rules)
qed

text \<open>The commands of a run that stay on the worker's host.\<close>

fun local_cmd :: "cmd \<Rightarrow> bool" where
  "local_cmd (Proc _) = True"
| "local_cmd (Fs _) = True"
| "local_cmd Clock = True"
| "local_cmd (Metric n oper l _) \<longleftrightarrow> n = py ''sandbox_container_startup_seconds'' \<and> oper = Observe \<and> l = []"
| "local_cmd _ = False"

lemma inert_local: "inert_cmd c \<Longrightarrow> local_cmd c"
  by (cases c) auto

lemma only_execute:
  assumes loc: "\<And>c r. local_cmd c \<Longrightarrow> P (c, r)" and cb: "\<And>f k tx. cb = Some f \<Longrightarrow> only P (f k tx)"
  shows "only P (execute E X request jid cb has_cancel)"
proof -
  have inert: "P ev" if "inert ev" for ev
    using that loc [of "fst ev" "snd ev"] by (cases ev) (simp add: inert_local)
  note weaken = only_weaken [OF _ inert]
  have "only P (write_file E X w n content)" for w n content
    unfolding write_file_def by (auto intro!: only_rules loc)
  then have "only P (prepare_workdir E X rt request jid)" for rt
    unfolding prepare_workdir_def write_input_def
    by (auto intro!: only_rules only_for_each loc split: option.splits)
  moreover have "only P (attend E X rt request jid c cb has_cancel start)" for rt c start
    by (rule only_attend) (rule inert, assumption, rule cb)
  then have "only P (run E X rt request jid w c cb has_cancel)" for rt w c
    unfolding run_def by (auto intro!: only_rules weaken [OF only_run_argv_inert] loc)
  moreover have "only P (cleanup E X c w)" for c w
    unfolding cleanup_def by (auto intro!: only_rules loc)
  ultimately show ?thesis
    unfolding execute_def Let_def
    by (auto intro!: only_rules only_finally weaken [OF only_verify_inert])
qed

subsection \<open>The shape of a run\<close>

lemma execute_cases:
  assumes "execute E X request jid cb has_cancel h = (r, t)"
  obtains (unknown) e where "get_runtime (registry_of X) (language request) = Inl e" "r = Inl e" "t = []"
  | (unverified) rt e where "get_runtime (registry_of X) (language request) = Inr rt"
      "verify_image E X rt h = (Inl e, t)" "r = Inl e"
  | (unprepared) rt tv tp e where "get_runtime (registry_of X) (language request) = Inr rt"
      "verify_image E X rt h = (Inr (), tv)"
      "prepare_workdir E X rt request jid (h @ tv) = (Inl e, tp)" "r = Inl e" "t = tv @ tp"
  | (ran) rt tv tp w r1 tr r2 tc where "get_runtime (registry_of X) (language request) = Inr rt"
      "verify_image E X rt h = (Inr (), tv)"
      "prepare_workdir E X rt request jid (h @ tv) = (Inr w, tp)"
      "run E X rt request jid w (py ''sandbox-'' @ jid) cb has_cancel (h @ tv @ tp) = (r1, tr)"
      "cleanup E X (py ''sandbox-'' @ jid) w (h @ tv @ tp @ tr) = (r2, tc)"
      "r = (case r2 of Inl e \<Rightarrow> Inl e | Inr _ \<Rightarrow> r1)" "t = tv @ tp @ tr @ tc"
  using assms
  by (cases "get_runtime (registry_of X) (language request)")
    (auto simp: execute_def bnd_eq Let_def try_finally_eq)

abbreviation removes_container :: "ctx \<Rightarrow> pystr \<Rightarrow> exn + reply \<Rightarrow> event" where
  "removes_container X container a \<equiv>
     (Proc (Simple [docker_path (config_of X), py ''rm'', py ''-f'', container]), a)"

lemma cleanup_trace:
  assumes "cleanup E X container w h = (r, t)"
  shows "(\<exists>a b. t = [removes_container X container a, (Fs (Rmtree w), b)] \<and> r = Inr ()) \<or>
         (t = [removes_container X container (Inl CancelledError)] \<and> r = Inl CancelledError)"
  using assms
  by (auto simp: cleanup_def suppress_def bnd_eq catch_eq attempt_eq simple_def call_defs call_eq
      is_Exception_def split: if_splits)

abbreviation makes_workdir :: "ctx \<Rightarrow> pystr \<Rightarrow> pystr \<Rightarrow> event" where
  "makes_workdir X jid w \<equiv> (Fs (Mkdtemp (jid @ py ''-'') (local_workdir (config_of X))), Inr (RStr w))"

lemma prepare_makes:
  "prepare_workdir E X rt request jid h = (Inr w, t) \<Longrightarrow> makes_workdir X jid w \<in> set t"
  by (auto simp: prepare_workdir_def bnd_Inr_eq call_defs call_eq)

lemma only_write_file_no_spawn: "only (\<lambda>ev. fst ev \<noteq> Proc (Spawn argv)) (write_file E X w n content)"
  unfolding write_file_def by (auto intro!: only_rules)

lemma only_prepare_no_spawn:
  "only (\<lambda>ev. fst ev \<noteq> Proc (Spawn argv)) (prepare_workdir E X rt request jid)"
  unfolding prepare_workdir_def write_input_def
  by (auto intro!: only_rules only_for_each only_write_file_no_spawn split: option.splits)

lemma prepare_no_spawn:
  "prepare_workdir E X rt request jid h = (r, t) \<Longrightarrow> (Proc (Spawn argv), a) \<notin> set t"
  using only_trace [OF only_prepare_no_spawn [of argv], of E X rt request jid h r t "(Proc (Spawn argv), a)"]
  by auto

text \<open>
  C4: Once the container process has been started, cleanup is the last thing that happens,
  whatever the docker daemon, the clock, the output callback or the program itself do and
  whether the run returns or raises: the run's last events are the forced removal of its
  container and the deletion of the work directory that was created for it. Only a
  cancellation of the task during the removal itself skips the deletion.
\<close>

theorem execute_cleans_up:
  assumes "execute E X request jid cb has_cancel h = (r, t)"
    and "(Proc (Spawn argv), a) \<in> set t"
  shows "\<exists>t0 w. (Proc (Spawn argv), a) \<in> set t0 \<and> makes_workdir X jid w \<in> set t0 \<and>
           ((\<exists>b c. t = t0 @ [removes_container X (py ''sandbox-'' @ jid) b, (Fs (Rmtree w), c)]) \<or>
            t = t0 @ [removes_container X (py ''sandbox-'' @ jid) (Inl CancelledError)])"
  using assms(1)
proof (cases rule: execute_cases)
  case (unverified rt e)
  then show ?thesis using assms(2) only_trace [OF only_verify_inert] by fastforce
next
  case (unprepared rt tv tp e)
  then show ?thesis using assms(2) only_trace [OF only_verify_inert] prepare_no_spawn by fastforce
next
  case (ran rt tv tp w r1 tr r2 tc)
  have "(Proc (Spawn argv), a) \<notin> set tc"
    using cleanup_trace [OF ran(5)] by auto
  then have "(Proc (Spawn argv), a) \<in> set (tv @ tp @ tr)"
    using assms(2) ran(7) by auto
  then show ?thesis
    using cleanup_trace [OF ran(5)] prepare_makes [OF ran(3)] ran(7)
    by (intro exI [of _ "tv @ tp @ tr"] exI [of _ w]) auto
qed (use assms(2) in simp)

subsection \<open>Files\<close>

text \<open>Every write of an operation happens below the resolved work directory of the same trace.\<close>

definition written_below :: "pystr \<Rightarrow> pystr \<Rightarrow> event list \<Rightarrow> bool" where
  "written_below w p t \<longleftrightarrow> (\<exists>base. (Fs (Realpath w), Inr (RStr base)) \<in> set t \<and> startswith p (base @ [47]))"

definition writes_below :: "pystr \<Rightarrow> 'a io \<Rightarrow> bool" where
  "writes_below w m \<longleftrightarrow>
     (\<forall>h r t p d a. m h = (r, t) \<longrightarrow> (Fs (WriteText p d), a) \<in> set t \<longrightarrow> written_below w p t)"

lemma written_below_append [simp]: "written_below w p (t @ t') \<longleftrightarrow> written_below w p t \<or> written_below w p t'"
  by (auto simp: written_below_def)

lemma writes_below_bnd:
  assumes "writes_below w m" "\<And>a. writes_below w (f a)"
  shows "writes_below w (bnd m f)"
  unfolding writes_below_def
proof (intro allI impI)
  fix h r t p d a
  assume "bnd m f h = (r, t)" "(Fs (WriteText p d), a) \<in> set t"
  then show "written_below w p t"
    using assms unfolding writes_below_def bnd_eq by (metis Un_iff set_append written_below_append)
qed

lemma writes_below_trivial [simp]: "writes_below w (ret a)" "writes_below w (raise e)"
  by (simp_all add: writes_below_def)

lemma writes_below_file: "writes_below w (write_file E X w n content)"
  by (auto simp: writes_below_def write_file_def written_below_def bnd_eq call_defs call_eq split: if_splits)

lemma writes_below_inputs: "writes_below w (for_each (write_input E X w) fs)"
  by (induction fs)
    (auto simp: write_input_def split: option.splits intro!: writes_below_bnd writes_below_file)

lemma prepare_below:
  assumes "prepare_workdir E X rt request jid h = (r, t)" "(Fs (WriteText p d), a) \<in> set t"
  shows "\<exists>w. makes_workdir X jid w \<in> set t \<and> written_below w p t"
proof -
  define body where "body w = seq (write_file E X w (rt_source_filename rt) (code request))
      (seq (for_each (write_input E X w) (files request)) (ret w))" for w
  have body: "writes_below w (body w)" for w
    unfolding body_def by (intro writes_below_bnd writes_below_file writes_below_inputs) simp
  from assms obtain w h' tw where "makes_workdir X jid w \<in> set t" "set tw \<subseteq> set t"
      "body w h' = (r, tw)" "(Fs (WriteText p d), a) \<in> set tw"
    unfolding prepare_workdir_def body_def [symmetric]
    by (auto simp: bnd_eq call_defs call_eq) blast
  with body [of w] have "makes_workdir X jid w \<in> set t" "written_below w p t"
    unfolding writes_below_def by (auto simp: written_below_def) blast
  then show ?thesis by blast
qed

lemma run_no_write:
  assumes "redis_only cb" "run E X rt request jid w c cb has_cancel h = (r, t)"
  shows "(Fs (WriteText p d), a) \<notin> set t"
proof -
  have "inert ev \<Longrightarrow> fst ev \<noteq> Fs (WriteText p d)" "is_redis ev \<Longrightarrow> fst ev \<noteq> Fs (WriteText p d)" for ev
    by (auto simp: inert_def is_redis_def)
  then have "only (\<lambda>ev. fst ev \<noteq> Fs (WriteText p d)) (run E X rt request jid w c cb has_cancel)"
    unfolding run_def
    by (auto intro!: only_rules only_attend redis_only_weaken [OF assms(1)]
        intro: only_weaken [OF only_run_argv_inert])
  from only_trace [OF this assms(2), of "(Fs (WriteText p d), a)"] show ?thesis by auto
qed

text \<open>
  C8: Every file the executor writes for a job, under whatever file names the submission
  carries and whatever symbolic links exist, lies below the resolved path of the work
  directory that was created for this very job: the path it opens starts with that
  directory and a slash.
\<close>

theorem execute_writes_confined:
  assumes "execute E X request jid cb has_cancel h = (r, t)" "redis_only cb"
    and "(Fs (WriteText p content), a) \<in> set t"
  shows "\<exists>w base. makes_workdir X jid w \<in> set t \<and> (Fs (Realpath w), Inr (RStr base)) \<in> set t \<and>
           startswith p (base @ [47])"
proof -
  have "\<exists>w. makes_workdir X jid w \<in> set t \<and> written_below w p t"
    using assms(1)
  proof (cases rule: execute_cases)
    case (unverified rt e)
    then show ?thesis using assms(3) only_trace [OF only_verify_inert] by fastforce
  next
    case (unprepared rt tv tp e)
    then have "(Fs (WriteText p content), a) \<in> set tp"
      using assms(3) only_trace [OF only_verify_inert unprepared(2)] by fastforce
    from prepare_below [OF unprepared(3) this] unprepared(5) show ?thesis by auto
  next
    case (ran rt tv tp w r1 tr r2 tc)
    then have "(Fs (WriteText p content), a) \<in> set tp"
      using assms(3) only_trace [OF only_verify_inert ran(2)] run_no_write [OF assms(2) ran(4)]
        cleanup_trace [OF ran(5)] by fastforce
    from prepare_below [OF ran(3) this] ran(7) show ?thesis by auto
  qed (use assms(3) in simp)
  then show ?thesis by (auto simp: written_below_def)
qed

subsection \<open>The container that is started\<close>

abbreviation profile_written :: "pystr \<Rightarrow> runtime_config \<Rightarrow> event" where
  "profile_written path rt \<equiv>
     (Fs (WriteJson path (dumps (profile_json (build_profile (rt_id rt) (network_enabled (rt_limits rt)))))),
      Inr RUnit)"

lemma profile_path_written:
  assumes "seccomp_profile_path E environ tmp rt h = (Inr path, t)"
  shows "profile_written path rt \<in> set (h @ t)"
  using assms
  by (auto simp: seccomp_profile_path_def profile_path_def Let_def bnd_eq call_defs call_eq
      split: prod.splits if_splits)

lemma run_argv_built:
  assumes "run_argv E X rt request w container h = (Inr argv, t)"
  shows "\<exists>sec. build_command X sec rt request w container = Inr argv \<and> profile_written sec rt \<in> set (h @ t)"
  using assms by (auto simp: run_argv_def bnd_Inr_eq dest!: profile_path_written)

lemma attend_no_spawn:
  assumes "redis_only cb" "attend E X rt request jid c cb has_cancel start h = (r, t)"
  shows "(Proc (Spawn argv), a) \<notin> set t"
proof -
  have "only (\<lambda>ev. fst ev \<noteq> Proc (Spawn argv)) (attend E X rt request jid c cb has_cancel start)"
  proof (rule only_attend)
    show "only (\<lambda>ev. fst ev \<noteq> Proc (Spawn argv)) (f k tx)" if "cb = Some f" for f k tx
      using that by (rule redis_only_weaken [OF assms(1), rotated]) (auto simp: is_redis_def)
  qed (auto simp: inert_def)
  from only_trace [OF this assms(2), of "(Proc (Spawn argv), a)"] show ?thesis by auto
qed

lemma run_spawn:
  assumes "redis_only cb" "run E X rt request jid w container cb has_cancel h = (r, t)"
    and "(Proc (Spawn argv), a) \<in> set t"
  shows "\<exists>tb te sec. t = tb @ (Proc (Spawn argv), a) # te \<and> (Proc (Spawn argv), a) \<notin> set (tb @ te) \<and>
     build_command X sec rt request w container = Inr argv \<and> profile_written sec rt \<in> set (h @ tb)"
proof -
  let ?ev = "(Proc (Spawn argv), a)"
  have quiet: "?ev \<notin> set targ" if "run_argv E X rt request w container h' = (r', targ)" for h' r' targ
    using only_trace [OF only_run_argv_inert that, of ?ev] by auto
  have att: "?ev \<notin> set te" if "attend E X rt request jid container cb has_cancel start h' = (r', te)" for start h' r' te
    using attend_no_spawn [OF assms(1) that] .
  obtain start c targ r1 where clock: "c = (Clock, Inr (RTime start))" and
    build: "run_argv E X rt request w container (h @ [c]) = (r1, targ)" and
    rest: "(case r1 of Inl e \<Rightarrow> t = c # targ
      | Inr argv' \<Rightarrow> \<exists>a' te. t = c # targ @ (Proc (Spawn argv'), a') # te \<and> ?ev \<notin> set te)"
    using assms(2,3)
    by (auto simp: run_def bnd_eq call_defs call_eq dest: att)
  show ?thesis
  proof (cases r1)
    case (Inl e)
    then show ?thesis using rest assms(3) quiet [OF build] clock by auto
  next
    case (Inr argv')
    then obtain a' te where t: "t = c # targ @ (Proc (Spawn argv'), a') # te" "?ev \<notin> set te" using rest by auto
    then have "argv' = argv" "a' = a" using assms(3) quiet [OF build] clock by auto
    then show ?thesis
      using t run_argv_built [OF build [unfolded Inr]] quiet [OF build] clock
      by (intro exI [of _ "c # targ"] exI [of _ te]) auto
  qed
qed

lemma execute_spawn:
  assumes "execute E X request jid cb has_cancel h = (r, t)" "redis_only cb"
    and "t = t1 @ (Proc (Spawn argv), a) # t2"
  obtains rt w sec tv where "get_runtime (registry_of X) (language request) = Inr rt"
    and "verify_image E X rt h = (Inr (), tv)" "set tv \<subseteq> set t1" "makes_workdir X jid w \<in> set t1"
    and "build_command X sec rt request w (py ''sandbox-'' @ jid) = Inr argv"
    and "profile_written sec rt \<in> set (h @ t1)"
  using assms(1)
proof (cases rule: execute_cases)
  case (unverified rt e)
  then show ?thesis using assms(3) only_trace [OF only_verify_inert unverified(2)] by fastforce
next
  case (unprepared rt tv tp e)
  have "(Proc (Spawn argv), a) \<in> set t" using assms(3) by simp
  then show ?thesis
    unfolding unprepared(5)
    using only_trace [OF only_verify_inert unprepared(2)] prepare_no_spawn [OF unprepared(3)] by fastforce
next
  case (ran rt tv tp w r1 tr r2 tc)
  let ?ev = "(Proc (Spawn argv), a)"
  have no: "?ev \<notin> set tv" "?ev \<notin> set tp" "?ev \<notin> set tc"
    using only_trace [OF only_verify_inert ran(2)] prepare_no_spawn [OF ran(3)] cleanup_trace [OF ran(5)] by fastforce+
  have "?ev \<in> set t" using assms(3) by simp
  then have "?ev \<in> set tr" using ran(7) no by auto
  from run_spawn [OF assms(2) ran(4) this] obtain tb te sec where tr: "tr = tb @ ?ev # te" "?ev \<notin> set (tb @ te)"
    and cmd: "build_command X sec rt request w (py ''sandbox-'' @ jid) = Inr argv"
    and prof: "profile_written sec rt \<in> set ((h @ tv @ tp) @ tb)" by blast
  have "tv @ tp @ tb = t1"
    by (rule unique_split [where x = ?ev and ys = "te @ tc" and ys' = t2]) (use assms(3) ran(7) tr no in auto)
  with that [OF ran(1,2) _ _ cmd] prof prepare_makes [OF ran(3)] show ?thesis by auto
qed (use assms(3) in simp)

lemma build_ok: "build U environ = Inr reg \<Longrightarrow> registry_ok reg"
  using build_registry_ok [OF _ SPECS_ok, of "[]" U environ] by (auto simp: build_def registry_ok_def)

lemma runtime_envelope:
  assumes "registry_ok reg" "get_runtime reg lang = Inr rt"
  shows "envelope_ok (rt_limits rt)" "rt_id rt = lang"
proof -
  have "get_resource_config lang = Inr (rt_limits rt)" "rt_id rt = lang"
    using assms by (auto simp: registry_ok_def runtime_ok_def get_runtime_def split: option.splits)
  then show "envelope_ok (rt_limits rt)" "rt_id rt = lang" by (auto intro: get_resource_config_ok)
qed

lemma build_command_split:
  assumes "build_command X sec rt request w container = Inr argv"
  shows "\<exists>host. host_path_for (cwd_of X) (config_of X) w = Inr host \<and>
     argv = base_options (config_of X) rt sec container @ user_env (ucd_of X) (env_vars request)
       @ [py ''-v'', host @ py '':/sandbox:ro'', rt_image rt] @ argv_for rt (py ''/sandbox/'' @ rt_source_filename rt)"
  using assms by (auto simp: build_command_def ebind_Inr)

text \<open>
  C2: With the registry the worker builds at start-up, every container process it starts,
  for any submission, is fully hardened as docker reads its options: read-only root, all
  capabilities dropped, no new privileges, the seccomp profile, non-root user, no network,
  memory without swap, CPU, process and ulimit bounds, a noexec temporary directory (and the
  build directory only for compiled languages), an init process and auto-removal, the work
  directory mounted read-only from its host path as the only mount; and docker sees no other
  flag except the container's names, its working directory and environment variables. The
  limits lie within the system envelope, and the profile file has been written before, with
  exactly the profile of the submission's language.
\<close>

theorem execute_spawn_hardened:
  assumes "build (ucd_of X) (environ_of X) = Inr (registry_of X)"
    and "execute E X request jid cb has_cancel h = (r, t)" "redis_only cb"
    and "t = t1 @ (Proc (Spawn argv), a) # t2"
  shows "\<exists>rt sec w host options. get_runtime (registry_of X) (language request) = Inr rt \<and>
     argv = [docker_path (config_of X), py ''run''] @ options
       @ [rt_image rt] @ argv_for rt (py ''/sandbox/'' @ rt_source_filename rt) \<and>
     hardened (rt_limits rt) (rt_needs_exec_build rt) sec host (docker_options options) \<and> envelope_ok (rt_limits rt) \<and>
     (Fs (WriteJson sec (dumps (profile_json (build_profile (language request) False)))), Inr RUnit)
       \<in> set (h @ t1) \<and>
     makes_workdir X jid w \<in> set t1 \<and> host_path_for (cwd_of X) (config_of X) w = Inr host"
proof -
  obtain rt w sec where rt: "get_runtime (registry_of X) (language request) = Inr rt"
    and w: "makes_workdir X jid w \<in> set t1"
    and cmd: "build_command X sec rt request w (py ''sandbox-'' @ jid) = Inr argv"
    and prof: "profile_written sec rt \<in> set (h @ t1)"
    using execute_spawn [OF assms(2-4)] by metis
  have env: "envelope_ok (rt_limits rt)" "rt_id rt = language request"
    using runtime_envelope [OF build_ok [OF assms(1)] rt] by simp_all
  then have net: "\<not> network_enabled (rt_limits rt)" by (simp add: envelope_ok_def)
  obtain host where host: "host_path_for (cwd_of X) (config_of X) w = Inr host"
      "argv = base_options (config_of X) rt sec (py ''sandbox-'' @ jid) @ user_env (ucd_of X) (env_vars request)
       @ [py ''-v'', host @ py '':/sandbox:ro'', rt_image rt] @ argv_for rt (py ''/sandbox/'' @ rt_source_filename rt)"
    using build_command_split [OF cmd] by blast
  have "base_options (config_of X) rt sec c = [docker_path (config_of X), py ''run''] @ drop 2 (base_options (config_of X) rt sec c)"
    for c by (simp add: base_options_def)
  then have "argv = [docker_path (config_of X), py ''run'']
       @ (drop 2 (base_options (config_of X) rt sec (py ''sandbox-'' @ jid)) @ user_env (ucd_of X) (env_vars request)
          @ [py ''-v'', host @ py '':/sandbox:ro''])
       @ [rt_image rt] @ argv_for rt (py ''/sandbox/'' @ rt_source_filename rt)"
    using host(2) by (metis append.assoc append_Cons append_Nil)
  moreover have "(Fs (WriteJson sec (dumps (profile_json (build_profile (language request) False)))), Inr RUnit)
      \<in> set (h @ t1)" using prof env net by simp
  ultimately show ?thesis using rt w env(1) host(1) command_hardened [OF net] by blast
qed

text \<open>
  C10: No container is started from an unverified image: before a container process of a
  submission exists, docker has confirmed that the runtime's image is present, and when a
  digest is pinned the confirmed digests contain it; the image on the command line is the
  one that was confirmed.
\<close>

theorem execute_spawns_verified_image:
  assumes "execute E X request jid cb has_cancel h = (r, t)" "redis_only cb"
    and "t = t1 @ (Proc (Spawn argv), a) # t2"
  shows "\<exists>rt out err. get_runtime (registry_of X) (language request) = Inr rt \<and>
     (Proc (Simple [docker_path (config_of X), py ''image'', py ''inspect'', rt_image rt,
                    py ''--format'', py ''{{json .RepoDigests}}'']), Inr (RProc 0 out err)) \<in> set t1 \<and>
     (rt_image_digest rt = [] \<or> contains (utf8 out) (rt_image_digest rt)) \<and> rt_image rt \<in> set argv"
proof -
  obtain rt w sec tv where rt: "get_runtime (registry_of X) (language request) = Inr rt"
    and v: "verify_image E X rt h = (Inr (), tv)" "set tv \<subseteq> set t1"
    and cmd: "build_command X sec rt request w (py ''sandbox-'' @ jid) = Inr argv"
    using execute_spawn [OF assms] by metis
  from v obtain out err where "(Proc (Simple [docker_path (config_of X), py ''image'', py ''inspect'', rt_image rt,
        py ''--format'', py ''{{json .RepoDigests}}'']), Inr (RProc 0 out err)) \<in> set t1"
      "rt_image_digest rt = [] \<or> contains (utf8 out) (rt_image_digest rt)"
    by (auto simp: verify_image_def bnd_Inr_eq simple_def call_defs call_eq Let_def split: if_splits)
  moreover have "rt_image rt \<in> set argv" using build_command_split [OF cmd] by auto
  ultimately show ?thesis using rt by auto
qed

subsection \<open>The kill ladder\<close>

definition kill_ladder :: "ctx \<Rightarrow> pystr \<Rightarrow> cmd list" where
  "kill_ladder X container =
     (let docker = docker_path (config_of X)
      in [Proc (Simple [docker, py ''kill'', py ''--signal=TERM'', container]),
          Proc (WaitProc (Some (sigterm_grace_seconds (config_of X)))),
          Proc (Simple [docker, py ''kill'', py ''--signal=KILL'', container]),
          Proc (WaitProc (Some 5)),
          Proc (Simple [docker, py ''rm'', py ''-f'', container]),
          Proc KillProc,
          Proc (WaitProc None)])"

definition saw_exit :: "event list \<Rightarrow> bool" where
  "saw_exit t \<longleftrightarrow> t \<noteq> [] \<and> (\<exists>d. last t = (Proc (WaitProc (Some d)), Inr (RBool True)))"

text \<open>
  C12: Terminating a run climbs one fixed ladder, in order and without skipping a rung:
  SIGTERM, a wait of at most the grace period, SIGKILL, a wait of at most five seconds,
  forced removal, a kill of the local client, and only then an unbounded wait. It stops
  early only when a bounded wait saw the process exit or a command raised.
\<close>

theorem terminate_ladder:
  assumes "terminate E X container h = (r, t)"
  shows "prefix (map fst t) (kill_ladder X container) \<and>
         (case r of
            Inr _ \<Rightarrow> saw_exit t \<or> map fst t = kill_ladder X container
          | Inl e \<Rightarrow> t \<noteq> [] \<and> snd (last t) = Inl e)"
  using assms
  by (auto simp: terminate_def kill_ladder_def Let_def bnd_eq suppress_def catch_eq simple_def call_defs
      call_eq KILL_WAIT_SECONDS_def saw_exit_def split: if_splits sum.splits)

theorem terminate_ladder_witness:
  "\<exists>t. terminate calm sample_ctx (py ''sandbox-j1'') [] = (Inr (), t) \<and>
       map fst t = kill_ladder sample_ctx (py ''sandbox-j1'')"
proof -
  obtain t where t: "terminate calm sample_ctx (py ''sandbox-j1'') [] = (Inr (), t)" "length t = 7"
    by (simp add: terminate_def Let_def bnd_def suppress_def catch_def simple_def call_defs call_def ret_def)
  have "\<not> saw_exit t"
    using t(1) by (auto simp: terminate_def Let_def bnd_def suppress_def catch_def simple_def call_defs
        call_def ret_def saw_exit_def)
  with terminate_ladder [OF t(1)] t(1) show ?thesis by auto
qed

subsection \<open>Results\<close>

text \<open>What a result says about the outcome.\<close>

definition result_consistent :: "execution_result \<Rightarrow> bool" where
  "result_consistent res \<longleftrightarrow> terminal (status res) \<and>
     (timed_out res \<longleftrightarrow> status res = TIMEOUT) \<and>
     (oom_killed res \<longleftrightarrow> status res = FAILED) \<and>
     (oom_killed res \<longleftrightarrow> exit_code res = Some 137) \<and>
     (status res \<in> {TIMEOUT, KILLED} \<longrightarrow> exit_code res = None)"

lemma build_result_consistent: "result_consistent (build_result jid rc oc cap s wall)"
  by (auto simp: result_consistent_def build_result_def SIGKILL_EXIT_def split: outcome.splits)

lemma build_result_sel [simp]:
  "job_id (build_result jid rc oc cap s wall) = jid"
  "stdout (build_result jid rc oc cap s wall) = capture_stdout cap"
  "stderr (build_result jid rc oc cap s wall) = capture_stderr cap"
  by (simp_all add: build_result_def split: prod.splits)

lemma capture_cap:
  assumes "run_pumps cb s n h = (Inr c, t)"
  shows "length (encode (capture_stdout c)) + length (encode (capture_stderr c)) \<le> nat n"
  using run_pumps_log [OF assms] cap.view_bounded by (metis captured_def stream_kind.case)

lemma attend_result:
  assumes "attend E X rt request jid container cb has_cancel start h = (Inr res, t)"
  shows "result_consistent res \<and> job_id res = jid \<and>
     length (encode (stdout res)) + length (encode (stderr res)) \<le> nat (output_max_bytes (rt_limits rt))"
  using assms
  by (auto simp: attend_def Let_def bnd_Inr_eq build_result_consistent split: if_splits dest!: capture_cap)

text \<open>
  C11: A result that the executor returns is consistent: its status is terminal, the timeout
  flag is set exactly for a timeout, a failure is exactly an out-of-memory kill with exit
  status 137, a timed-out or killed run has no exit code; it carries the job's id, and its
  two output streams together encode to at most one mebibyte.
\<close>

theorem execute_result_consistent:
  assumes "build (ucd_of X) (environ_of X) = Inr (registry_of X)"
    and "execute E X request jid cb has_cancel h = (Inr res, t)"
  shows "result_consistent res \<and> job_id res = jid \<and>
         length (encode (stdout res)) + length (encode (stderr res)) \<le> 1048576"
  using assms(2)
proof (cases rule: execute_cases)
  case (ran rt tv tp w r1 tr r2 tc)
  then have "output_max_bytes (rt_limits rt) = 1048576"
    using runtime_envelope [OF build_ok [OF assms(1)]] by (auto simp: envelope_ok_def)
  moreover have "r1 = Inr res" using ran(6) by (cases r2) auto
  ultimately show ?thesis using ran(4) by (auto simp: run_def bnd_Inr_eq dest!: attend_result)
qed auto

subsection \<open>A concrete run\<close>

lemma sample_host_path: "host_path_for cwd sample_config w = Inr w"
  by (simp add: host_path_for_def)

lemma calm_verify: "\<exists>t. verify_image calm sample_ctx sample_rt h = (Inr (), t)"
  by (simp add: verify_image_def bnd_def simple_def call_defs call_def ret_def)

lemma calm_prepare:
  "\<exists>t. prepare_workdir calm sample_ctx sample_rt sample_request (py ''j1'') h = (Inr (py ''/work/j1-x''), t) \<and>
       (Fs (WriteText (py ''/work/j1-x/main.py'') (py ''print(1)'')), Inr RUnit) \<in> set t"
  by (simp add: prepare_workdir_def write_file_def bnd_def call_defs call_def ret_def path_join_def
      endswith_def startswith_def encodable_def scalar_def)
    (simp add: py_def scalar_def)

lemma sample_succeeds:
  "succeeds (sample_read E X container s)" "succeeds (sample_observe E X container t0 s)"
  unfolding sample_read_def sample_observe_def Let_def
  by (auto intro!: succeeds_rules split: sum.splits)

text \<open>Sampling never makes a run fail, whatever the cgroup files and docker answer.\<close>

lemma sample_loop_succeeds: "succeeds (sample_loop E X container t0 n s)"
  by (induction n arbitrary: s) (auto intro!: succeeds_bnd sample_succeeds)

lemma calm_attend:
  "succeeds (attend calm sample_ctx sample_rt sample_request jid c None has_cancel t0)"
proof -
  have "succeeds (run_pumps None s n)" for s n
    unfolding succeeds_def using run_pumps_returns [OF never_raises_None] by (metis fst_conv is_ok_simps(2))
  then show ?thesis
    unfolding attend_def Let_def await_completion_def terminate_def simple_def call_defs
    by (auto simp: encodable_def intro!: succeeds_rules sample_loop_succeeds)
qed

lemma calm_profile: "\<exists>sec t. seccomp_profile_path calm environ tmp rt h = (Inr sec, t)"
  unfolding seccomp_profile_path_def profile_path_def
  by (cases "profile_file environ tmp (rt_id rt) (network_enabled (rt_limits rt))")
    (simp add: Let_def bnd_def call_defs call_def ret_def)

lemma calm_run:
  "\<exists>res t argv. run calm sample_ctx sample_rt sample_request (py ''j1'') w c None False h = (Inr res, t) \<and>
     (Proc (Spawn argv), Inr RUnit) \<in> set t"
proof -
  obtain argv t1 where argv: "run_argv calm sample_ctx sample_rt sample_request w c
      (h @ [(Clock, Inr (RTime 0))]) = (Inr argv, t1)"
  proof -
    obtain sec t1 where "seccomp_profile_path calm Map.empty (py ''/tmp'') sample_rt
        (h @ [(Clock, Inr (RTime 0))]) = (Inr sec, t1)"
      using calm_profile by blast
    then show thesis
      using that by (auto simp: run_argv_def bnd_def ret_def sample_host_path build_command_def)
  qed
  obtain res t2 where "attend calm sample_ctx sample_rt sample_request (py ''j1'') c None False 0
      (h @ (Clock, Inr (RTime 0)) # t1 @ [(Proc (Spawn argv), Inr RUnit)]) = (Inr res, t2)"
    using calm_attend by (rule succeedsE)
  with argv show ?thesis by (auto simp: run_def bnd_def call_defs call_def)
qed

lemma calm_execute:
  "\<exists>res t argv. execute calm sample_ctx sample_request (py ''j1'') None False [] = (Inr res, t) \<and>
     (Proc (Spawn argv), Inr RUnit) \<in> set t \<and>
     (Fs (WriteText (py ''/work/j1-x/main.py'') (py ''print(1)'')), Inr RUnit) \<in> set t"
proof -
  obtain tv where v: "verify_image calm sample_ctx sample_rt [] = (Inr (), tv)" using calm_verify by blast
  obtain tp where p: "prepare_workdir calm sample_ctx sample_rt sample_request (py ''j1'') tv
        = (Inr (py ''/work/j1-x''), tp)"
      "(Fs (WriteText (py ''/work/j1-x/main.py'') (py ''print(1)'')), Inr RUnit) \<in> set tp"
    using calm_prepare by blast
  obtain res tr argv where r: "run calm sample_ctx sample_rt sample_request (py ''j1'') (py ''/work/j1-x'')
        (py ''sandbox-'' @ py ''j1'') None False (tv @ tp) = (Inr res, tr)"
      "(Proc (Spawn argv), Inr RUnit) \<in> set tr"
    using calm_run by blast
  obtain tc where "cleanup calm sample_ctx (py ''sandbox-'' @ py ''j1'') (py ''/work/j1-x'') (tv @ tp @ tr)
      = (Inr (), tc)"
    by (simp add: cleanup_def suppress_def catch_def attempt_def simple_def bnd_def call_defs call_def ret_def)
  with v p r show ?thesis by (auto simp: execute_def bnd_def try_finally_def Let_def)
qed

lemma redis_only_None [simp]: "redis_only None"
  by (simp add: redis_only_def)

theorem execute_cleans_up_witness:
  "\<exists>r t t0 w a b. execute calm sample_ctx sample_request (py ''j1'') None False [] = (r, t) \<and>
     (t = t0 @ [removes_container sample_ctx (py ''sandbox-'' @ py ''j1'') a, (Fs (Rmtree w), b)] \<or>
      t = t0 @ [removes_container sample_ctx (py ''sandbox-'' @ py ''j1'') (Inl CancelledError)])"
proof -
  obtain r t argv where run: "execute calm sample_ctx sample_request (py ''j1'') None False [] = (Inr r, t)"
      "(Proc (Spawn argv), Inr RUnit) \<in> set t" using calm_execute by blast
  from execute_cleans_up [OF run] run(1) show ?thesis by blast
qed

theorem execute_writes_confined_witness:
  "\<exists>r t w base. execute calm sample_ctx sample_request (py ''j1'') None False [] = (r, t) \<and>
     makes_workdir sample_ctx (py ''j1'') w \<in> set t \<and> startswith (py ''/work/j1-x/main.py'') (base @ [47])"
proof -
  obtain r t where run: "execute calm sample_ctx sample_request (py ''j1'') None False [] = (Inr r, t)"
      "(Fs (WriteText (py ''/work/j1-x/main.py'') (py ''print(1)'')), Inr RUnit) \<in> set t"
    using calm_execute by blast
  from execute_writes_confined [OF run(1) redis_only_None run(2)] run(1) show ?thesis by blast
qed

theorem execute_spawn_hardened_witness:
  "\<exists>r t argv sec host options. execute calm sample_ctx sample_request (py ''j1'') None False [] = (r, t) \<and>
     (Proc (Spawn argv), Inr RUnit) \<in> set t \<and> prefix ([py ''docker'', py ''run''] @ options) argv \<and>
     hardened (rt_limits sample_rt) False sec host (docker_options options)"
proof -
  obtain res t argv where run: "execute calm sample_ctx sample_request (py ''j1'') None False [] = (Inr res, t)"
      "(Proc (Spawn argv), Inr RUnit) \<in> set t" using calm_execute by blast
  obtain t1 t2 where split: "t = t1 @ (Proc (Spawn argv), Inr RUnit) # t2"
    using split_list [OF run(2)] by blast
  have "build (ucd_of sample_ctx) (environ_of sample_ctx) = Inr (registry_of sample_ctx)"
    using sample_registry by simp
  from execute_spawn_hardened [OF this run(1) redis_only_None split] show ?thesis
  proof (elim exE conjE, goal_cases)
    case (1 rt sec w host options)
    then have rt: "rt = sample_rt" by simp
    then have "\<not> rt_needs_exec_build rt" by (simp add: sample_rt_def)
    with rt run 1(2,3) show ?case by (intro exI conjI) (auto simp: prefix_def)
  qed
qed

theorem execute_spawns_verified_image_witness:
  "\<exists>r t argv. execute calm sample_ctx sample_request (py ''j1'') None False [] = (r, t) \<and>
     (Proc (Spawn argv), Inr RUnit) \<in> set t \<and> py ''sandbox-runtime-python:latest'' \<in> set argv"
proof -
  obtain res t argv where run: "execute calm sample_ctx sample_request (py ''j1'') None False [] = (Inr res, t)"
      "(Proc (Spawn argv), Inr RUnit) \<in> set t" using calm_execute by blast
  obtain t1 t2 where "t = t1 @ (Proc (Spawn argv), Inr RUnit) # t2"
    using split_list [OF run(2)] by blast
  from execute_spawns_verified_image [OF run(1) redis_only_None this] run show ?thesis by auto
qed

theorem execute_result_consistent_witness:
  "\<exists>res t. execute calm sample_ctx sample_request (py ''j1'') None False [] = (Inr res, t) \<and>
     result_consistent res"
proof -
  obtain res t where run: "execute calm sample_ctx sample_request (py ''j1'') None False [] = (Inr res, t)"
    using calm_execute by blast
  have "build (ucd_of sample_ctx) (environ_of sample_ctx) = Inr (registry_of sample_ctx)"
    using sample_registry by simp
  from execute_result_consistent [OF this run] run show ?thesis by blast
qed

subsection \<open>A refused input file\<close>

definition unsafe_request :: execution_request where
  "unsafe_request = sample_request\<lparr>files := [\<lparr>if_name = py ''a b'', if_content = []\<rparr>]\<rparr>"

lemma unsafe_name: "safe_basename no_unicode (py ''a b'') = None"
  by (simp add: safe_basename_def py_def replace_char_def basename_def dot_def dotdot_def isalnum_def)

lemma sample_main_py:
  "write_file calm sample_ctx (py ''/work/j1-x'') (py ''main.py'') (py ''print(1)'') h =
     (Inr (), [(Fs (Realpath (py ''/work/j1-x/main.py'')), Inr (RStr (py ''/work/j1-x/main.py''))),
       (Fs (Realpath (py ''/work/j1-x'')), Inr (RStr (py ''/work/j1-x''))),
       (Fs (WriteText (py ''/work/j1-x/main.py'') (py ''print(1)'')), Inr RUnit),
       (Fs (Chmod (py ''/work/j1-x/main.py'') 420), Inr RUnit)])"
  by (simp add: write_file_def bnd_def call_defs call_def ret_def path_join_def endswith_def startswith_def
      encodable_def scalar_def)
    (simp add: py_def scalar_def)

lemma refused_input_raises:
  "f \<in> set fs \<Longrightarrow> safe_basename (ucd_of X) (if_name f) = None \<Longrightarrow> for_each (write_input E X w) fs h \<noteq> (Inr u, t)"
proof (induction fs arbitrary: h t)
  case (Cons g fs)
  then show ?case by (auto simp: bnd_eq write_input_def raise_def)
qed simp

lemma prepare_deletes_nothing:
  assumes "prepare_workdir E X rt request jid h = (r, t)"
  shows "(Fs (Rmtree p), a) \<notin> set t"
proof -
  let ?P = "\<lambda>ev. fst ev \<noteq> Fs (Rmtree p)"
  have "only ?P (write_file E X w n content)" for w n content
    unfolding write_file_def by (auto intro!: only_rules)
  then have "only ?P (prepare_workdir E X rt request jid)"
    unfolding prepare_workdir_def write_input_def by (auto intro!: only_rules only_for_each split: option.splits)
  from only_trace [OF this assms, of "(Fs (Rmtree p), a)"] show ?thesis by auto
qed

text \<open>
  C39: A submission with an unsafe input file name is refused before any container starts,
  but a work directory that was created for it by then is not deleted on this path, whatever
  docker and the file system answer: removing it is left to the reaper.
\<close>

theorem refused_file_keeps_workdir:
  assumes "execute E X request jid cb has_cancel h = (r, t)"
    and "f \<in> set (files request)" "safe_basename (ucd_of X) (if_name f) = None"
    and "makes_workdir X jid w \<in> set t"
  shows "(\<exists>e. r = Inl e) \<and> (\<forall>p argv a. (Fs (Rmtree p), a) \<notin> set t \<and> (Proc (Spawn argv), a) \<notin> set t)"
  using assms(1)
proof (cases rule: execute_cases)
  case (unverified rt e)
  then show ?thesis using only_trace [OF only_verify_inert unverified(2)] by fastforce
next
  case (unprepared rt tv tp e)
  then show ?thesis
    using only_trace [OF only_verify_inert unprepared(2)] prepare_no_spawn [OF unprepared(3)]
      prepare_deletes_nothing [OF unprepared(3)] by fastforce
next
  case (ran rt tv tp w' r1 tr r2 tc)
  then show ?thesis
    using refused_input_raises [OF assms(2,3)] by (auto simp: prepare_workdir_def bnd_Inr_eq call_defs call_eq ret_eq)
qed (use assms(4) in simp)

theorem refused_file_keeps_workdir_witness:
  "\<exists>e t. execute calm sample_ctx unsafe_request (py ''j1'') None False [] = (Inl e, t) \<and>
     makes_workdir sample_ctx (py ''j1'') (py ''/work/j1-x'') \<in> set t \<and> (\<forall>p a. (Fs (Rmtree p), a) \<notin> set t)"
proof -
  have w: "py ''/work'' @ [47] @ (py ''j1'' @ py ''-'') @ [120] = py ''/work/j1-x''"
    by (simp add: py_def)
  have prep: "\<exists>e t. prepare_workdir calm sample_ctx sample_rt unsafe_request (py ''j1'') h = (Inl e, t) \<and>
     makes_workdir sample_ctx (py ''j1'') (py ''/work/j1-x'') \<in> set t" for h
    using w
    by (simp add: prepare_workdir_def unsafe_request_def bnd_def call_defs call_def ret_def sample_main_py
        write_input_def unsafe_name raise_def)
  have lang: "language unsafe_request = py ''python''" by (simp add: unsafe_request_def)
  obtain tv where "verify_image calm sample_ctx sample_rt [] = (Inr (), tv)" using calm_verify [of "[]"] by blast
  with prep [of tv] lang obtain e t where run: "execute calm sample_ctx unsafe_request (py ''j1'') None False [] = (Inl e, t)"
      "makes_workdir sample_ctx (py ''j1'') (py ''/work/j1-x'') \<in> set t"
    by (fastforce simp: execute_def bnd_def)
  have "\<lparr>if_name = py ''a b'', if_content = []\<rparr> \<in> set (files unsafe_request)" by (simp add: unsafe_request_def)
  from refused_file_keeps_workdir [OF run(1) this _ run(2)] run unsafe_name show ?thesis by auto
qed

end
