(* ===== verification/Result_Store.thy ===== *)
theory Result_Store
  imports Types Traces
begin

text \<open>
  \<^verbatim>\<open>worker/storage/result_store.py\<close> (\<open>ResultStore\<close>) and \<^verbatim>\<open>worker/queue/publisher.py\<close>
  (\<open>StreamPublisher\<close>): job records and results in Redis, the archive copy in MinIO, the
  frames of the live stream.
\<close>

record result_store =
  has_minio :: bool
  bucket :: pystr

subsection \<open>Records\<close>

definition ensure_bucket :: "env \<Rightarrow> result_store \<Rightarrow> unit io" where
  "ensure_bucket E S =
     (if \<not> has_minio S then ret ()
      else suppress is_Exception
        (bnd (get_bool E (Minio (BucketExists (bucket S)))) (\<lambda>exists.
           if \<not> exists then do_unit E (Minio (MakeBucket (bucket S))) else ret ())))"

text \<open>A missing record, a record that is not JSON and the text \<^verbatim>\<open>null\<close> all count as absent.\<close>

definition get_record :: "env \<Rightarrow> pystr \<Rightarrow> json option io" where
  "get_record E jid =
     bnd (get_text E (Redis (Get (job_record_key jid)))) (\<lambda>raw.
       ret (case raw of
              None \<Rightarrow> None
            | Some t \<Rightarrow> (case loads t of Some JNull \<Rightarrow> None | record \<Rightarrow> record)))"

definition is_cancelled :: "env \<Rightarrow> pystr \<Rightarrow> bool io" where
  "is_cancelled E jid = bnd (get_int E (Redis (Exists (cancel_key jid)))) (\<lambda>n. ret (n \<noteq> 0))"

text \<open>Only a dict has \<^verbatim>\<open>update\<close>.\<close>

definition patch_record :: "env \<Rightarrow> pystr \<Rightarrow> (pystr \<times> json) list \<Rightarrow> json option io" where
  "patch_record E jid kvs =
     bnd (get_record E jid) (\<lambda>rec.
       case rec of
         None \<Rightarrow> ret None
       | Some (JObj d) \<Rightarrow>
           bnd (get_str E NowIso) (\<lambda>now.
             let new = JObj (dict_set (dict_update d kvs) (py ''updated_at'') (JStr now))
             in seq (do_unit E (Redis (Set (job_record_key jid) (dumps new) KeepTtl))) (ret (Some new)))
       | Some _ \<Rightarrow> raise AttributeError)"

definition release_slot :: "env \<Rightarrow> pystr \<Rightarrow> pystr \<Rightarrow> unit io" where
  "release_slot E user_id jid =
     (if user_id = [] then ret ()
      else suppress is_Exception (seq (get_int E (Redis (Zrem (concurrency_key user_id) jid))) (ret ())))"

definition set_running :: "env \<Rightarrow> pystr \<Rightarrow> pystr \<Rightarrow> unit io" where
  "set_running E jid wid =
     seq (patch_record E jid [(py ''status'', JStr (status_str RUNNING)), (py ''worker_id'', JStr wid)]) (ret ())"

definition archive :: "env \<Rightarrow> result_store \<Rightarrow> pystr \<Rightarrow> execution_result \<Rightarrow> unit io" where
  "archive E S jid result =
     (if \<not> has_minio S then ret ()
      else suppress is_Exception
        (do_unit E (Minio (PutObject (bucket S) (py ''results/'' @ jid @ py ''.json'')
                             (dumps (result_to_dict result)) (py ''application/json'')))))"

definition store_terminal :: "env \<Rightarrow> result_store \<Rightarrow> pystr \<Rightarrow> execution_result \<Rightarrow> pystr \<Rightarrow> unit io" where
  "store_terminal E S jid result wid =
     seq (archive E S jid result)
     (seq (do_unit E (Redis (Set (result_key jid) (dumps (result_to_dict result)) (Ex RESULT_TTL_SECONDS))))
     (seq (patch_record E jid [(py ''status'', JStr (status_str (status result))),
                               (py ''result'', result_to_dict result), (py ''worker_id'', JStr wid)])
     (ret ())))"

subsection \<open>The live stream\<close>

definition publish :: "env \<Rightarrow> pystr \<Rightarrow> json \<Rightarrow> unit io" where
  "publish E jid message =
     seq (get_int E (Redis (Publish (stream_channel jid) (dumps message)))) (ret ())"

fun kind_str :: "stream_kind \<Rightarrow> pystr" where
  "kind_str Stdout = py ''stdout''"
| "kind_str Stderr = py ''stderr''"

definition output_frame :: "stream_kind \<Rightarrow> pystr \<Rightarrow> json" where
  "output_frame kind data = JObj [(py ''kind'', JStr (kind_str kind)), (py ''data'', JStr data)]"

definition publish_output :: "env \<Rightarrow> pystr \<Rightarrow> stream_kind \<Rightarrow> pystr \<Rightarrow> unit io" where
  "publish_output E jid kind data = publish E jid (output_frame kind data)"

definition publish_status :: "env \<Rightarrow> pystr \<Rightarrow> job_status \<Rightarrow> unit io" where
  "publish_status E jid st =
     publish E jid (JObj [(py ''kind'', JStr (py ''status'')), (py ''status'', JStr (status_str st))])"

definition publish_done :: "env \<Rightarrow> pystr \<Rightarrow> execution_result \<Rightarrow> unit io" where
  "publish_done E jid result =
     publish E jid
       (JObj [(py ''kind'', JStr (py ''done'')),
              (py ''exit_code'', json_of_exit (exit_code result)),
              (py ''status'', JStr (status_str (status result))),
              (py ''wall_time_ms'', JInt (wall_time_ms result)),
              (py ''timed_out'', JBool (timed_out result)),
              (py ''oom_killed'', JBool (oom_killed result))])"

end
