(* ===== verification/Consumer.thy ===== *)
theory Consumer
  imports Types Traces
begin

text \<open>
  \<^verbatim>\<open>worker/queue/consumer.py\<close>: the consumer group of the Redis stream. Payloads are
  arbitrary JSON values, as \<^verbatim>\<open>json.loads\<close> returns them. \<open>R\<close> is \<^verbatim>\<open>str\<close> on floats, lists
  and dicts.
\<close>

definition DEAD_LETTER_MAXLEN :: int where "DEAD_LETTER_MAXLEN = 1000"

record queue_message =
  msg_id :: pystr
  payload :: json
  delivery_count :: int

definition message_job_id :: "(json \<Rightarrow> pystr) \<Rightarrow> queue_message \<Rightarrow> exn + pystr" where
  "message_job_id R m = ebind (py_get (payload m) (py ''job_id'') (JStr [])) (\<lambda>v. Inr (py_str R v))"

text \<open>
  The flag \<^verbatim>\<open>_group_ready\<close> is set once creating the group has succeeded or failed with
  \<^verbatim>\<open>BUSYGROUP\<close>; it is read off the history of the process.
\<close>

definition create_group :: cmd where
  "create_group = Redis (XGroupCreate JOB_STREAM CONSUMER_GROUP (py ''0'') True)"

fun busygroup :: "exn \<Rightarrow> bool" where
  "busygroup (ResponseError m) = contains m (py ''BUSYGROUP'')"
| "busygroup _ = False"

definition group_ready :: "history \<Rightarrow> bool" where
  "group_ready h \<longleftrightarrow>
     list_ex (\<lambda>ev. fst ev = create_group \<and> (case snd ev of Inr _ \<Rightarrow> True | Inl e \<Rightarrow> busygroup e)) h"

definition ensure_group :: "env \<Rightarrow> unit io" where
  "ensure_group E h =
     (if group_ready h then ret () h
      else suppress busygroup (do_unit E create_group) h)"

definition to_message :: "pystr \<Rightarrow> fields \<Rightarrow> int \<Rightarrow> queue_message" where
  "to_message mid fs count =
     (let raw = (case map_of fs (py ''payload'') of Some t \<Rightarrow> t | None \<Rightarrow> Text (JObj []));
          load = (case loads raw of Some j \<Rightarrow> j | None \<Rightarrow> JObj [])
      in \<lparr>msg_id = mid, payload = load, delivery_count = count\<rparr>)"

definition read :: "env \<Rightarrow> pystr \<Rightarrow> int \<Rightarrow> int \<Rightarrow> queue_message list io" where
  "read E consumer_name count block =
     seq (ensure_group E)
     (bnd (get_streams E (Redis (XReadGroup CONSUMER_GROUP consumer_name JOB_STREAM count block))) (\<lambda>response.
      ret (concat (map (\<lambda>(_, entries). map (\<lambda>(mid, fs). to_message mid fs 1) entries) response))))"

fun claim_each :: "env \<Rightarrow> pystr \<Rightarrow> int \<Rightarrow> (pystr \<times> int) list \<Rightarrow> queue_message list \<Rightarrow> queue_message list io" where
  "claim_each E consumer_name min_idle [] claimed = ret claimed"
| "claim_each E consumer_name min_idle ((mid, deliveries) # pending) claimed =
     bnd (get_entries E (Redis (XClaim JOB_STREAM CONSUMER_GROUP consumer_name min_idle [mid]))) (\<lambda>result.
       claim_each E consumer_name min_idle pending
         (claimed @ map (\<lambda>(cid, fs). to_message cid fs deliveries) result))"

definition claim_stale :: "env \<Rightarrow> pystr \<Rightarrow> int \<Rightarrow> int \<Rightarrow> queue_message list io" where
  "claim_stale E consumer_name min_idle count =
     seq (ensure_group E)
     (bnd (get_pending E (Redis (XPendingRange JOB_STREAM CONSUMER_GROUP count min_idle))) (\<lambda>pending.
      claim_each E consumer_name min_idle pending []))"

definition ack :: "env \<Rightarrow> pystr \<Rightarrow> unit io" where
  "ack E mid =
     seq (get_int E (Redis (XAck JOB_STREAM CONSUMER_GROUP mid)))
     (seq (get_int E (Redis (XDel JOB_STREAM mid))) (ret ()))"

definition dead_letter :: "env \<Rightarrow> (json \<Rightarrow> pystr) \<Rightarrow> queue_message \<Rightarrow> pystr \<Rightarrow> unit io" where
  "dead_letter E R m reason =
     seq (get_str E (Redis (XAdd DEAD_LETTER_STREAM
            [(py ''payload'', FText (dumps (payload m))), (py ''reason'', FStr reason),
             (py ''delivery_count'', FStr (str_of_int (delivery_count m)))] DEAD_LETTER_MAXLEN)))
     (seq (ack E (msg_id m))
     (seq (lift (message_job_id R m)) (ret ())))"

definition queue_depth :: "env \<Rightarrow> int io" where
  "queue_depth E =
     catch (get_int E (Redis (XLen JOB_STREAM)))
       (\<lambda>e. case e of ResponseError _ \<Rightarrow> Some (ret 0) | _ \<Rightarrow> None)"

end
