(* ===== verification/Worker.thy ===== *)
theory Worker
  imports Executor Result_Store Consumer
begin

text \<open>
  \<^verbatim>\<open>worker/worker.py\<close>: the processing of one queue message (\<^verbatim>\<open>_process\<close>, \<^verbatim>\<open>_run_job\<close> and
  the finalisers), the consume loop and the life cycle of the daemon. Log records are not
  modelled.

  The cancellation watcher polls Redis while the job runs; the model performs its polls when
  the watcher is joined, the environment choosing their number and, independently, whether
  the wait of the executor sees the cancellation.
\<close>

record daemon =
  dctx :: ctx
  dstore :: result_store

abbreviation dcfg :: "daemon \<Rightarrow> worker_config" where
  "dcfg D \<equiv> config_of (dctx D)"

subsection \<open>Metrics and finalisers\<close>

definition record_metrics :: "pystr \<Rightarrow> execution_result \<Rightarrow> unit io" where
  "record_metrics lang result =
     seq (metric ''sandbox_executions_total'' Inc
            [(py ''language'', lang), (py ''status'', status_str (status result))] 1)
     (seq (metric ''sandbox_execution_duration_seconds'' Observe [(py ''language'', lang)] (of_int (wall_time_ms result) / 1000))
     (seq (if oom_killed result then metric ''sandbox_oom_kills_total'' Inc [] 1 else ret ())
          (if timed_out result then metric ''sandbox_timeout_kills_total'' Inc [] 1 else ret ())))"

definition finalize :: "env \<Rightarrow> daemon \<Rightarrow> pystr \<Rightarrow> pystr \<Rightarrow> execution_result \<Rightarrow> unit io" where
  "finalize E D jid lang result =
     seq (store_terminal E (dstore D) jid result (worker_id (dcfg D)))
     (seq (publish_done E jid result) (record_metrics lang result))"

definition finalize_cancelled :: "env \<Rightarrow> daemon \<Rightarrow> pystr \<Rightarrow> pystr \<Rightarrow> unit io" where
  "finalize_cancelled E D jid lang = finalize E D jid lang (new_result jid KILLED)"

definition failure_detail :: "exn \<Rightarrow> pystr" where
  "failure_detail e =
     (if is_UnknownLanguageError e then py ''unsupported language''
      else if is_SandboxError e \<and> exn_code e = Some (py ''max_retries'')
      then py ''job abandoned after repeated delivery failures''
      else if is_SandboxError e then py ''sandbox failure''
      else py ''internal execution error'')"

definition failed_result :: "pystr \<Rightarrow> exn \<Rightarrow> execution_result" where
  "failed_result jid e = (new_result jid FAILED)\<lparr>stderr := failure_detail e\<rparr>"

definition finalize_failed :: "env \<Rightarrow> daemon \<Rightarrow> pystr \<Rightarrow> pystr \<Rightarrow> exn \<Rightarrow> unit io" where
  "finalize_failed E D jid lang e = finalize E D jid lang (failed_result jid e)"

subsection \<open>One job\<close>

text \<open>The polls the watcher made before it was cancelled; \<open>True\<close> when it set the event.\<close>

fun watch_cancel :: "env \<Rightarrow> pystr \<Rightarrow> nat \<Rightarrow> bool io" where
  "watch_cancel E jid 0 = ret False"
| "watch_cancel E jid (Suc n) =
     bnd (is_cancelled E jid) (\<lambda>c.
       if c then ret True else seq (do_unit E (Sleep (1 / 2))) (watch_cancel E jid n))"

definition join_watcher :: "env \<Rightarrow> pystr \<Rightarrow> unit io" where
  "join_watcher E jid =
     bnd (get_int E (Task WatchPolls)) (\<lambda>n.
       suppress (\<lambda>e. e = CancelledError) (seq (watch_cancel E jid (nat n)) (ret ())))"

definition run_job :: "env \<Rightarrow> daemon \<Rightarrow> pystr \<Rightarrow> execution_request \<Rightarrow> unit io" where
  "run_job E D jid request =
     seq (metric ''sandbox_jobs_in_flight'' Inc [] 1)
     (seq (set_running E jid (worker_id (dcfg D)))
     (seq (publish_status E jid RUNNING)
     (bnd (try_finally (execute E (dctx D) request jid (Some (publish_output E jid)) True)
             (seq (join_watcher E jid) (metric ''sandbox_jobs_in_flight'' Dec [] 1))) (\<lambda>result.
      finalize E D jid (language request) result))))"

text \<open>The \<^verbatim>\<open>except (KeyError, TypeError, ValueError, AttributeError)\<close> clause.\<close>

definition malformed :: "exn \<Rightarrow> bool" where
  "malformed e \<longleftrightarrow> e = KeyError \<or> e = TypeError \<or> is_ValueError e \<or> e = AttributeError"

definition complete :: "env \<Rightarrow> pystr \<Rightarrow> pystr \<Rightarrow> pystr \<Rightarrow> unit io" where
  "complete E user_id jid mid = seq (release_slot E user_id jid) (ack E mid)"

definition bury :: "env \<Rightarrow> daemon \<Rightarrow> pystr \<Rightarrow> pystr \<Rightarrow> queue_message \<Rightarrow> pystr \<Rightarrow> unit io" where
  "bury E D user_id jid m reason =
     seq (release_slot E user_id jid)
     (seq (dead_letter E (str_of (dctx D)) m reason)
          (metric ''sandbox_dead_lettered_total'' Inc [] 1))"

definition process_request :: "env \<Rightarrow> daemon \<Rightarrow> pystr \<Rightarrow> pystr \<Rightarrow> queue_message \<Rightarrow> execution_request \<Rightarrow> unit io" where
  "process_request E D user_id jid m request =
     bnd (is_cancelled E jid) (\<lambda>c.
       if c
       then seq (finalize_cancelled E D jid (language request)) (complete E user_id jid (msg_id m))
       else catch (seq (run_job E D jid request) (complete E user_id jid (msg_id m)))
              (\<lambda>e. if is_DockerUnavailableError e then Some (ret ())
                   else if is_Exception e
                   then Some (seq (finalize_failed E D jid (language request) e)
                                  (complete E user_id jid (msg_id m)))
                   else None))"

definition message_user_id :: "(json \<Rightarrow> pystr) \<Rightarrow> queue_message \<Rightarrow> exn + pystr" where
  "message_user_id R m =
     ebind (py_get (payload m) (py ''user_id'') JNull) (\<lambda>raw. Inr (py_str R (py_or raw (JStr []))))"

definition process :: "env \<Rightarrow> daemon \<Rightarrow> queue_message \<Rightarrow> unit io" where
  "process E D m =
     (let R = str_of (dctx D)
      in bnd (lift (message_job_id R m)) (\<lambda>jid.
         bnd (lift (message_user_id R m)) (\<lambda>user_id.
         if delivery_count m > max_retries (dcfg D)
            then bnd (lift (py_get (payload m) (py ''language'') JNull)) (\<lambda>raw_language.
                 seq (finalize_failed E D jid (py_str R (py_or raw_language (JStr (py ''unknown''))))
                        (SandboxError (py ''max retries exceeded'') (py ''max_retries'')))
                     (bury E D user_id jid m (py ''max_retries_exceeded'')))
         else (case ebind (py_item (payload m) (py ''request'')) (request_from_dict (ucd_of (dctx D)) R) of
                    Inr request \<Rightarrow> process_request E D user_id jid m request
                  | Inl e \<Rightarrow>
                      if malformed e
                      then seq (if jid \<noteq> []
                                then finalize_failed E D jid (py ''unknown'')
                                       (SandboxError (py ''malformed payload'') (py ''malformed_payload''))
                                else ret ())
                               (bury E D user_id jid m (py ''malformed_payload''))
                      else raise e))))"

subsection \<open>Which services the parts use\<close>

text \<open>Redis data, MinIO, clocks, metrics and task bookkeeping: no queue, no sandbox.\<close>

fun service_cmd :: "cmd \<Rightarrow> bool" where
  "service_cmd (Redis (Get _)) = True"
| "service_cmd (Redis (Exists _)) = True"
| "service_cmd (Redis (Set _ _ _)) = True"
| "service_cmd (Redis (Zrem _ _)) = True"
| "service_cmd (Redis (Publish _ _)) = True"
| "service_cmd (Minio _) = True"
| "service_cmd NowIso = True"
| "service_cmd (Metric _ _ _ _) = True"
| "service_cmd (Sleep _) = True"
| "service_cmd (Task _) = True"
| "service_cmd _ = False"

definition service :: "event \<Rightarrow> bool" where
  "service ev \<longleftrightarrow> service_cmd (fst ev)"

lemma service_pair [simp]: "service (c, r) = service_cmd c"
  by (simp add: service_def)

lemma only_store_service:
  "only service (archive E S jid res)" "only service (patch_record E jid kvs)"
  "only service (set_running E jid wid)" "only service (store_terminal E S jid res wid)"
  "only service (is_cancelled E jid)" "only service (release_slot E user jid)"
proof -
  show patch: "only service (patch_record E jid kvs)" for kvs
    unfolding patch_record_def get_record_def Let_def
    by (auto intro!: only_rules split: option.splits json.splits)
  show arch: "only service (archive E S jid res)"
    unfolding archive_def by (auto intro!: only_rules)
  show "only service (set_running E jid wid)"
    unfolding set_running_def by (auto intro!: only_rules patch)
  show "only service (store_terminal E S jid res wid)"
    unfolding store_terminal_def by (auto intro!: only_rules patch arch)
  show "only service (is_cancelled E jid)" "only service (release_slot E user jid)"
    unfolding is_cancelled_def release_slot_def by (auto intro!: only_rules)
qed

lemma only_publish_service:
  "only service (publish_output E jid k tx)" "only service (publish_status E jid st)"
  "only service (publish_done E jid res)"
  unfolding publish_output_def publish_status_def publish_done_def publish_def
  by (auto intro!: only_rules)

lemma only_finalize_service: "only service (finalize E D jid lang res)"
  unfolding finalize_def record_metrics_def
  by (auto intro!: only_rules only_store_service only_publish_service)

lemma only_watcher_service: "only service (join_watcher E jid)"
proof -
  have "only service (watch_cancel E jid n)" for n
    by (induction n) (auto intro!: only_rules only_store_service)
  then show ?thesis unfolding join_watcher_def by (auto intro!: only_rules)
qed

lemma only_run_job: "only (\<lambda>ev. service ev \<or> local_cmd (fst ev)) (run_job E D jid request)"
proof -
  let ?P = "\<lambda>ev. service ev \<or> local_cmd (fst ev)"
  note weaken = only_weaken [where Q = ?P]
  have "only ?P (execute E (dctx D) request jid (Some (publish_output E jid)) True)"
    by (rule only_execute) (auto intro: weaken [OF only_publish_service(1)])
  then show ?thesis
    unfolding run_job_def
    by (auto intro!: only_rules only_finally weaken [OF only_store_service(3)] weaken [OF only_publish_service(2)]
        weaken [OF only_watcher_service] weaken [OF only_finalize_service])
qed

subsection \<open>Acknowledgement comes last\<close>

fun ack_cmd :: "cmd \<Rightarrow> bool" where
  "ack_cmd (Redis (XAck _ _ _)) = True"
| "ack_cmd (Redis (XDel _ _)) = True"
| "ack_cmd _ = False"

definition is_ack :: "event \<Rightarrow> bool" where
  "is_ack ev \<longleftrightarrow> ack_cmd (fst ev)"

lemma is_ack_pair [simp]: "is_ack (c, r) = ack_cmd c"
  by (simp add: is_ack_def)

text \<open>A terminal result of the job has been stored under its result key.\<close>

definition stored :: "pystr \<Rightarrow> event \<Rightarrow> bool" where
  "stored jid ev \<longleftrightarrow>
     (\<exists>res. terminal (status res) \<and>
       ev = (Redis (Set (result_key jid) (dumps (result_to_dict res)) (Ex RESULT_TTL_SECONDS)), Inr RUnit))"

lemma not_ack_service: "service ev \<or> local_cmd (fst ev) \<Longrightarrow> \<not> is_ack ev"
  by (cases ev; cases "fst ev"; cases "fst ev" rule: ack_cmd.cases) auto

text \<open>
  What the message handler relies on: storing a result leaves evidence of it and does not
  touch the queue. Then nothing acknowledged after a store lacks its result.
\<close>

locale durable_store =
  fixes evidence :: "pystr \<Rightarrow> event \<Rightarrow> bool"
    and acks :: "event \<Rightarrow> bool"
    and store :: "pystr \<Rightarrow> execution_result \<Rightarrow> unit io"
  assumes store_ensures: "terminal (status res) \<Longrightarrow> ensures (evidence jid) (store jid res)"
    and store_quiet: "only (\<lambda>ev. \<not> acks ev) (store jid res)"
begin

lemma store_guards: "terminal (status res) \<Longrightarrow> guarded (evidence jid) acks (seq (store jid res) m)"
  by (intro guarded_bnd_est guarded_only store_quiet store_ensures)

lemma quiet_then_store:
  "only (\<lambda>ev. \<not> acks ev) n \<Longrightarrow> terminal (status res) \<Longrightarrow>
   guarded (evidence jid) acks (seq n (seq (store jid res) m))"
  by (intro guarded_bnd_seq guarded_only store_guards)

end

lemma finalize_ensures: "terminal (status res) \<Longrightarrow> ensures (stored jid) (finalize E D jid lang res)"
  unfolding finalize_def store_terminal_def
  by (rule ensures_bnd1, rule ensures_bnd2, rule ensures_bnd1)
    (auto simp: ensures_def call_defs call_eq stored_def)

interpretation fin: durable_store stored is_ack "\<lambda>jid res. finalize E D jid lang res" for E D lang
proof unfold_locales
  show "only (\<lambda>ev. \<not> is_ack ev) (finalize E D jid lang res)" for jid res
    by (rule only_weaken [OF only_finalize_service]) (simp add: not_ack_service)
qed (rule finalize_ensures)

lemma execute_terminal:
  assumes "execute E X request jid cb has_cancel h = (Inr res, t)"
  shows "terminal (status res)"
  using assms
proof (cases rule: execute_cases)
  case (ran rt tv tp w r1 tr r2 tc)
  then have "r1 = Inr res" by (cases r2) auto
  with ran(4) have "result_consistent res"
    by (auto simp: run_def bnd_Inr_eq dest!: attend_result)
  then show ?thesis by (simp add: result_consistent_def)
qed auto

text \<open>A job that returns has run the sandbox to a result and finalised that result.\<close>

lemma run_job_cases:
  assumes "run_job E D jid request h = (Inr (), t)"
  obtains res h' te tf where "finalize E D jid (language request) res h' = (Inr (), tf)" "terminal (status res)"
    "\<exists>h''. execute E (dctx D) request jid (Some (publish_output E jid)) True h'' = (Inr res, te)"
    "set te \<subseteq> set t" "\<exists>t0. t = t0 @ tf"
proof -
  from assms obtain res h1 t1 h2 tf t0 where
      fin: "try_finally (execute E (dctx D) request jid (Some (publish_output E jid)) True)
         (seq (join_watcher E jid) (metric ''sandbox_jobs_in_flight'' Dec [] 1)) h1 = (Inr res, t1)"
      and f: "finalize E D jid (language request) res h2 = (Inr (), tf)" "t = t0 @ t1 @ tf"
    unfolding run_job_def by (auto simp: bnd_Inr_eq)
  from fin obtain te tj where ex: "execute E (dctx D) request jid (Some (publish_output E jid)) True h1 = (Inr res, te)"
      "t1 = te @ tj"
    by (auto simp: try_finally_Inr)
  show ?thesis
    by (rule that [OF f(1) execute_terminal [OF ex(1)]]) (use ex f in auto)
qed

lemma run_job_ensures: "ensures (stored jid) (run_job E D jid request)"
  unfolding ensures_def
proof (intro allI impI)
  fix h a t assume "run_job E D jid request h = (Inr a, t)"
  then have "run_job E D jid request h = (Inr (), t)" by simp
  then obtain res h' tf where "finalize E D jid (language request) res h' = (Inr (), tf)"
      "terminal (status res)" "\<exists>t0. t = t0 @ tf"
    by (rule run_job_cases) auto
  with finalize_ensures [of res jid E D "language request"] show "list_ex (stored jid) t"
    unfolding ensures_def by fastforce
qed

lemma run_job_quiet: "only (\<lambda>ev. \<not> is_ack ev) (run_job E D jid request)"
  by (rule only_weaken [OF only_run_job]) (rule not_ack_service)

lemma terminal_results [simp]:
  "terminal (status (new_result jid KILLED))" "terminal (status (failed_result jid e))"
  "status (failed_result jid e) = FAILED"
  by (simp_all add: new_result_def failed_result_def)

lemma guarded_trivial [simp]: "guarded B A (ret a)" "guarded B A (raise e)"
  by (simp_all add: guarded_only)

lemma guarded_lift_bnd: "(\<And>a. x = Inr a \<Longrightarrow> guarded B A (f a)) \<Longrightarrow> guarded B A (bnd (lift x) f)"
  by (cases x) simp_all

lemma process_request_guarded:
  "guarded (stored jid) is_ack (process_request E D user jid m request)"
  unfolding process_request_def finalize_cancelled_def finalize_failed_def
proof (rule guarded_bnd_seq)
  show "guarded (stored jid) is_ack (is_cancelled E jid)"
    by (intro guarded_only only_weaken [OF only_store_service(5)]) (simp add: not_ack_service)
next
  fix c
  show "guarded (stored jid) is_ack
    (if c then seq (finalize E D jid (language request) (new_result jid KILLED)) (complete E user jid (msg_id m))
     else catch (seq (run_job E D jid request) (complete E user jid (msg_id m)))
        (\<lambda>e. if is_DockerUnavailableError e then Some (ret ())
             else if is_Exception e
             then Some (seq (finalize E D jid (language request) (failed_result jid e)) (complete E user jid (msg_id m)))
             else None))"
    by (auto intro!: guarded_catch guarded_bnd_est [OF guarded_only [OF run_job_quiet] run_job_ensures]
        fin.store_guards split: if_splits)
qed

lemma process_guarded:
  assumes "message_job_id (str_of (dctx D)) m = Inr jid" "jid \<noteq> []"
  shows "guarded (stored jid) is_ack (process E D m)"
  unfolding process_def Let_def finalize_failed_def using assms
  by (auto intro!: guarded_lift_bnd fin.store_guards process_request_guarded split: sum.splits)

text \<open>
  C1: At-least-once delivery: whatever Redis, MinIO, docker and the program do, a queue
  entry of a job with an id is acknowledged or deleted only after a terminal result has been
  stored under the job's result key, in the same handling of the message.
\<close>

theorem ack_after_result:
  assumes "process E D m h = (r, t)" "message_job_id (str_of (dctx D)) m = Inr jid" "jid \<noteq> []"
    and "t = t1 @ ev # t2" "is_ack ev"
  shows "\<exists>res. terminal (status res) \<and>
     (Redis (Set (result_key jid) (dumps (result_to_dict res)) (Ex RESULT_TTL_SECONDS)), Inr RUnit) \<in> set t1"
proof -
  have "precedes (stored jid) is_ack (t1 @ ev # t2)"
    using guardedD [OF process_guarded [OF assms(2,3)] assms(1)] assms(4) by simp
  from precedesD [OF this assms(5)] show ?thesis by (auto simp: stored_def)
qed

subsection \<open>The slot is released before the acknowledgement\<close>

definition slot_released :: "pystr \<Rightarrow> pystr \<Rightarrow> event \<Rightarrow> bool" where
  "slot_released user jid ev \<longleftrightarrow> fst ev = Redis (Zrem (concurrency_key user) jid)"

lemma release_ensures: "user \<noteq> [] \<Longrightarrow> ensures (slot_released user jid) (release_slot E user jid)"
  by (auto simp: ensures_def release_slot_def suppress_def catch_eq bnd_eq call_defs call_eq slot_released_def
      split: if_splits)

lemma release_guards:
  assumes "user \<noteq> []"
  shows "guarded (slot_released user jid) is_ack (seq (release_slot E user jid) n)"
  using assms
  by (intro guarded_bnd_est guarded_only only_weaken [OF only_store_service(6)] release_ensures)
    (simp_all add: not_ack_service)

lemma quiet_release_guards:
  assumes "user \<noteq> []" "only (\<lambda>ev. \<not> is_ack ev) q"
  shows "guarded (slot_released user jid) is_ack (seq q (seq (release_slot E user jid) n))"
  using assms by (intro guarded_bnd_seq guarded_only release_guards)

lemma process_request_slot:
  assumes "user \<noteq> []"
  shows "guarded (slot_released user jid) is_ack (process_request E D user jid m request)"
  unfolding process_request_def finalize_cancelled_def finalize_failed_def complete_def
proof (rule guarded_bnd_seq, goal_cases)
  case 1
  show ?case by (intro guarded_only only_weaken [OF only_store_service(5)]) (simp add: not_ack_service)
next
  case (2 c)
  show ?case
    using assms
    by (auto intro!: guarded_catch quiet_release_guards run_job_quiet fin.store_quiet split: if_splits)
qed

lemma process_slot:
  assumes "message_job_id (str_of (dctx D)) m = Inr jid" "message_user_id (str_of (dctx D)) m = Inr user"
    and "user \<noteq> []"
  shows "guarded (slot_released user jid) is_ack (process E D m)"
  unfolding process_def Let_def finalize_failed_def bury_def using assms
  by (auto intro!: guarded_lift_bnd quiet_release_guards fin.store_quiet process_request_slot
      intro: release_guards split: sum.splits)

text \<open>
  C14: The submitting user's concurrency slot is given back before the queue entry goes: an
  entry that names a user is acknowledged or deleted only after the removal of the job from
  that user's slot set has been requested.
\<close>

theorem ack_after_slot_release:
  assumes "process E D m h = (r, t)" "message_job_id (str_of (dctx D)) m = Inr jid"
    and "message_user_id (str_of (dctx D)) m = Inr user" "user \<noteq> []"
    and "t = t1 @ ev # t2" "is_ack ev"
  shows "\<exists>a. (Redis (Zrem (concurrency_key user) jid), a) \<in> set t1"
proof -
  have "precedes (slot_released user jid) is_ack (t1 @ ev # t2)"
    using guardedD [OF process_slot [OF assms(2-4)] assms(1)] assms(5) by simp
  from precedesD [OF this assms(6)] show ?thesis
    by (metis prod.collapse slot_released_def)
qed

subsection \<open>Messages that are not run\<close>

definition dead_lettered :: "queue_message \<Rightarrow> pystr \<Rightarrow> event \<Rightarrow> bool" where
  "dead_lettered m reason ev \<longleftrightarrow>
     (\<exists>eid. ev = (Redis (XAdd DEAD_LETTER_STREAM
        [(py ''payload'', FText (dumps (payload m))), (py ''reason'', FStr reason),
         (py ''delivery_count'', FStr (str_of_int (delivery_count m)))] DEAD_LETTER_MAXLEN), Inr (RStr eid)))"

lemma dead_letter_guards: "guarded (dead_lettered m reason) is_ack (seq (dead_letter E R m reason) n)"
proof -
  have "guarded (dead_lettered m reason) is_ack (dead_letter E R m reason)"
    unfolding dead_letter_def
    by (intro guarded_bnd_est guarded_only) (auto simp: ensures_def call_defs call_eq dead_lettered_def intro!: only_rules)
  moreover have "ensures (dead_lettered m reason) (dead_letter E R m reason)"
    unfolding dead_letter_def
    by (intro ensures_bnd1) (auto simp: ensures_def call_defs call_eq dead_lettered_def)
  ultimately show ?thesis by (rule guarded_bnd_est)
qed

lemma only_bury_no_spawn: "only (\<lambda>ev. fst ev \<noteq> Proc (Spawn argv)) (bury E D user jid m reason)"
  unfolding bury_def dead_letter_def ack_def
  by (auto intro!: only_rules intro: only_weaken [OF only_store_service(6)])

lemma service_no_spawn: "service ev \<Longrightarrow> fst ev \<noteq> Proc (Spawn argv)"
  by (auto simp: service_def)

lemma bury_guards: "guarded (dead_lettered m reason) is_ack (bury E D user jid m reason)"
  unfolding bury_def
  by (intro guarded_bnd_seq guarded_only only_weaken [OF only_store_service(6)] dead_letter_guards)
    (simp add: not_ack_service)

lemma ack_acks: "ack E mid h = (Inr (), t) \<Longrightarrow> \<exists>a. (Redis (XAck JOB_STREAM CONSUMER_GROUP mid), a) \<in> set t"
  by (auto simp: ack_def bnd_Inr_eq call_defs call_eq)

lemma bury_acks:
  "bury E D user jid m reason h = (Inr (), t) \<Longrightarrow>
     \<exists>a. (Redis (XAck JOB_STREAM CONSUMER_GROUP (msg_id m)), a) \<in> set t"
  by (auto simp: bury_def dead_letter_def bnd_Inr_eq dest!: ack_acks)

lemma complete_acks:
  "complete E user jid mid h = (Inr (), t) \<Longrightarrow> \<exists>a. (Redis (XAck JOB_STREAM CONSUMER_GROUP mid), a) \<in> set t"
  by (auto simp: complete_def bnd_Inr_eq dest!: ack_acks)

text \<open>
  C15: A message delivered more often than the retry limit is not run again: no container is
  started for it, and its entry is acknowledged only after it has been copied, payload,
  reason and delivery count, to the dead-letter stream; when the handler returns, the entry
  is acknowledged.
\<close>

theorem exhausted_message_buried:
  assumes "process E D m h = (r, t)" "delivery_count m > max_retries (dcfg D)"
  shows "(\<forall>argv a. (Proc (Spawn argv), a) \<notin> set t) \<and>
     precedes (dead_lettered m (py ''max_retries_exceeded'')) is_ack t \<and>
     (r = Inr () \<longrightarrow> (\<exists>a. (Redis (XAck JOB_STREAM CONSUMER_GROUP (msg_id m)), a) \<in> set t))"
proof (cases "\<exists>jid user lang. process E D m =
    seq (finalize_failed E D jid lang (SandboxError (py ''max retries exceeded'') (py ''max_retries'')))
        (bury E D user jid m (py ''max_retries_exceeded''))")
  case True
  then obtain jid user lang where p: "process E D m =
    seq (finalize_failed E D jid lang (SandboxError (py ''max retries exceeded'') (py ''max_retries'')))
        (bury E D user jid m (py ''max_retries_exceeded''))" by blast
  have "only (\<lambda>ev. fst ev \<noteq> Proc (Spawn argv)) (process E D m)" for argv
    unfolding p finalize_failed_def
    by (intro only_bnd only_bury_no_spawn only_weaken [OF only_finalize_service] service_no_spawn)
  from only_trace [OF this assms(1)] have "\<forall>argv a. (Proc (Spawn argv), a) \<notin> set t" by fastforce
  moreover have "guarded (dead_lettered m (py ''max_retries_exceeded'')) is_ack (process E D m)"
    unfolding p finalize_failed_def by (intro guarded_bnd_seq guarded_only fin.store_quiet bury_guards)
  from guardedD [OF this assms(1)] have "precedes (dead_lettered m (py ''max_retries_exceeded'')) is_ack t" .
  moreover have "\<exists>a. (Redis (XAck JOB_STREAM CONSUMER_GROUP (msg_id m)), a) \<in> set t" if "r = Inr ()"
    using assms(1) that unfolding p by (auto simp: bnd_Inr_eq dest!: bury_acks)
  ultimately show ?thesis by blast
next
  case False
  then have "t = [] \<and> r \<noteq> Inr ()"
    using assms
    by (cases "message_job_id (str_of (dctx D)) m"; cases "message_user_id (str_of (dctx D)) m";
        cases "py_get (payload m) (py ''language'') JNull") (auto simp: process_def Let_def)
  then show ?thesis by simp
qed

text \<open>
  C17: A job whose cancellation flag is set when it is picked up is not run: no container is
  started, the only result that is ever stored for it is a KILLED one, and a handler that
  returns has stored that result and acknowledged the entry.
\<close>

theorem cancelled_before_pickup:
  assumes "process_request E D user jid m request h = (r, t)"
    and "ask_int E h (Redis (Exists (cancel_key jid))) = Inr n" "n \<noteq> 0"
  shows "(\<forall>argv a. (Proc (Spawn argv), a) \<notin> set t) \<and>
     (\<forall>res a. (Redis (Set (result_key jid) (dumps (result_to_dict res)) (Ex RESULT_TTL_SECONDS)), a) \<in> set t \<longrightarrow>
        status res = KILLED) \<and>
     (r = Inr () \<longrightarrow> list_ex (stored jid) t \<and>
        (\<exists>a. (Redis (XAck JOB_STREAM CONSUMER_GROUP (msg_id m)), a) \<in> set t))"
proof -
  let ?body = "seq (finalize_cancelled E D jid (language request)) (complete E user jid (msg_id m))"
  obtain t' where t: "t = (Redis (Exists (cancel_key jid)), Inr (RInt n)) # t'"
      "?body (h @ [(Redis (Exists (cancel_key jid)), Inr (RInt n))]) = (r, t')"
    using assms by (auto simp: process_request_def is_cancelled_def bnd_eq call_defs call_eq)
  let ?only_killed = "\<lambda>ev. (\<forall>argv. fst ev \<noteq> Proc (Spawn argv)) \<and>
     (\<forall>res. fst ev = Redis (Set (result_key jid) (dumps (result_to_dict res)) (Ex RESULT_TTL_SECONDS)) \<longrightarrow>
        status res = KILLED)"
  have "only ?only_killed ?body"
    unfolding finalize_cancelled_def finalize_def complete_def store_terminal_def archive_def patch_record_def
      get_record_def publish_done_def publish_def record_metrics_def release_slot_def ack_def Let_def
    by (auto intro!: only_rules simp: result_to_dict_inject new_result_def
        split: option.splits json.splits)
  from only_trace [OF this t(2)] have k: "\<And>ev. ev \<in> set t' \<Longrightarrow> ?only_killed ev" .
  have "list_ex (stored jid) t' \<and> (\<exists>a. (Redis (XAck JOB_STREAM CONSUMER_GROUP (msg_id m)), a) \<in> set t')"
    if "r = Inr ()"
    using t(2) that finalize_ensures [of "new_result jid KILLED" jid E D "language request"]
    by (auto simp: finalize_cancelled_def bnd_Inr_eq ensures_def dest!: complete_acks)
  with k show ?thesis unfolding t(1) by fastforce
qed

end
