(* ===== verification/Settlement.thy ===== *)
theory Settlement
  imports Worker
begin

text \<open>
  Progress of the message handler: when Redis serves and the job records are objects, every
  well-formed delivery ends acknowledged, whatever docker, the file system, MinIO and the
  program do; the one exception is an unreachable docker daemon, which leaves the entry
  pending.
\<close>

subsection \<open>Which exceptions can occur\<close>

text \<open>Libraries raise neither the sandbox's own exceptions nor task cancellation.\<close>

definition foreign :: "exn \<Rightarrow> bool" where
  "foreign e \<longleftrightarrow> is_Exception e \<and> \<not> is_SandboxError e"

definition library_errors :: "env \<Rightarrow> bool" where
  "library_errors E \<longleftrightarrow>
     (\<forall>h c e. (ask_unit E h c = Inl e \<longrightarrow> foreign e) \<and> (ask_int E h c = Inl e \<longrightarrow> foreign e) \<and>
       (ask_bool E h c = Inl e \<longrightarrow> foreign e) \<and> (ask_str E h c = Inl e \<longrightarrow> foreign e) \<and>
       (ask_proc E h c = Inl e \<longrightarrow> foreign e) \<and> (ask_wait E h c = Inl e \<longrightarrow> foreign e) \<and>
       (ask_time E h c = Inl e \<longrightarrow> foreign e) \<and> (ask_exit E h c = Inl e \<longrightarrow> foreign e) \<and>
       (ask_chunks E h c = Inl e \<longrightarrow> foreign e))"

definition ordinary :: "exn \<Rightarrow> bool" where
  "ordinary e \<longleftrightarrow> is_Exception e \<and> \<not> is_DockerUnavailableError e"

lemma foreign_ordinary: "foreign e \<Longrightarrow> ordinary e"
  by (auto simp: foreign_def ordinary_def)

lemma ordinary_simps [simp]:
  "ordinary UnicodeEncodeError" "ordinary ValueError" "ordinary (SandboxError msg cd)"
  "ordinary (UnknownLanguageError l)" "ordinary (ImageNotFoundError i)" "ordinary (ImageIntegrityError i a b)"
  by (simp_all add: ordinary_def is_Exception_def)

lemma raises_calls:
  assumes "library_errors E"
  shows "raises foreign (do_unit E c)" "raises foreign (get_int E c)" "raises foreign (get_bool E c)"
    "raises foreign (get_str E c)" "raises foreign (get_proc E c)" "raises foreign (get_wait E c)"
    "raises foreign (get_time E c)" "raises foreign (get_exit E c)" "raises foreign (get_chunks E c)"
  using assms unfolding library_errors_def call_defs by (auto intro!: raises_call)

lemma raisesD: "raises Q m \<Longrightarrow> m h = (Inl e, t) \<Longrightarrow> Q e"
  by (auto simp: raises_def)

lemmas ordinary_calls = raises_calls [THEN raises_weaken, OF _ foreign_ordinary]

lemmas raises_rules = raises_bnd raises_catch raises_suppress raises_finally raises_raise raises_lift

lemma ordinary_simple: "library_errors E \<Longrightarrow> raises ordinary (simple E argv)"
  unfolding simple_def by (rule ordinary_calls)

lemma ordinary_write_file: "library_errors E \<Longrightarrow> raises ordinary (write_file E X w n content)"
  unfolding write_file_def by (auto intro!: raises_rules ordinary_calls)

lemma ordinary_prepare: "library_errors E \<Longrightarrow> raises ordinary (prepare_workdir E X rt request jid)"
  unfolding prepare_workdir_def write_input_def
  by (auto intro!: raises_rules ordinary_calls raises_for_each ordinary_write_file split: option.splits)

lemma host_path_for_raises: "host_path_for cwd cfg p = Inl e \<Longrightarrow> e = ValueError"
  by (auto simp: host_path_for_def relpath_def ebind_Inl Let_def split: if_splits)

lemma ordinary_run_argv:
  assumes "library_errors E"
  shows "raises ordinary (run_argv E X rt request w c)"
proof -
  have "raises ordinary (seccomp_profile_path E environ tmp rt)" for environ tmp
    unfolding raises_def seccomp_profile_path_def profile_path_def Let_def
    using assms foreign_ordinary
    by (auto simp: bnd_eq call_defs call_eq library_errors_def split: prod.splits if_splits)
  then show ?thesis
    unfolding run_argv_def build_command_def
    by (auto intro!: raises_rules dest!: host_path_for_raises simp: ebind_Inl)
qed

lemma ordinary_await: "library_errors E \<Longrightarrow> raises ordinary (await_completion E X c timeout has_cancel)"
  unfolding await_completion_def terminate_def Let_def
  by (auto intro!: raises_rules ordinary_calls ordinary_simple)

subsection \<open>The pumps raise what the callback raises\<close>

definition callback_raises :: "(exn \<Rightarrow> bool) \<Rightarrow> on_output \<Rightarrow> bool" where
  "callback_raises Q cb \<longleftrightarrow> (\<forall>f k tx. cb = Some f \<longrightarrow> raises Q (f k tx))"

lemma capture_append_raises: "capture_append k tx c = Inl e \<Longrightarrow> e = UnicodeEncodeError"
  by (auto simp: capture_append_def Let_def split: if_splits)

lemma pump_iter_raised:
  assumes "callback_raises Q cb" "Q UnicodeEncodeError"
    and "\<forall>e. first_raised p = Some e \<longrightarrow> Q e" "pump_iter cb k chunk p h = (r, t)"
  shows "\<exists>p'. r = Inr p' \<and> (\<forall>e. first_raised p' = Some e \<longrightarrow> Q e)"
proof (cases rule: pump_iter_cases [of p k cb chunk h])
  case (encode_error tx rest e)
  then show ?thesis using assms(2-4) capture_append_raises [OF encode_error(4)]
    by (auto simp: pump_iter_def Let_def pump_raise_def split: option.splits)
next
  case (kept tx rest kept c t' p')
  have "Q e" if "cb = Some f" "fst (f k kept h) = Inl e" for f e
    using assms(1) that unfolding callback_raises_def raises_def by (metis prod.collapse)
  with kept assms(3,4) show ?thesis
    by (auto simp: pump_finish_def pump_raise_def split: option.splits)
qed (use assms(3,4) in \<open>auto simp: pump_finish_def\<close>)

lemma pump_schedule_raised:
  assumes "callback_raises Q cb" "Q UnicodeEncodeError"
  shows "\<forall>e. first_raised p = Some e \<longrightarrow> Q e \<Longrightarrow> pump_schedule cb s p h = (r, t) \<Longrightarrow>
    \<exists>p'. r = Inr p' \<and> (\<forall>e. first_raised p' = Some e \<longrightarrow> Q e)"
proof (induction s arbitrary: p h t)
  case (Cons x s)
  obtain k chunk where x: "x = (k, chunk)" by (cases x)
  obtain r1 t1 where it: "pump_iter cb k chunk p h = (r1, t1)" by fastforce
  then obtain p1 where p1: "r1 = Inr p1" "\<forall>e. first_raised p1 = Some e \<longrightarrow> Q e"
    using pump_iter_raised [OF assms Cons.prems(1)] by blast
  from Cons.prems(2) it p1(1) obtain t2 where "pump_schedule cb s p1 (h @ t1) = (r, t2)"
    by (auto simp: x bnd_eq)
  with Cons.IH [OF p1(2)] show ?case by blast
qed auto

lemma raises_run_pumps:
  assumes "callback_raises Q cb" "Q UnicodeEncodeError"
  shows "raises Q (run_pumps cb s n)"
proof -
  have "\<forall>e. first_raised (new_pumps n) = Some e \<longrightarrow> Q e" by (simp add: first_raised_new)
  from pump_schedule_raised [OF assms this] show ?thesis
    unfolding raises_def run_pumps_def by (fastforce simp: bnd_eq split: option.splits)
qed

lemma ordinary_attend:
  assumes "library_errors E" "callback_raises ordinary cb"
  shows "raises ordinary (attend E X rt request jid c cb has_cancel start)"
  unfolding attend_def Let_def
  using assms raises_run_pumps [OF assms(2)]
  by (auto intro!: raises_rules ordinary_calls ordinary_await raises_succeeds [OF sample_loop_succeeds])

lemma ordinary_run:
  assumes "library_errors E" "callback_raises ordinary cb"
  shows "raises ordinary (run E X rt request jid w c cb has_cancel)"
  unfolding run_def using assms
  by (auto intro!: raises_rules ordinary_calls ordinary_run_argv ordinary_attend)

lemma cleanup_succeeds: "library_errors E \<Longrightarrow> succeeds (cleanup E X c w)"
proof -
  assume "library_errors E"
  then have "raises is_Exception (seq (simple E argv) (ret ()))" for argv
    unfolding simple_def
    by (auto intro!: raises_rules raises_calls(5) [THEN raises_weaken] simp: foreign_def)
  then show ?thesis
    unfolding cleanup_def by (auto intro!: succeeds_bnd raises_suppress_all)
qed

text \<open>The daemon's error message as \<^verbatim>\<open>_verify_image\<close> recognises it.\<close>

definition daemon_down :: "ctx \<Rightarrow> pybytes \<Rightarrow> bool" where
  "daemon_down X err \<longleftrightarrow>
     contains (lower (ucd_of X) (utf8 err)) (py ''cannot connect to the docker daemon'') \<or>
     contains (lower (ucd_of X) (utf8 err)) (py ''is the docker daemon running'')"

definition docker_unreachable :: "ctx \<Rightarrow> event list \<Rightarrow> bool" where
  "docker_unreachable X t \<longleftrightarrow>
     (\<exists>img rc out err. rc \<noteq> 0 \<and> daemon_down X err \<and>
        (Proc (Simple [docker_path (config_of X), py ''image'', py ''inspect'', img, py ''--format'',
                       py ''{{json .RepoDigests}}'']), Inr (RProc rc out err)) \<in> set t)"

lemma verify_docker:
  assumes "library_errors E" "verify_image E X rt h = (Inl e, t)" "is_DockerUnavailableError e"
  shows "docker_unreachable X t"
  using assms
  by (auto simp: verify_image_def simple_def bnd_eq call_defs call_eq Let_def library_errors_def foreign_def
      docker_unreachable_def daemon_down_def split: if_splits)
    (metis DockerUnavailable_is_SandboxError)

lemma verify_exception: "library_errors E \<Longrightarrow> raises is_Exception (verify_image E X rt)"
  unfolding verify_image_def Let_def simple_def
  by (auto intro!: raises_rules raises_calls(5) [THEN raises_weaken] simp: foreign_def is_Exception_def
      split: prod.splits)

lemma execute_raises:
  assumes "library_errors E" "callback_raises ordinary cb"
    and "execute E X request jid cb has_cancel h = (Inl e, t)"
  shows "is_Exception e \<and> (is_DockerUnavailableError e \<longrightarrow> docker_unreachable X t)"
  using assms(3)
proof (cases rule: execute_cases)
  case (unknown e')
  then show ?thesis by (auto simp: get_runtime_def is_Exception_def split: option.splits)
next
  case (unverified rt e')
  then show ?thesis
    using verify_docker [OF assms(1) unverified(2)] raisesD [OF verify_exception [OF assms(1)] unverified(2)] by auto
next
  case (unprepared rt tv tp e')
  then show ?thesis using raisesD [OF ordinary_prepare [OF assms(1)] unprepared(3)] by (auto simp: ordinary_def)
next
  case (ran rt tv tp w r1 tr r2 tc)
  have "r2 = Inr ()" using cleanup_succeeds [OF assms(1)] ran(5) by (metis prod.inject succeedsE old.unit.exhaust)
  with ran have "run E X rt request jid w (py ''sandbox-'' @ jid) cb has_cancel (h @ tv @ tp) = (Inl e, tr)"
    by simp
  from raisesD [OF ordinary_run [OF assms(1,2)] this] show ?thesis by (simp add: ordinary_def)
qed

subsection \<open>Redis serves\<close>

text \<open>Every Redis call answers, and every stored job record is an object, \<^verbatim>\<open>null\<close> or not JSON.\<close>

fun record_text :: "json_text option \<Rightarrow> bool" where
  "record_text (Some (Text (JObj _))) = True"
| "record_text (Some (Text JNull)) = True"
| "record_text (Some (Text _)) = False"
| "record_text _ = True"

definition redis_serves :: "env \<Rightarrow> bool" where
  "redis_serves E \<longleftrightarrow>
     (\<forall>h c. is_ok (ask_unit E h (Redis c)) \<and> is_ok (ask_int E h (Redis c)) \<and> is_ok (ask_str E h (Redis c)) \<and>
       (\<exists>raw. ask_text E h (Redis c) = Inr raw \<and> record_text raw) \<and> is_ok (ask_str E h NowIso))"

lemma redis_calls_succeed:
  assumes "redis_serves E"
  shows "succeeds (do_unit E (Redis c))" "succeeds (get_int E (Redis c))" "succeeds (get_str E (Redis c))"
    "succeeds (get_str E NowIso)"
  using assms unfolding redis_serves_def call_defs by (auto intro!: succeeds_call)

lemma succeeds_bnd_value:
  assumes "\<And>h. \<exists>a t. m h = (Inr a, t) \<and> P a" "\<And>a. P a \<Longrightarrow> succeeds (f a)"
  shows "succeeds (bnd m f)"
proof (rule succeedsI)
  fix h
  obtain a t where m: "m h = (Inr a, t)" "P a" using assms(1) by blast
  obtain b t' where "f a (h @ t) = (Inr b, t')" using assms(2) [OF m(2)] by (rule succeedsE)
  with m show "\<exists>b t. bnd m f h = (Inr b, t)" by (simp add: bnd_def)
qed

lemma patch_succeeds:
  assumes "redis_serves E"
  shows "succeeds (patch_record E jid kvs)"
  unfolding patch_record_def
proof (rule succeeds_bnd_value)
  fix h
  obtain raw where "ask_text E h (Redis (Get (job_record_key jid))) = Inr raw" "record_text raw"
    using assms unfolding redis_serves_def by blast
  then show "\<exists>a t. get_record E jid h = (Inr a, t) \<and> (a = None \<or> (\<exists>d. a = Some (JObj d)))"
    by (cases raw rule: record_text.cases)
      (simp_all add: get_record_def bnd_def call_defs call_def ret_def loads_def)
next
  fix a :: "json option"
  assume "a = None \<or> (\<exists>d. a = Some (JObj d))"
  then show "succeeds (case a of None \<Rightarrow> ret None
      | Some (JObj d) \<Rightarrow> bnd (get_str E NowIso) (\<lambda>now.
          let new = JObj (dict_set (dict_update d kvs) (py ''updated_at'') (JStr now))
          in seq (do_unit E (Redis (Set (job_record_key jid) (dumps new) KeepTtl))) (ret (Some new)))
      | Some _ \<Rightarrow> raise AttributeError)"
    using redis_calls_succeed [OF assms] by (auto simp: Let_def intro!: succeeds_bnd)
qed

lemma finalize_succeeds:
  assumes "redis_serves E" "library_errors E"
  shows "succeeds (finalize E D jid lang res)"
proof -
  have "succeeds (archive E S jid res)" for S
    unfolding archive_def
    by (auto intro!: raises_suppress_all raises_calls(1) [OF assms(2), THEN raises_weaken] simp: foreign_def)
  then show ?thesis
    unfolding finalize_def store_terminal_def publish_done_def publish_def record_metrics_def
    using redis_calls_succeed [OF assms(1)] patch_succeeds [OF assms(1)] by (auto intro!: succeeds_bnd)
qed

lemma release_succeeds: "redis_serves E \<Longrightarrow> succeeds (release_slot E user jid)"
  unfolding release_slot_def using redis_calls_succeed [of E] by (auto intro!: succeeds_suppress succeeds_bnd)

lemma complete_succeeds: "redis_serves E \<Longrightarrow> succeeds (complete E user jid mid)"
  unfolding complete_def ack_def using redis_calls_succeed [of E] release_succeeds [of E] by (auto intro!: succeeds_bnd)

lemma bury_succeeds:
  assumes "redis_serves E" "message_job_id (str_of (dctx D)) m = Inr jid"
  shows "succeeds (bury E D user jid m reason)"
  unfolding bury_def dead_letter_def ack_def
  using redis_calls_succeed [OF assms(1)] release_succeeds [OF assms(1)] assms(2) by (auto intro!: succeeds_bnd)

subsection \<open>Every delivery is settled\<close>

lemma publish_output_raises: "library_errors E \<Longrightarrow> callback_raises ordinary (Some (publish_output E jid))"
  unfolding callback_raises_def publish_output_def publish_def
  by (auto intro!: raises_bnd ordinary_calls)

lemma watcher_ordinary: "library_errors E \<Longrightarrow> raises ordinary (join_watcher E jid)"
proof -
  assume lib: "library_errors E"
  have "raises ordinary (watch_cancel E jid n)" for n
    by (induction n) (auto simp: is_cancelled_def intro!: raises_bnd ordinary_calls [OF lib])
  then show ?thesis
    unfolding join_watcher_def by (auto intro!: raises_rules ordinary_calls [OF lib])
qed

lemma patch_ordinary:
  assumes "redis_serves E"
  shows "raises ordinary (set_running E jid wid)" "raises ordinary (publish_status E jid st)"
  using patch_succeeds [OF assms] redis_calls_succeed [OF assms]
  unfolding set_running_def publish_status_def publish_def
  by (auto intro!: raises_succeeds succeeds_bnd)

lemma run_job_raises:
  assumes lib: "library_errors E" and red: "redis_serves E"
    and run: "run_job E D jid request h = (Inl e, t)"
  shows "is_Exception e \<and> (is_DockerUnavailableError e \<longrightarrow> docker_unreachable (dctx D) t)"
proof -
  let ?ex = "execute E (dctx D) request jid (Some (publish_output E jid)) True"
  let ?fin = "seq (join_watcher E jid) (metric ''sandbox_jobs_in_flight'' Dec [] 1)"
  have fin: "raises ordinary ?fin"
    by (intro raises_bnd watcher_ordinary [OF lib] raises_trivial)
  have "\<not> (\<exists>h t. finalize E D jid (language request) res h = (Inl e, t))" for res
    using finalize_succeeds [OF red lib] by (metis Inl_Inr_False prod.inject succeedsE)
  with run consider (early) "ordinary e"
    | (late) h1 t1 where "try_finally ?ex ?fin h1 = (Inl e, t1)" "set t1 \<subseteq> set t"
    unfolding run_job_def
    using raisesD [OF patch_ordinary(1) [OF red]] raisesD [OF patch_ordinary(2) [OF red]]
    by (auto simp: bnd_eq metric_def) blast+
  then show ?thesis
  proof cases
    case early
    then show ?thesis by (simp add: ordinary_def)
  next
    case (late h1 t1)
    then obtain r1 te r2 tf where ex: "?ex h1 = (r1, te)" "?fin (h1 @ te) = (r2, tf)" "t1 = te @ tf"
        "Inl e = (case r2 of Inl e \<Rightarrow> Inl e | Inr _ \<Rightarrow> r1)"
      by (auto simp: try_finally_eq)
    show ?thesis
    proof (cases r2)
      case (Inl e')
      then show ?thesis using raisesD [OF fin, of "h1 @ te"] ex by (auto simp: ordinary_def)
    next
      case (Inr u)
      then have "?ex h1 = (Inl e, te)" using ex by simp
      from execute_raises [OF lib publish_output_raises [OF lib] this] ex(3) late(2) show ?thesis
        by (auto simp: docker_unreachable_def) blast
    qed
  qed
qed

lemma process_request_settles:
  assumes lib: "library_errors E" and red: "redis_serves E"
  shows "\<exists>t. process_request E D user jid m request h = (Inr (), t) \<and>
     ((\<exists>a. (Redis (XAck JOB_STREAM CONSUMER_GROUP (msg_id m)), a) \<in> set t) \<or> docker_unreachable (dctx D) t)"
proof -
  note ok = complete_succeeds [OF red] finalize_succeeds [OF red lib]
  have fin: "\<exists>t. seq (finalize E D jid lang res) (complete E user jid (msg_id m)) h = (Inr (), t) \<and>
      (\<exists>a. (Redis (XAck JOB_STREAM CONSUMER_GROUP (msg_id m)), a) \<in> set t)" for lang res h
  proof -
    obtain t1 where 1: "finalize E D jid lang res h = (Inr (), t1)" using ok(2) by (metis (full_types) succeedsE old.unit.exhaust)
    obtain t2 where 2: "complete E user jid (msg_id m) (h @ t1) = (Inr (), t2)"
      using ok(1) by (metis (full_types) succeedsE old.unit.exhaust)
    from 1 2 complete_acks [OF 2] show ?thesis by (auto simp: bnd_def)
  qed
  obtain n where n: "ask_int E h (Redis (Exists (cancel_key jid))) = Inr n"
    using red unfolding redis_serves_def is_ok_def by (metis sum.case_eq_if sum.collapse(2) sum.disc_eq_case(1))
  let ?t0 = "[(Redis (Exists (cancel_key jid)), Inr (RInt n))]"
  have step: "process_request E D user jid m request h = (let (r, t) =
      (if n \<noteq> 0 then seq (finalize_cancelled E D jid (language request)) (complete E user jid (msg_id m))
       else catch (seq (run_job E D jid request) (complete E user jid (msg_id m)))
         (\<lambda>e. if is_DockerUnavailableError e then Some (ret ())
              else if is_Exception e
              then Some (seq (finalize_failed E D jid (language request) e) (complete E user jid (msg_id m)))
              else None)) (h @ ?t0) in (r, ?t0 @ t))"
    by (simp add: process_request_def is_cancelled_def bnd_def call_defs call_def ret_def n)
  show ?thesis
  proof (cases "n \<noteq> 0")
    case True
    with step fin [of "language request" "new_result jid KILLED" "h @ ?t0"] show ?thesis
      by (auto simp: finalize_cancelled_def)
  next
    case False
    obtain r t where run: "run_job E D jid request (h @ ?t0) = (r, t)" by fastforce
    show ?thesis
    proof (cases r)
      case (Inl e)
      from run_job_raises [OF lib red run [unfolded Inl]] False step run Inl
        fin [of "language request" "failed_result jid e" "h @ ?t0 @ t"] show ?thesis
        by (auto simp: catch_def bnd_def ret_def finalize_failed_def docker_unreachable_def)
    next
      case (Inr u)
      obtain t2 where 2: "complete E user jid (msg_id m) (h @ ?t0 @ t) = (Inr (), t2)"
        using ok(1) by (metis (full_types) succeedsE old.unit.exhaust)
      from False step run Inr 2 complete_acks [OF 2] show ?thesis
        by (auto simp: catch_def bnd_def)
    qed
  qed
qed

text \<open>
  C3: Deliveries are settled. If Redis answers and holds objects as job records, the
  libraries raise no cancellation and none of the sandbox's own exceptions, every command
  answers, the payload is an object and its request parses or fails with one of the four
  exceptions that count as malformed, then whatever docker, the file system, MinIO and the
  program answer, handling the message returns normally, and the entry is acknowledged or
  docker reported its daemon unreachable.
\<close>

theorem process_settles:
  assumes "library_errors E" "redis_serves E" "payload m = JObj d"
    and "\<forall>e. ebind (py_item (payload m) (py ''request'')) (request_from_dict (ucd_of (dctx D)) (str_of (dctx D)))
         = Inl e \<longrightarrow> malformed e"
  shows "\<exists>t. process E D m h = (Inr (), t) \<and>
     ((\<exists>a. (Redis (XAck JOB_STREAM CONSUMER_GROUP (msg_id m)), a) \<in> set t) \<or> docker_unreachable (dctx D) t)"
proof -
  let ?R = "str_of (dctx D)"
  obtain jid user lang where ids: "message_job_id ?R m = Inr jid" "message_user_id ?R m = Inr user"
      "py_get (payload m) (py ''language'') JNull = Inr lang"
    using assms(3) by (simp add: message_job_id_def message_user_id_def py_get_def)
  have bury: "\<exists>t. seq q (bury E D user jid m reason) h = (Inr (), t) \<and>
      (\<exists>a. (Redis (XAck JOB_STREAM CONSUMER_GROUP (msg_id m)), a) \<in> set t)"
    if q: "succeeds q" for q :: "unit io" and reason
  proof -
    obtain u t1 where 1: "q h = (Inr u, t1)" using q by (rule succeedsE)
    obtain t2 where 2: "bury E D user jid m reason (h @ t1) = (Inr (), t2)"
      using bury_succeeds [OF assms(2) ids(1)] by (metis (full_types) succeedsE old.unit.exhaust)
    from 1 2 bury_acks [OF 2] show ?thesis by (auto simp: bnd_def)
  qed
  have fin: "succeeds (finalize_failed E D jid l e)" for l e
    unfolding finalize_failed_def by (rule finalize_succeeds [OF assms(2,1)])
  show ?thesis
  proof (cases "max_retries (dcfg D) < delivery_count m")
    case True
    with bury [OF fin, of "py_str ?R (py_or lang (JStr (py ''unknown'')))"
        "SandboxError (py ''max retries exceeded'') (py ''max_retries'')" "py ''max_retries_exceeded''"] ids
    show ?thesis by (auto simp: process_def Let_def)
  next
    case False
    show ?thesis
    proof (cases "ebind (py_item (payload m) (py ''request'')) (request_from_dict (ucd_of (dctx D)) ?R)")
      case (Inl e)
      with assms(4) have "malformed e" by blast
      with False ids Inl bury [OF fin, of "py ''unknown''" "SandboxError (py ''malformed payload'') (py ''malformed_payload'')"
          "py ''malformed_payload''"] bury [OF succeeds_ret, of "()" "py ''malformed_payload''"] show ?thesis
        by (auto simp: process_def Let_def)
    next
      case (Inr request)
      with False ids process_request_settles [OF assms(1,2), of D user jid m request h] show ?thesis
        by (simp add: process_def Let_def)
    qed
  qed
qed

definition sample_daemon :: daemon where
  "sample_daemon = \<lparr>dctx = sample_ctx, dstore = \<lparr>has_minio = True, bucket = py ''artifacts''\<rparr>\<rparr>"

definition sample_message :: queue_message where
  "sample_message =
     \<lparr>msg_id = py ''7-0'',
      payload = JObj [(py ''job_id'', JStr (py ''j1'')), (py ''user_id'', JStr (py ''u1'')),
                      (py ''request'', request_payload sample_request)],
      delivery_count = 1\<rparr>"

lemma calm_ok: "library_errors calm" "redis_serves calm"
  by (auto simp: library_errors_def redis_serves_def calm_def foreign_def is_Exception_def is_SandboxError_def
      split: cmd.splits fs_cmd.splits)

lemma sample_message_simps [simp]:
  "message_job_id R sample_message = Inr (py ''j1'')" "message_user_id R sample_message = Inr (py ''u1'')"
  "py_item (payload sample_message) (py ''request'') = Inr (request_payload sample_request)"
  by (simp_all add: message_job_id_def message_user_id_def sample_message_def py_get_def py_item_def py_str_def
      py_or_def)

lemma sample_request_read: "request_from_dict U R (request_payload sample_request) = Inr sample_request"
  by (simp add: request_from_dict_def request_payload_def sample_request_def py_get_def py_item_def py_iter_def
      py_int_def py_str_def py_or_def env_items_def)

theorem process_settles_witness:
  "\<exists>t. process calm sample_daemon sample_message [] = (Inr (), t) \<and>
     ((\<exists>a. (Redis (XAck JOB_STREAM CONSUMER_GROUP (py ''7-0'')), a) \<in> set t) \<or> docker_unreachable sample_ctx t)"
proof -
  have p: "payload sample_message = JObj [(py ''job_id'', JStr (py ''j1'')), (py ''user_id'', JStr (py ''u1'')),
      (py ''request'', request_payload sample_request)]" "msg_id sample_message = py ''7-0''"
      "dctx sample_daemon = sample_ctx"
    by (simp_all add: sample_message_def sample_daemon_def)
  have "\<forall>e. ebind (py_item (payload sample_message) (py ''request''))
      (request_from_dict (ucd_of (dctx sample_daemon)) (str_of (dctx sample_daemon))) = Inl e \<longrightarrow> malformed e"
    by (simp add: sample_request_read)
  from process_settles [OF calm_ok p(1) this, of "[]"] p show ?thesis by simp
qed

subsection \<open>An unreachable docker daemon\<close>

text \<open>Of all writes, only job records.\<close>

definition only_records :: "pystr \<Rightarrow> event \<Rightarrow> bool" where
  "only_records jid ev \<longleftrightarrow> (\<forall>k v md. fst ev = Redis (Set k v md) \<longrightarrow> k = job_record_key jid)"

lemma record_not_stored: "only_records jid ev \<Longrightarrow> \<not> stored jid ev"
  by (auto simp: only_records_def stored_def job_record_key_def result_key_def py_def)

lemma only_records_parts:
  "only (only_records jid) (set_running E jid wid)" "only (only_records jid) (publish_status E jid st)"
  "only (only_records jid) (join_watcher E jid)"
  "only (only_records jid) (execute E X request jid (Some (publish_output E jid)) has_cancel)"
proof -
  show "only (only_records jid) (set_running E jid wid)"
    unfolding set_running_def patch_record_def get_record_def Let_def
    by (auto intro!: only_rules simp: only_records_def split: option.splits json.splits)
  show "only (only_records jid) (publish_status E jid st)"
    unfolding publish_status_def publish_def by (auto intro!: only_rules simp: only_records_def)
  have "only (only_records jid) (watch_cancel E jid n)" for n
    by (induction n) (auto intro!: only_rules simp: is_cancelled_def only_records_def)
  then show "only (only_records jid) (join_watcher E jid)"
    unfolding join_watcher_def by (auto intro!: only_rules simp: only_records_def)
  show "only (only_records jid) (execute E X request jid (Some (publish_output E jid)) has_cancel)"
    by (rule only_execute)
      (auto simp: only_records_def publish_output_def publish_def intro!: only_rules)
qed

lemma finalize_ordinary:
  assumes "library_errors E" "redis_serves E"
  shows "raises ordinary (finalize E D jid lang res)"
  by (rule raises_succeeds [OF finalize_succeeds [OF assms(2,1)]])

lemma outage_run_keeps:
  assumes "library_errors E" "redis_serves E"
    and "process_request E D user jid m request h = (r, t)"
    and "ask_int E h (Redis (Exists (cancel_key jid))) = Inr 0"
    and "run_job E D jid request (h @ [(Redis (Exists (cancel_key jid)), Inr (RInt 0))])
           = (Inl (DockerUnavailableError detail), t1)"
  shows "r = Inr () \<and> (\<forall>ev \<in> set t. \<not> is_ack ev \<and> \<not> stored jid ev \<and>
           (\<forall>fs n. fst ev \<noteq> Redis (XAdd DEAD_LETTER_STREAM fs n)))"
proof -
  let ?ev = "(Redis (Exists (cancel_key jid)), Inr (RInt 0))"
  have t: "r = Inr ()" "t = ?ev # t1"
    using assms(3-5)
    by (auto simp: process_request_def is_cancelled_def bnd_def call_defs call_def ret_def catch_def)
  have quiet: "service ev \<or> local_cmd (fst ev)" if "ev \<in> set t1" for ev
    using only_trace [OF only_run_job assms(5) that] .
  have "only_records jid ev" if "ev \<in> set t1" for ev
  proof -
    let ?fin = "seq (join_watcher E jid) (metric ''sandbox_jobs_in_flight'' Dec [] 1)"
    let ?pre = "seq (metric ''sandbox_jobs_in_flight'' Inc [] 1) (seq (set_running E jid (worker_id (dcfg D)))
      (seq (publish_status E jid RUNNING)
        (try_finally (execute E (dctx D) request jid (Some (publish_output E jid)) True) ?fin)))"
    have rec: "only (only_records jid) ?pre"
      by (auto intro!: only_rules only_finally only_records_parts simp: only_records_def)
    have "run_job E D jid request = bnd ?pre (\<lambda>res. finalize E D jid (language request) res)"
      by (simp add: run_job_def bnd_assoc)
    moreover have "\<not> (\<exists>res h t. finalize E D jid (language request) res h = (Inl (DockerUnavailableError detail), t))"
      using raisesD [OF finalize_ordinary [OF assms(1,2)]] by (fastforce simp: ordinary_def)
    ultimately have "?pre (h @ [?ev]) = (Inl (DockerUnavailableError detail), t1)"
      using assms(5) by (auto simp: bnd_eq)
    from only_trace [OF rec this that] show ?thesis .
  qed
  then have "\<not> stored jid ev" if "ev \<in> set t1" for ev
    using that record_not_stored by blast
  moreover have "fst ev \<noteq> Redis (XAdd s fs n)" if "ev \<in> set t1" for ev s fs n
    using quiet [OF that] by (auto simp: service_def)
  moreover have "\<not> stored jid ?ev" by (simp add: stored_def)
  ultimately show ?thesis
    unfolding t using quiet not_ack_service by auto
qed

text \<open>Sleeping and counting polls, which are the event loop's own, do not raise.\<close>

definition loop_serves :: "env \<Rightarrow> bool" where
  "loop_serves E \<longleftrightarrow> (\<forall>h d. is_ok (ask_int E h (Task WatchPolls)) \<and> is_ok (ask_unit E h (Sleep d)))"

text \<open>The answer of docker to the image check while the daemon is down.\<close>

definition docker_down :: "env \<Rightarrow> ctx \<Rightarrow> runtime_config \<Rightarrow> bool" where
  "docker_down E X rt \<longleftrightarrow>
     (\<forall>h. \<exists>rc out err. rc \<noteq> 0 \<and> daemon_down X err \<and>
        ask_proc E h (Proc (Simple [docker_path (config_of X), py ''image'', py ''inspect'', rt_image rt, py ''--format'',
          py ''{{json .RepoDigests}}''])) = Inr (rc, out, err))"

lemma watcher_succeeds:
  assumes "redis_serves E" "loop_serves E"
  shows "succeeds (join_watcher E jid)"
proof -
  have sleep: "succeeds (do_unit E (Sleep d))" and polls: "succeeds (get_int E (Task WatchPolls))" for d
    using assms(2) unfolding loop_serves_def call_defs by (auto intro!: succeeds_call)
  have "succeeds (watch_cancel E jid n)" for n
    using redis_calls_succeed [OF assms(1)] sleep
    by (induction n) (auto simp: is_cancelled_def intro!: succeeds_bnd)
  then show ?thesis unfolding join_watcher_def using polls by (auto intro!: succeeds_bnd succeeds_suppress)
qed

lemma outage_run_job:
  assumes "redis_serves E" "loop_serves E"
    and "get_runtime (registry_of (dctx D)) (language request) = Inr rt" "docker_down E (dctx D) rt"
  shows "\<exists>detail t. run_job E D jid request h = (Inl (DockerUnavailableError detail), t)"
proof -
  let ?fin = "seq (join_watcher E jid) (metric ''sandbox_jobs_in_flight'' Dec [] 1)"
  have verify: "\<exists>detail t. verify_image E (dctx D) rt h = (Inl (DockerUnavailableError detail), t)" for h
  proof -
    obtain rc out err where "rc \<noteq> 0" "daemon_down (dctx D) err"
      "ask_proc E h (Proc (Simple [docker_path (dcfg D), py ''image'', py ''inspect'', rt_image rt, py ''--format'',
          py ''{{json .RepoDigests}}''])) = Inr (rc, out, err)" using assms(4) unfolding docker_down_def by blast
    then show ?thesis
      by (auto simp: verify_image_def simple_def bnd_def call_defs call_def raise_def Let_def daemon_down_def)
  qed
  have ex: "\<exists>detail t. execute E (dctx D) request jid cb True h = (Inl (DockerUnavailableError detail), t)" for cb h
    using verify [of h] assms(3) by (auto simp: execute_def bnd_def)
  have fin: "succeeds ?fin" using watcher_succeeds [OF assms(1,2)] by (auto intro!: succeeds_bnd)
  have job: "\<exists>detail t. try_finally (execute E (dctx D) request jid cb True) ?fin h = (Inl (DockerUnavailableError detail), t)"
    for cb h
  proof -
    obtain detail t where t: "execute E (dctx D) request jid cb True h = (Inl (DockerUnavailableError detail), t)"
      using ex by blast
    obtain u t' where "?fin (h @ t) = (Inr u, t')" using fin by (rule succeedsE)
    with t show ?thesis by (simp add: try_finally_def)
  qed
  have "succeeds (set_running E jid wid)" for wid
    unfolding set_running_def using patch_succeeds [OF assms(1)] by (auto intro!: succeeds_bnd)
  moreover have "succeeds (publish_status E jid st)" for st
    unfolding publish_status_def publish_def using redis_calls_succeed [OF assms(1)] by (auto intro!: succeeds_bnd)
  ultimately have pre: "succeeds (seq (metric ''sandbox_jobs_in_flight'' Inc [] 1)
      (seq (set_running E jid (worker_id (dcfg D))) (publish_status E jid RUNNING)))"
    by (auto intro!: succeeds_bnd)
  obtain u t0 where "seq (metric ''sandbox_jobs_in_flight'' Inc [] 1)
      (seq (set_running E jid (worker_id (dcfg D))) (publish_status E jid RUNNING)) h = (Inr u, t0)"
    using pre by (rule succeedsE)
  moreover obtain detail t1 where
    "try_finally (execute E (dctx D) request jid (Some (publish_output E jid)) True) ?fin (h @ t0)
       = (Inl (DockerUnavailableError detail), t1)" using job by blast
  moreover have "run_job E D jid request = bnd (seq (metric ''sandbox_jobs_in_flight'' Inc [] 1)
      (seq (set_running E jid (worker_id (dcfg D))) (publish_status E jid RUNNING)))
      (\<lambda>_. bnd (try_finally (execute E (dctx D) request jid (Some (publish_output E jid)) True) ?fin)
        (\<lambda>res. finalize E D jid (language request) res))"
    by (simp add: run_job_def bnd_assoc)
  ultimately show ?thesis by (simp add: bnd_Inl bnd_Inr)
qed

text \<open>
  C13: While the docker daemon is down a job is not lost. If docker answers the image check
  with an error that says the daemon cannot be reached or asks whether it is running, a
  delivery within the retry limit of a job that is not cancelled is handled without error
  and without acknowledging, deleting or dead-lettering the entry and without storing a
  result: the entry stays pending and is delivered again.
\<close>

theorem docker_outage_keeps_message:
  assumes "library_errors E" "redis_serves E" "loop_serves E"
    and "message_job_id (str_of (dctx D)) m = Inr jid" "message_user_id (str_of (dctx D)) m = Inr user"
    and "delivery_count m \<le> max_retries (dcfg D)"
    and "ebind (py_item (payload m) (py ''request'')) (request_from_dict (ucd_of (dctx D)) (str_of (dctx D))) = Inr request"
    and "ask_int E h (Redis (Exists (cancel_key jid))) = Inr 0"
    and "get_runtime (registry_of (dctx D)) (language request) = Inr rt" "docker_down E (dctx D) rt"
  shows "\<exists>t. process E D m h = (Inr (), t) \<and> (\<forall>ev \<in> set t. \<not> is_ack ev \<and> \<not> stored jid ev \<and>
           (\<forall>fs n. fst ev \<noteq> Redis (XAdd DEAD_LETTER_STREAM fs n)))"
proof -
  obtain r t where p: "process_request E D user jid m request h = (r, t)" by fastforce
  obtain detail t1 where run: "run_job E D jid request (h @ [(Redis (Exists (cancel_key jid)), Inr (RInt 0))])
      = (Inl (DockerUnavailableError detail), t1)"
    using outage_run_job [OF assms(2,3,9,10)] by blast
  have "process E D m h = process_request E D user jid m request h"
    using assms(4-7) by (simp add: process_def Let_def)
  with outage_run_keeps [OF assms(1,2) p assms(8) run] p show ?thesis by auto
qed

text \<open>The sample submission while docker reports that its daemon cannot be reached.\<close>

definition outage_env :: env where
  "outage_env = calm\<lparr>ask_proc := (\<lambda>_ _. Inr (1, [], py ''Cannot connect to the Docker daemon''))\<rparr>"

lemma outage_sel [simp]:
  "ask_proc outage_env h c = Inr (1, [], py ''Cannot connect to the Docker daemon'')"
  "ask_unit outage_env h c = Inr ()" "ask_int outage_env h c = Inr 0" "ask_text outage_env h c = Inr None"
  by (simp_all add: outage_env_def)

lemma outage_message:
  "contains (lower no_unicode (utf8 (py ''Cannot connect to the Docker daemon'')))
     (py ''cannot connect to the docker daemon'')"
proof -
  have "utf8 (py ''Cannot connect to the Docker daemon'') = py ''Cannot connect to the Docker daemon''"
    by (subst decode_ascii) (simp_all add: py_def)
  then show ?thesis by (simp add: py_def lower_def lower_char_def startswith_def)
qed

lemma outage_ok: "library_errors outage_env" "redis_serves outage_env"
  by (auto simp: library_errors_def redis_serves_def outage_env_def calm_def foreign_def is_Exception_def
      is_SandboxError_def split: cmd.splits fs_cmd.splits)

theorem docker_outage_keeps_message_witness:
  "\<exists>t. process outage_env sample_daemon sample_message [] = (Inr (), t) \<and> (\<forall>ev \<in> set t. \<not> is_ack ev)"
proof -
  have "loop_serves outage_env" by (simp add: loop_serves_def)
  moreover have "delivery_count sample_message \<le> max_retries (dcfg sample_daemon)"
    by (simp add: sample_message_def sample_daemon_def sample_ctx_def sample_config_def)
  moreover have "ebind (py_item (payload sample_message) (py ''request''))
      (request_from_dict (ucd_of (dctx sample_daemon)) (str_of (dctx sample_daemon))) = Inr sample_request"
    by (simp add: sample_request_read)
  moreover have "get_runtime (registry_of (dctx sample_daemon)) (language sample_request) = Inr sample_rt"
    by (simp add: sample_daemon_def)
  moreover have "docker_down outage_env (dctx sample_daemon) sample_rt"
    using outage_message by (simp add: docker_down_def daemon_down_def sample_daemon_def)
  moreover have "ask_int outage_env [] (Redis (Exists (cancel_key (py ''j1'')))) = Inr 0" by simp
  ultimately show ?thesis
    using docker_outage_keeps_message [OF outage_ok _ sample_message_simps(1,2)] by blast
qed

subsection \<open>Concrete deliveries\<close>

definition exhausted_message :: queue_message where
  "exhausted_message = sample_message\<lparr>delivery_count := 4\<rparr>"

lemma exhausted_simps [simp]:
  "message_job_id R exhausted_message = Inr (py ''j1'')" "message_user_id R exhausted_message = Inr (py ''u1'')"
  "delivery_count exhausted_message = 4" "max_retries (dcfg sample_daemon) = 3"
  "\<exists>l. py_get (payload exhausted_message) (py ''language'') JNull = Inr l"
  by (simp_all add: exhausted_message_def message_job_id_def message_user_id_def sample_message_def py_get_def
      py_str_def py_or_def sample_daemon_def sample_config_def sample_ctx_def)

lemma exhausted_run:
  "\<exists>t t1 ev t2. process calm sample_daemon exhausted_message [] = (Inr (), t) \<and> t = t1 @ ev # t2 \<and> is_ack ev"
proof -
  obtain l where l: "py_get (payload exhausted_message) (py ''language'') JNull = Inr l" using exhausted_simps(5) ..
  let ?fin = "finalize_failed calm sample_daemon (py ''j1'')
     (py_str (str_of (dctx sample_daemon)) (py_or l (JStr (py ''unknown''))))
     (SandboxError (py ''max retries exceeded'') (py ''max_retries''))"
  obtain t1 where 1: "?fin [] = (Inr (), t1)"
    using finalize_succeeds [OF calm_ok(2,1)] unfolding finalize_failed_def
    by (metis (full_types) succeedsE old.unit.exhaust)
  obtain t2 where 2: "bury calm sample_daemon (py ''u1'') (py ''j1'') exhausted_message (py ''max_retries_exceeded'') t1
      = (Inr (), t2)"
    using bury_succeeds [OF calm_ok(2) exhausted_simps(1)] by (metis (full_types) succeedsE old.unit.exhaust)
  have p: "process calm sample_daemon exhausted_message [] = (Inr (), t1 @ t2)"
    using 1 2 l by (simp add: process_def Let_def bnd_def)
  obtain a where "(Redis (XAck JOB_STREAM CONSUMER_GROUP (msg_id exhausted_message)), a) \<in> set (t1 @ t2)"
    using bury_acks [OF 2] by auto
  then obtain u v where "t1 @ t2 = u @ (Redis (XAck JOB_STREAM CONSUMER_GROUP (msg_id exhausted_message)), a) # v"
    by (meson split_list)
  with p show ?thesis by (intro exI conjI) (assumption, assumption, simp)
qed

theorem ack_after_result_witness:
  "\<exists>t t1 ev t2 res. process calm sample_daemon exhausted_message [] = (Inr (), t) \<and> t = t1 @ ev # t2 \<and> is_ack ev \<and>
     terminal (status res) \<and> (Redis (Set (result_key (py ''j1'')) (dumps (result_to_dict res))
       (Ex RESULT_TTL_SECONDS)), Inr RUnit) \<in> set t1"
proof -
  obtain t t1 ev t2 where p: "process calm sample_daemon exhausted_message [] = (Inr (), t)"
      "t = t1 @ ev # t2" "is_ack ev" using exhausted_run by blast
  have "py ''j1'' \<noteq> []" by simp
  from ack_after_result [OF p(1) exhausted_simps(1) this p(2,3)] p show ?thesis by blast
qed

theorem ack_after_slot_release_witness:
  "\<exists>t t1 ev t2 a. process calm sample_daemon exhausted_message [] = (Inr (), t) \<and> t = t1 @ ev # t2 \<and> is_ack ev \<and>
     (Redis (Zrem (concurrency_key (py ''u1'')) (py ''j1'')), a) \<in> set t1"
proof -
  obtain t t1 ev t2 where p: "process calm sample_daemon exhausted_message [] = (Inr (), t)"
      "t = t1 @ ev # t2" "is_ack ev" using exhausted_run by blast
  have "py ''u1'' \<noteq> []" by simp
  from ack_after_slot_release [OF p(1) exhausted_simps(1,2) this p(2,3)] p show ?thesis by blast
qed

theorem exhausted_message_buried_witness:
  "\<exists>t. process calm sample_daemon exhausted_message [] = (Inr (), t) \<and>
     (\<forall>argv a. (Proc (Spawn argv), a) \<notin> set t)"
proof -
  obtain t where p: "process calm sample_daemon exhausted_message [] = (Inr (), t)" using exhausted_run by blast
  have "delivery_count exhausted_message > max_retries (dcfg sample_daemon)" by simp
  from exhausted_message_buried [OF p this] p show ?thesis by blast
qed

theorem cancelled_before_pickup_witness:
  "\<exists>r t. process_request (calm\<lparr>ask_int := \<lambda>_ _. Inr 1\<rparr>) sample_daemon (py ''u1'') (py ''j1'') sample_message
       sample_request [] = (r, t) \<and> (\<forall>argv a. (Proc (Spawn argv), a) \<notin> set t)"
proof -
  obtain r t where p: "process_request (calm\<lparr>ask_int := \<lambda>_ _. Inr 1\<rparr>) sample_daemon (py ''u1'') (py ''j1'')
      sample_message sample_request [] = (r, t)" by fastforce
  have "ask_int (calm\<lparr>ask_int := \<lambda>_ _. Inr 1\<rparr>) [] (Redis (Exists (cancel_key (py ''j1'')))) = Inr 1" by simp
  from cancelled_before_pickup [OF p this] p show ?thesis by auto
qed

end
