(* ===== verification/Live_Stream.thy ===== *)
theory Live_Stream
  imports Settlement
begin

text \<open>
  The frames published on a job's channel against the result that is stored for it: a
  subscriber that concatenates the output frames of a stream ends up with the stored text.
\<close>

fun text_frame :: "json \<Rightarrow> (stream_kind \<times> pystr) option" where
  "text_frame (JObj [(k, JStr kind), (d, JStr data)]) =
     (if k = py ''kind'' \<and> d = py ''data''
      then (if kind = py ''stdout'' then Some (Stdout, data)
            else if kind = py ''stderr'' then Some (Stderr, data) else None)
      else None)"
| "text_frame _ = None"

text \<open>What a subscriber of the job's channel reads off an event.\<close>

fun frame_of :: "pystr \<Rightarrow> event \<Rightarrow> (stream_kind \<times> pystr) option" where
  "frame_of jid (Redis (Publish ch (Text j)), _) = (if ch = stream_channel jid then text_frame j else None)"
| "frame_of jid _ = None"

lemma text_frame_output [simp]: "text_frame (output_frame k tx) = Some (k, tx)"
  by (cases k) (simp_all add: output_frame_def)

lemma hands_out_publish: "hands_out (frame_of jid) (publish_output E jid)"
  unfolding hands_out_def publish_output_def publish_def
  by (auto simp: bnd_def call_defs call_def ret_def split: sum.splits)

lemma sent_silent: "only (\<lambda>ev. d ev = None) m \<Longrightarrow> m h = (r, t) \<Longrightarrow> sent d k t = []"
  by (auto simp: sent_def dest: only_trace)

lemma sent_Cons: "d ev = None \<Longrightarrow> sent d k (ev # t) = sent d k t"
  by (simp add: sent_def)

lemma local_silent: "local_cmd c \<Longrightarrow> frame_of jid (c, r) = None"
  by (cases c) auto

lemma inert_silent: "inert ev \<Longrightarrow> frame_of jid ev = None"
  by (cases ev) (simp add: inert_local local_silent)

subsection \<open>The silent parts\<close>

lemma silent_parts:
  "only (\<lambda>ev. frame_of jid ev = None) (set_running E jid wid)"
  "only (\<lambda>ev. frame_of jid ev = None) (publish_status E jid st)"
  "only (\<lambda>ev. frame_of jid ev = None) (join_watcher E jid)"
  "only (\<lambda>ev. frame_of jid ev = None) (finalize E D jid lang res)"
proof -
  show "only (\<lambda>ev. frame_of jid ev = None) (set_running E jid wid)"
    unfolding set_running_def patch_record_def get_record_def Let_def
    by (auto intro!: only_rules split: option.splits json.splits)
  show "only (\<lambda>ev. frame_of jid ev = None) (publish_status E jid st)"
    unfolding publish_status_def publish_def by (auto intro!: only_rules)
  have "only (\<lambda>ev. frame_of jid ev = None) (watch_cancel E jid n)" for n
    by (induction n) (auto intro!: only_rules simp: is_cancelled_def)
  then show "only (\<lambda>ev. frame_of jid ev = None) (join_watcher E jid)"
    unfolding join_watcher_def by (auto intro!: only_rules)
  show "only (\<lambda>ev. frame_of jid ev = None) (finalize E D jid lang res)"
    unfolding finalize_def store_terminal_def archive_def patch_record_def get_record_def publish_done_def
      publish_def record_metrics_def Let_def
    by (auto intro!: only_rules split: option.splits json.splits)
qed

lemma sent_attend:
  assumes "attend E X rt request jid c (Some (publish_output E jid)) has_cancel start h = (Inr res, t)"
  shows "sent (frame_of jid) Stdout t = stdout res" "sent (frame_of jid) Stderr t = stderr res"
proof -
  let ?d = "frame_of jid"
  from assms obtain x tf oc h2 ta h3 chunks tc h1 cap t2 h4 ticks ti h5 s ts h6 now tn h7 rc te wall where
      f: "attempt (feed_stdin E (encode (stdin request))) h = (x, tf)"
    and a: "await_completion E X c (clamp_timeout (rt_limits rt) (Some (timeout_seconds request))) has_cancel h2
      = (Inr oc, ta)"
    and c: "get_chunks E (Proc ReadStreams) h3 = (Inr chunks, tc)"
    and p: "run_pumps (Some (publish_output E jid)) chunks (output_max_bytes (rt_limits rt)) h1 = (Inr cap, t2)"
    and i: "get_int E (Proc SampleTicks) h4 = (Inr ticks, ti)"
    and l: "sample_loop E X c start (nat ticks)
       \<lparr>smp = new_sample, smp_cache = Map.empty, smp_observed = False\<rparr> h5 = (Inr s, ts)"
    and n: "get_time E Clock h6 = (Inr now, tn)" and e: "get_exit E (Proc ReturnCode) h7 = (Inr rc, te)"
    and res: "res = build_result jid rc oc cap (smp s) wall"
    and t0: "t = tf @ ta @ tc @ t2 @ ti @ ts @ tn @ te"
    unfolding attend_def Let_def by (fastforce simp: bnd_Inr_eq split: if_splits)
  define t1 where "t1 = tf @ ta @ tc"
  define t3 where "t3 = ti @ ts @ tn @ te"
  have t: "t = t1 @ t2 @ t3" by (simp add: t0 t1_def t3_def)
  have "\<forall>ev \<in> set t1. ?d ev = None"
    using c only_trace [OF only_await_inert a, THEN inert_silent]
      only_trace [OF only_attempt [OF only_feed_inert] f, THEN inert_silent]
    unfolding t1_def by (auto simp: call_defs call_eq)
  moreover have "\<forall>ev \<in> set t3. ?d ev = None"
    using i n e only_trace [OF only_sample_loop_inert l, THEN inert_silent] unfolding t3_def by (auto simp: call_defs call_eq)
  ultimately have "sent ?d k t1 = []" "sent ?d k t3 = []" for k
    by (auto simp: sent_def)
  then have "sent ?d k t = captured k cap" for k
    using run_pumps_sent [OF hands_out_publish p] t by simp
  then show "sent ?d Stdout t = stdout res" "sent ?d Stderr t = stderr res"
    by (simp_all add: res captured_def)
qed

lemma sent_execute:
  assumes "execute E X request jid (Some (publish_output E jid)) has_cancel h = (Inr res, t)"
  shows "sent (frame_of jid) Stdout t = stdout res \<and> sent (frame_of jid) Stderr t = stderr res"
  using assms
proof (cases rule: execute_cases)
  case (ran rt tv tp w r1 tr r2 tc)
  let ?d = "frame_of jid"
  have "r1 = Inr res" using ran(6) by (cases r2) auto
  with ran(4) obtain start h1 th argv h2 ta h3 ts h4 tt where
      a: "get_time E Clock h1 = (Inr start, th)"
    and b: "run_argv E X rt request w (py ''sandbox-'' @ jid) h2 = (Inr argv, ta)"
    and c: "do_unit E (Proc (Spawn argv)) h3 = (Inr (), ts)"
    and d: "attend E X rt request jid (py ''sandbox-'' @ jid) (Some (publish_output E jid)) has_cancel start h4
      = (Inr res, tt)"
    and tr: "tr = th @ ta @ ts @ tt"
    unfolding run_def by (fastforce simp: bnd_Inr_eq)
  have prep: "only (\<lambda>ev. ?d ev = None) (prepare_workdir E X rt request jid)"
    unfolding prepare_workdir_def write_input_def write_file_def
    by (auto intro!: only_rules only_for_each split: option.splits)
  have "\<forall>ev \<in> set tp. ?d ev = None" using only_trace [OF prep ran(3)] by blast
  moreover have "\<forall>ev \<in> set tv. ?d ev = None" using only_trace [OF only_verify_inert ran(2), THEN inert_silent] by blast
  moreover have "\<forall>ev \<in> set (th @ ta @ ts). ?d ev = None"
    using a c only_trace [OF only_run_argv_inert b, THEN inert_silent] by (auto simp: call_defs call_eq)
  moreover have "\<forall>ev \<in> set tc. ?d ev = None" using cleanup_trace [OF ran(5)] by auto
  ultimately have "sent ?d k tv = []" "sent ?d k tp = []" "sent ?d k (th @ ta @ ts) = []" "sent ?d k tc = []" for k
    by (simp_all add: sent_def)
  then have "sent ?d k t = sent ?d k tt" for k using ran(7) tr by simp
  then show ?thesis using sent_attend [OF d] by simp
qed simp_all

text \<open>
  C5: The live stream is the stored output: when a job runs to its result, the stdout frames
  published on the job's channel, concatenated in order, are the stdout of the terminal
  result that was stored, and likewise for stderr, truncation included.
\<close>

theorem live_stream_is_result:
  assumes "run_job E D jid request h = (Inr (), t)"
  shows "\<exists>res. (Redis (Set (result_key jid) (dumps (result_to_dict res)) (Ex RESULT_TTL_SECONDS)), Inr RUnit) \<in> set t \<and>
     sent (frame_of jid) Stdout t = stdout res \<and> sent (frame_of jid) Stderr t = stderr res"
proof -
  let ?d = "frame_of jid"
  let ?ex = "execute E (dctx D) request jid (Some (publish_output E jid)) True"
  from assms obtain h1 t1 h2 t2 h3 te tj res h4 tf where
      1: "set_running E jid (worker_id (dcfg D)) h1 = (Inr (), t1)" "publish_status E jid RUNNING h2 = (Inr (), t2)"
    and ex: "?ex h3 = (Inr res, te)"
    and 2: "seq (join_watcher E jid) (metric ''sandbox_jobs_in_flight'' Dec [] 1) (h3 @ te) = (Inr (), tj)"
    and fin: "finalize E D jid (language request) res h4 = (Inr (), tf)"
    and t: "t = (Metric (py ''sandbox_jobs_in_flight'') Inc [] 1, Inr RUnit) # t1 @ t2 @ (te @ tj) @ tf"
    unfolding run_job_def by (fastforce simp: bnd_Inr_eq try_finally_Inr metric_def)
  have "only (\<lambda>ev. ?d ev = None) (seq (join_watcher E jid) (metric ''sandbox_jobs_in_flight'' Dec [] 1))"
    by (auto intro!: only_rules silent_parts)
  with 1 2 fin have "sent ?d k t1 = []" "sent ?d k t2 = []" "sent ?d k tj = []" "sent ?d k tf = []" for k
    by (auto intro: sent_silent [OF silent_parts(1)] sent_silent [OF silent_parts(2)] sent_silent
        sent_silent [OF silent_parts(4)])
  then have "sent ?d k t = sent ?d k te" for k
    using t by (simp add: sent_Cons)
  moreover have "(Redis (Set (result_key jid) (dumps (result_to_dict res)) (Ex RESULT_TTL_SECONDS)), Inr RUnit) \<in> set tf"
    using fin by (auto simp: finalize_def store_terminal_def bnd_Inr_eq call_defs call_eq)
  ultimately show ?thesis using sent_execute [OF ex] t by auto
qed

subsection \<open>A job that runs through\<close>

lemma succeeds_finally:
  assumes "succeeds m" "succeeds f"
  shows "succeeds (try_finally m f)"
proof (rule succeedsI)
  fix h
  obtain a t where m: "m h = (Inr a, t)" using assms(1) by (rule succeedsE)
  obtain u t' where "f (h @ t) = (Inr u, t')" using assms(2) by (rule succeedsE)
  with m show "\<exists>b t. try_finally m f h = (Inr b, t)" by (simp add: try_finally_def)
qed

lemma never_raises_publish: "redis_serves E \<Longrightarrow> never_raises (Some (publish_output E jid))"
proof -
  assume "redis_serves E"
  then have "succeeds (publish_output E jid k tx)" for k tx
    unfolding publish_output_def publish_def by (intro succeeds_bnd redis_calls_succeed succeeds_ret)
  then show ?thesis by (auto simp: never_raises_def succeeds_def)
qed

lemma calm_attend_publish:
  "succeeds (attend calm sample_ctx sample_rt sample_request jid c (Some (publish_output calm jid)) has_cancel t0)"
proof -
  have "succeeds (run_pumps (Some (publish_output calm jid)) s n)" for s n
    by (rule succeedsI) (rule run_pumps_returns [OF never_raises_publish [OF calm_ok(2)]])
  then show ?thesis
    unfolding attend_def Let_def await_completion_def terminate_def simple_def call_defs
    by (auto simp: encodable_def intro!: succeeds_rules sample_loop_succeeds)
qed

lemma calm_execute_publish:
  "\<exists>res t. execute calm sample_ctx sample_request (py ''j1'') (Some (publish_output calm (py ''j1''))) True h = (Inr res, t)"
proof -
  obtain tv where v: "verify_image calm sample_ctx sample_rt h = (Inr (), tv)" using calm_verify by blast
  obtain tp where p: "prepare_workdir calm sample_ctx sample_rt sample_request (py ''j1'') (h @ tv)
        = (Inr (py ''/work/j1-x''), tp)"
    using calm_prepare by blast
  have argv: "succeeds (run_argv calm sample_ctx sample_rt sample_request w c)" for w c
  proof (rule succeedsI)
    fix h
    obtain sec t1 where "seccomp_profile_path calm Map.empty (py ''/tmp'') sample_rt h = (Inr sec, t1)"
      using calm_profile by blast
    then show "\<exists>a t. run_argv calm sample_ctx sample_rt sample_request w c h = (Inr a, t)"
      by (auto simp: run_argv_def bnd_def ret_def sample_host_path build_command_def)
  qed
  have "succeeds (run calm sample_ctx sample_rt sample_request (py ''j1'') w c (Some (publish_output calm (py ''j1''))) True)"
    for w c
    unfolding run_def using argv calm_attend_publish by (auto simp: call_defs intro!: succeeds_rules)
  then obtain res tr where r: "run calm sample_ctx sample_rt sample_request (py ''j1'') (py ''/work/j1-x'')
      (py ''sandbox-'' @ py ''j1'') (Some (publish_output calm (py ''j1''))) True (h @ tv @ tp) = (Inr res, tr)"
    by (rule succeedsE)
  obtain tc where "cleanup calm sample_ctx (py ''sandbox-'' @ py ''j1'') (py ''/work/j1-x'') (h @ tv @ tp @ tr)
      = (Inr (), tc)"
    using cleanup_succeeds [OF calm_ok(1)] by (metis (full_types) succeedsE old.unit.exhaust)
  with v p r show ?thesis by (auto simp: execute_def bnd_def try_finally_def Let_def)
qed

lemma calm_run_job: "\<exists>t. run_job calm sample_daemon (py ''j1'') sample_request h = (Inr (), t)"
proof -
  have "succeeds (execute calm sample_ctx sample_request (py ''j1'') (Some (publish_output calm (py ''j1''))) True)"
    by (rule succeedsI) (rule calm_execute_publish)
  moreover have "succeeds (join_watcher calm (py ''j1''))"
  proof -
    have "succeeds (watch_cancel calm (py ''j1'') n)" for n
      by (induction n) (auto simp: is_cancelled_def call_defs intro!: succeeds_rules)
    then show ?thesis unfolding join_watcher_def by (auto simp: call_defs intro!: succeeds_rules)
  qed
  ultimately have "succeeds (run_job calm sample_daemon (py ''j1'') sample_request)"
    unfolding run_job_def set_running_def publish_status_def publish_def
    using redis_calls_succeed [OF calm_ok(2)] patch_succeeds [OF calm_ok(2)] finalize_succeeds [OF calm_ok(2,1)]
    by (auto simp: sample_daemon_def intro!: succeeds_bnd succeeds_finally)
  then show ?thesis by (metis (full_types) succeedsE old.unit.exhaust)
qed

theorem live_stream_is_result_witness:
  "\<exists>t res. run_job calm sample_daemon (py ''j1'') sample_request [] = (Inr (), t) \<and>
     sent (frame_of (py ''j1'')) Stdout t = stdout (res :: execution_result)"
proof -
  obtain t where t: "run_job calm sample_daemon (py ''j1'') sample_request [] = (Inr (), t)" using calm_run_job by blast
  from live_stream_is_result [OF t] t show ?thesis by blast
qed

subsection \<open>A job that fails\<close>

lemma safe_message:
  "stderr (failed_result jid e) \<in> {py ''unsupported language'', py ''job abandoned after repeated delivery failures'',
     py ''sandbox failure'', py ''internal execution error''}"
  by (auto simp: failed_result_def failure_detail_def)

text \<open>
  C18: Failures are recorded. If a run raises anything but \<^verbatim>\<open>DockerUnavailableError\<close> and the
  handler itself returns (it does not when the task is cancelled or Redis fails while the
  failure is recorded), then after everything the run did a FAILED result with one of four
  fixed, safe messages has been stored under the result key, replacing an earlier result if
  the run had already stored one, and the entry has been acknowledged.
\<close>

theorem failure_recorded:
  assumes "process_request E D user jid m request h = (Inr (), t)"
    and "ask_int E h (Redis (Exists (cancel_key jid))) = Inr 0"
    and "run_job E D jid request (h @ [(Redis (Exists (cancel_key jid)), Inr (RInt 0))]) = (Inl e, t1)"
    and "\<not> is_DockerUnavailableError e"
  shows "\<exists>t2 a. t = (Redis (Exists (cancel_key jid)), Inr (RInt 0)) # t1 @ t2 \<and>
     (Redis (Set (result_key jid) (dumps (result_to_dict (failed_result jid e))) (Ex RESULT_TTL_SECONDS)), Inr RUnit)
       \<in> set t2 \<and>
     status (failed_result jid e) = FAILED \<and>
     stderr (failed_result jid e) \<in> {py ''unsupported language'', py ''job abandoned after repeated delivery failures'',
       py ''sandbox failure'', py ''internal execution error''} \<and>
     (Redis (XAck JOB_STREAM CONSUMER_GROUP (msg_id m)), a) \<in> set t2"
proof -
  let ?ev = "(Redis (Exists (cancel_key jid)), Inr (RInt 0))"
  from assms obtain t2 where t2: "t = ?ev # t1 @ t2"
      "seq (finalize_failed E D jid (language request) e) (complete E user jid (msg_id m)) (h @ ?ev # t1) = (Inr (), t2)"
    by (auto simp: process_request_def is_cancelled_def bnd_eq call_defs call_eq catch_eq split: if_splits)
  then have "(Redis (Set (result_key jid) (dumps (result_to_dict (failed_result jid e))) (Ex RESULT_TTL_SECONDS)), Inr RUnit)
       \<in> set t2"
    by (auto simp: finalize_failed_def finalize_def store_terminal_def bnd_Inr_eq call_defs call_eq)
  moreover have "\<exists>a. (Redis (XAck JOB_STREAM CONSUMER_GROUP (msg_id m)), a) \<in> set t2"
    using t2(2) by (auto simp: bnd_Inr_eq dest!: complete_acks)
  ultimately show ?thesis using t2(1) safe_message [of jid e] by auto
qed

definition cobol_request :: execution_request where
  "cobol_request = sample_request\<lparr>language := py ''cobol''\<rparr>"

lemma cobol_unknown: "get_runtime (registry_of sample_ctx) (py ''cobol'') = Inl (UnknownLanguageError (py ''cobol''))"
  by (simp add: sample_ctx_def build_def SPECS_def spec_def get_resource_config_def DEFAULTS_def get_runtime_def)

lemma cobol_run_job:
  "\<exists>t. run_job calm sample_daemon (py ''j1'') cobol_request h = (Inl (UnknownLanguageError (py ''cobol'')), t)"
proof -
  have "execute calm sample_ctx cobol_request jid cb True h = (Inl (UnknownLanguageError (py ''cobol'')), [])" for jid cb h
    by (simp add: execute_def cobol_request_def cobol_unknown raise_def)
  then show ?thesis
    by (simp add: run_job_def sample_daemon_def set_running_def patch_record_def get_record_def publish_status_def
        publish_def bnd_def call_defs call_def ret_def metric_def try_finally_def join_watcher_def suppress_def
        catch_def)
qed

theorem failure_recorded_witness:
  "\<exists>t. process_request calm sample_daemon (py ''u1'') (py ''j1'') sample_message cobol_request [] = (Inr (), t) \<and>
     (Redis (Set (result_key (py ''j1'')) (dumps (result_to_dict (failed_result (py ''j1'')
        (UnknownLanguageError (py ''cobol''))))) (Ex RESULT_TTL_SECONDS)), Inr RUnit) \<in> set t"
proof -
  obtain t where p: "process_request calm sample_daemon (py ''u1'') (py ''j1'') sample_message cobol_request []
      = (Inr (), t)" using process_request_settles [OF calm_ok] by blast
  obtain t1 where j: "run_job calm sample_daemon (py ''j1'') cobol_request
      ([] @ [(Redis (Exists (cancel_key (py ''j1''))), Inr (RInt 0))]) = (Inl (UnknownLanguageError (py ''cobol'')), t1)"
    using cobol_run_job by blast
  have "ask_int calm [] (Redis (Exists (cancel_key (py ''j1'')))) = Inr 0"
    "\<not> is_DockerUnavailableError (UnknownLanguageError (py ''cobol''))" by simp_all
  from failure_recorded [OF p this(1) j this(2)] p show ?thesis by auto
qed

text \<open>
  C37: An entry whose payload is valid JSON but not an object is neither run, nor
  acknowledged, nor dead-lettered, however often it has been delivered: the handler raises
  \<^verbatim>\<open>AttributeError\<close> before the retry limit is looked at, without any effect.
\<close>

theorem non_object_payload_escapes:
  assumes "\<forall>d. payload m \<noteq> JObj d"
  shows "process E D m h = (Inl AttributeError, [])"
proof -
  have "message_job_id (str_of (dctx D)) m = Inl AttributeError"
    using assms by (cases "payload m") (simp_all add: message_job_id_def py_get_def)
  then show ?thesis by (simp add: process_def Let_def raise_def)
qed

text \<open>An entry whose payload is the list \<^verbatim>\<open>[1]\<close>, delivered for the hundredth time.\<close>

theorem non_object_payload_escapes_witness:
  "process calm sample_daemon \<lparr>msg_id = py ''1-0'', payload = JList [JInt 1], delivery_count = 100\<rparr> [] =
     (Inl AttributeError, [])"
  by (rule non_object_payload_escapes) simp

end
