(* ===== verification/Cleanup.thy ===== *)
theory Cleanup
  imports Executor
begin

text \<open>
  \<^verbatim>\<open>worker/sandbox/cleanup.py\<close>: the reaper that removes leaked containers and stale work
  directories. Which containers exist and how docker words their age is the environment's
  answer to \<^verbatim>\<open>docker ps\<close>.
\<close>

definition ORPHAN_AGE_SECONDS :: int where "ORPHAN_AGE_SECONDS = 300"

definition UNIT_SECONDS :: "(pystr \<times> int) list" where
  "UNIT_SECONDS =
     [(py ''second'', 1), (py ''minute'', 60), (py ''hour'', 3600), (py ''day'', 86400), (py ''week'', 604800)]"

definition safe_int :: "ucd \<Rightarrow> pystr \<Rightarrow> int option" where
  "safe_int U value = int_of_str U value"

definition parse_relative_age :: "ucd \<Rightarrow> pystr \<Rightarrow> int option" where
  "parse_relative_age U tx =
     (let tx = strip U (removesuffix (lower U (strip U tx)) (py '' ago''))
      in if startswith tx (py ''less than'') then Some 0
         else
           let tx = (if startswith tx (py ''about '') then drop 6 tx else tx)
           in (case split_ws U tx of
                 [] \<Rightarrow> None
               | qty_word # rest \<Rightarrow>
                   (case (if qty_word = py ''a'' \<or> qty_word = py ''an'' then Some 1 else safe_int U qty_word) of
                      None \<Rightarrow> None
                    | Some quantity \<Rightarrow>
                        (case find (\<lambda>(unit, _). list_ex (\<lambda>p. startswith p unit) rest) UNIT_SECONDS of
                           None \<Rightarrow> None
                         | Some (_, seconds) \<Rightarrow> Some (quantity * seconds)))))"

definition parse_up_age :: "ucd \<Rightarrow> pystr \<Rightarrow> int option" where
  "parse_up_age U st = parse_relative_age U (drop 3 st)"

definition stale :: "int option \<Rightarrow> bool" where
  "stale age = (case age of None \<Rightarrow> False | Some a \<Rightarrow> a \<ge> ORPHAN_AGE_SECONDS)"

definition should_reap :: "ucd \<Rightarrow> pystr \<Rightarrow> pystr \<Rightarrow> bool" where
  "should_reap U st running_for =
     (let stripped = strip U st
      in if startswith stripped (py ''Created'')
         then stale (if running_for \<noteq> [] then parse_relative_age U running_for else None)
         else if startswith stripped (py ''Exited'') \<or> startswith stripped (py ''Dead'')
                 \<or> startswith stripped (py ''Removal'')
         then True
         else if startswith stripped (py ''Up'') then stale (parse_up_age U stripped)
         else False)"

text \<open>One line of \<^verbatim>\<open>docker ps\<close>: the container to remove, if any.\<close>

definition reap_line :: "ucd \<Rightarrow> pystr \<Rightarrow> pystr option" where
  "reap_line U line =
     (if 9 \<notin> set line then None
      else (case split_on 9 line of
              container_id # st # rest \<Rightarrow>
                if should_reap U st (case rest of r # _ \<Rightarrow> r | [] \<Rightarrow> []) then Some container_id else None
            | _ \<Rightarrow> None))"

fun reap_lines :: "env \<Rightarrow> ctx \<Rightarrow> pystr list \<Rightarrow> int \<Rightarrow> int io" where
  "reap_lines E X [] reaped = ret reaped"
| "reap_lines E X (line # ls) reaped =
     (case reap_line (ucd_of X) line of
        None \<Rightarrow> reap_lines E X ls reaped
      | Some container_id \<Rightarrow>
          seq (simple E [docker_path (config_of X), py ''rm'', py ''-f'', container_id])
              (reap_lines E X ls (reaped + 1)))"

definition ps_argv :: "ctx \<Rightarrow> pystr list" where
  "ps_argv X =
     [docker_path (config_of X), py ''ps'', py ''-a'', py ''--filter'', py ''label=sandbox-managed=1'',
      py ''--format'', py ''{{.ID}}'' @ [9] @ py ''{{.Status}}'' @ [9] @ py ''{{.RunningFor}}'',
      py ''--no-trunc'']"

definition reap_containers :: "env \<Rightarrow> ctx \<Rightarrow> int io" where
  "reap_containers E X =
     bnd (simple E (ps_argv X)) (\<lambda>(rc, out, err).
       if rc \<noteq> 0 then ret 0 else reap_lines E X (splitlines (utf8 out)) 0)"

definition reap_workdir :: "env \<Rightarrow> ctx \<Rightarrow> rat \<Rightarrow> pystr \<Rightarrow> unit io" where
  "reap_workdir E X now entry =
     (let path = path_join (local_workdir (config_of X)) entry
      in bnd (catch (bnd (get_time E (Fs (Getmtime path))) (\<lambda>m. ret (Some (now - m))))
                (\<lambda>e. if is_OSError e then Some (ret None) else None))
           (\<lambda>age. case age of
              None \<Rightarrow> ret ()
            | Some a \<Rightarrow>
                if a > of_int ORPHAN_AGE_SECONDS
                then seq (attempt (do_unit E (Fs (Rmtree path)))) (ret ())
                else ret ()))"

definition reap_workdirs :: "env \<Rightarrow> ctx \<Rightarrow> unit io" where
  "reap_workdirs E X =
     bnd (get_bool E (Fs (Isdir (local_workdir (config_of X))))) (\<lambda>isdir.
       if \<not> isdir then ret ()
       else bnd (get_time E Clock) (\<lambda>now.
            bnd (get_strs E (Fs (Listdir (local_workdir (config_of X))))) (\<lambda>entries.
            for_each (reap_workdir E X now) entries)))"

definition reap_once :: "env \<Rightarrow> ctx \<Rightarrow> int io" where
  "reap_once E X = bnd (reap_containers E X) (\<lambda>reaped. seq (reap_workdirs E X) (ret reaped))"

definition reaper_stop :: "unit io" where
  "reaper_stop = set_event SetReaperStop"

text \<open>
  \<^verbatim>\<open>run_forever\<close>, unrolled \<open>n\<close> times: \<open>True\<close> when the stop event ended the loop, \<open>False\<close>
  when it is still running. A timed-out wait and one that sees the event both go back to
  the loop's test.
\<close>

fun run_forever :: "env \<Rightarrow> ctx \<Rightarrow> nat \<Rightarrow> bool io" where
  "run_forever E X 0 = ret False"
| "run_forever E X (Suc n) =
     bnd (get_bool E StopIsSet) (\<lambda>stopped.
       if stopped then ret True
       else seq (reap_once E X) (seq (get_bool E (StopWait 60)) (run_forever E X n)))"

subsection \<open>Docker's wording of an age\<close>

text \<open>How docker words a duration, and the seconds the wording stands for.\<close>

datatype docker_age =
    LessThanSecond | OneSecond | Seconds nat | AboutMinute | Minutes nat | AboutHour
  | Hours nat | Days nat | Weeks nat | Months nat | Years nat

fun human_age :: "docker_age \<Rightarrow> pystr" where
  "human_age LessThanSecond = py ''Less than a second''"
| "human_age OneSecond = py ''1 second''"
| "human_age (Seconds n) = digits n @ py '' seconds''"
| "human_age AboutMinute = py ''About a minute''"
| "human_age (Minutes n) = digits n @ py '' minutes''"
| "human_age AboutHour = py ''About an hour''"
| "human_age (Hours n) = digits n @ py '' hours''"
| "human_age (Days n) = digits n @ py '' days''"
| "human_age (Weeks n) = digits n @ py '' weeks''"
| "human_age (Months n) = digits n @ py '' months''"
| "human_age (Years n) = digits n @ py '' years''"

fun age_seconds :: "docker_age \<Rightarrow> int option" where
  "age_seconds LessThanSecond = Some 0"
| "age_seconds OneSecond = Some 1"
| "age_seconds (Seconds n) = Some (int n)"
| "age_seconds AboutMinute = Some 60"
| "age_seconds (Minutes n) = Some (int n * 60)"
| "age_seconds AboutHour = Some 3600"
| "age_seconds (Hours n) = Some (int n * 3600)"
| "age_seconds (Days n) = Some (int n * 86400)"
| "age_seconds (Weeks n) = Some (int n * 604800)"
| "age_seconds (Months n) = None"
| "age_seconds (Years n) = None"

lemma strip_ends:
  assumes "s \<noteq> []" "\<not> isspace U (hd s)" "\<not> isspace U (last s)"
  shows "strip U s = s"
proof -
  have "dropWhile (isspace U) s = s" using assms(1,2) by (cases s) auto
  moreover have "dropWhile (isspace U) (rev s) = rev s"
    using assms(1,3) by (cases s rule: rev_cases) auto
  ultimately show ?thesis by (simp add: strip_def)
qed

lemma split_ws_Nil [simp]: "split_ws U [] = []"
  by (subst split_ws.simps) simp

lemma split_ws_Cons:
  "\<not> isspace U c \<Longrightarrow> split_ws U (c # r) =
     (c # takeWhile (\<lambda>x. \<not> isspace U x) r) # split_ws U (dropWhile (\<lambda>x. \<not> isspace U x) r)"
  by (subst split_ws.simps) simp

lemma split_ws_skip: "isspace U x \<Longrightarrow> split_ws U (x # w) = split_ws U w"
  by (subst (1 2) split_ws.simps) simp

lemma split_ws_word:
  assumes "w \<noteq> []" "\<forall>c \<in> set w. \<not> isspace U c"
  shows "split_ws U w = [w]"
proof -
  obtain c r where w: "w = c # r" using assms(1) by (cases w) auto
  then have "takeWhile (\<lambda>x. \<not> isspace U x) r = r" "dropWhile (\<lambda>x. \<not> isspace U x) r = []"
    using assms(2) by (auto simp: takeWhile_eq_all_conv)
  with w assms show ?thesis by (simp add: split_ws_Cons del: dropWhile_eq_Nil_conv)
qed

lemma split_ws_two:
  assumes "v \<noteq> []" "\<forall>c \<in> set v. \<not> isspace U c" "w \<noteq> []" "\<forall>c \<in> set w. \<not> isspace U c" "isspace U x"
  shows "split_ws U (v @ x # w) = [v, w]"
proof -
  obtain c r where v: "v = c # r" using assms(1) by (cases v) auto
  then have "takeWhile (\<lambda>x. \<not> isspace U x) (r @ x # w) = r" "dropWhile (\<lambda>x. \<not> isspace U x) (r @ x # w) = x # w"
    using assms(2,5) by (auto simp: takeWhile_append dropWhile_append)
  with v assms show ?thesis by (simp add: split_ws_Cons split_ws_skip split_ws_word)
qed

lemma lower_id: "\<forall>c \<in> set s. c < 128 \<and> \<not> (65 \<le> c \<and> c \<le> 90) \<Longrightarrow> lower U s = s"
  unfolding lower_def by (induction s) (auto simp: lower_char_def)

lemma removesuffix_append [simp]: "removesuffix (s @ p) p = s"
  by (simp add: removesuffix_def endswith_def)

lemma removesuffix_two:
  assumes "32 \<notin> set v" "32 \<notin> set w" "32 \<notin> set r" "w \<noteq> r"
  shows "removesuffix (v @ 32 # w) (32 # r) = v @ 32 # w"
proof -
  have False if e: "endswith (v @ 32 # w) (32 # r)"
  proof -
    obtain u where "v @ 32 # w = u @ 32 # r"
      using e unfolding endswith_def by (metis append_take_drop_id)
    then have "w = r" using assms(1-3) by (simp add: append_Cons_eq_iff)
    with assms(4) show False ..
  qed
  then show ?thesis by (auto simp: removesuffix_def)
qed

text \<open>A number and a unit in lower-case letters, with or without \<^verbatim>\<open>ago\<close>.\<close>

lemma parse_number_unit:
  assumes w: "w \<noteq> []" "\<forall>c \<in> set w. 97 \<le> c \<and> c \<le> 122" "w \<noteq> py ''ago''"
    and sfx: "sfx = [] \<or> sfx = py '' ago''"
  shows "parse_relative_age U (digits n @ 32 # w @ sfx) =
     map_option (\<lambda>(_, seconds). int n * seconds) (find (\<lambda>(unit, _). startswith w unit) UNIT_SECONDS)"
proof -
  let ?s = "digits n @ 32 # w"
  have ago: "py '' ago'' = 32 # py ''ago''" "32 \<notin> set (py ''ago'')"
    by (simp_all add: py_def)
  have dig: "\<forall>c \<in> set (digits n). 48 \<le> c \<and> c \<le> 57" using digits_range by blast
  obtain d ds where d: "digits n = d # ds" by (meson digits_nonempty neq_Nil_conv)
  have space: "isspace U 32" "\<forall>c \<in> set (digits n). \<not> isspace U c" "\<forall>c \<in> set w. \<not> isspace U c"
    using dig w(2) by (force simp: isspace_def)+
  have ends: "\<not> isspace U (hd (?s @ sfx))" "\<not> isspace U (last (?s @ sfx))" "\<not> isspace U (last ?s)"
    using space d w(1) sfx last_in_set [OF w(1)] by (auto simp: py_def isspace_def [of U 111])
  have low: "lower U (?s @ sfx) = ?s @ sfx"
    using dig w(2) sfx by (intro lower_id) (force simp: py_def)
  have "removesuffix (?s @ sfx) (py '' ago'') = ?s"
    using sfx removesuffix_two [of "digits n" w "py ''ago''"] dig w ago removesuffix_append [of ?s] by force
  moreover have "strip U (?s @ sfx) = ?s @ sfx" "strip U ?s = ?s"
    using ends space d by (auto intro!: strip_ends)
  moreover have "split_ws U ?s = [digits n, w]"
    using space w(1) by (intro split_ws_two) auto
  moreover have "\<not> startswith ?s (py ''less than'')" "\<not> startswith ?s (py ''about '')"
      "digits n \<noteq> py ''a''" "digits n \<noteq> py ''an''"
    using d dig by (auto simp: startswith_def py_def)
  moreover have "safe_int U (digits n) = Some (int n)"
    using int_of_str_of_int [of U "int n"] by (simp add: safe_int_def str_of_int_def)
  ultimately show ?thesis
    using low by (simp add: parse_relative_age_def Let_def option.map_comp split: option.splits) 
qed

lemmas age_eval = parse_relative_age_def strip_def lower_def lower_char_def isspace_def removesuffix_def
  endswith_def startswith_def split_ws.simps safe_int_def int_of_str_def parse_nat_def digit_value_def
  UNIT_SECONDS_def py_def

lemma parse_literals:
  "parse_relative_age U (py ''Less than a second'') = Some 0"
  "parse_relative_age U (py ''Less than a second ago'') = Some 0"
  "parse_relative_age U (py ''About a minute'') = Some 60"
  "parse_relative_age U (py ''About a minute ago'') = Some 60"
  "parse_relative_age U (py ''About an hour'') = Some 3600"
  "parse_relative_age U (py ''About an hour ago'') = Some 3600"
  by (simp_all add: age_eval)

lemma digits_1: "py ''1 second'' = digits 1 @ py '' second''"
  by (subst digits.simps) (simp add: py_def)

lemma parse_unit:
  assumes "sfx = [] \<or> sfx = py '' ago''"
  shows "parse_relative_age U (digits n @ py '' second'' @ sfx) = Some (int n)"
    "parse_relative_age U (digits n @ py '' seconds'' @ sfx) = Some (int n)"
    "parse_relative_age U (digits n @ py '' minutes'' @ sfx) = Some (int n * 60)"
    "parse_relative_age U (digits n @ py '' hours'' @ sfx) = Some (int n * 3600)"
    "parse_relative_age U (digits n @ py '' days'' @ sfx) = Some (int n * 86400)"
    "parse_relative_age U (digits n @ py '' weeks'' @ sfx) = Some (int n * 604800)"
    "parse_relative_age U (digits n @ py '' months'' @ sfx) = None"
    "parse_relative_age U (digits n @ py '' years'' @ sfx) = None"
  using parse_number_unit [of "py ''second''" sfx U n] parse_number_unit [of "py ''seconds''" sfx U n]
    parse_number_unit [of "py ''minutes''" sfx U n] parse_number_unit [of "py ''hours''" sfx U n]
    parse_number_unit [of "py ''days''" sfx U n] parse_number_unit [of "py ''weeks''" sfx U n]
    parse_number_unit [of "py ''months''" sfx U n] parse_number_unit [of "py ''years''" sfx U n] assms
  by (simp_all add: UNIT_SECONDS_def startswith_def py_def)

lemma parse_human:
  assumes "sfx = [] \<or> sfx = py '' ago''"
  shows "parse_relative_age U (human_age a @ sfx) = age_seconds a"
  using assms parse_unit [OF assms, of U] parse_literals [of U]
  by (cases a) (auto simp: digits_1 py_append [symmetric])

lemma strip_prefix:
  assumes "p \<noteq> []" "\<forall>c \<in> set p. \<not> isspace U c"
  shows "startswith (strip U (p @ s)) p"
proof -
  have hd: "dropWhile (isspace U) (p @ s) = p @ s"
    using assms by (cases p) auto
  have "dropWhile (isspace U) (rev p) = rev p"
    using assms by (simp add: dropWhile_eq_self_iff hd_rev)
  then have "\<exists>s'. dropWhile (isspace U) (rev s @ rev p) = s' @ rev p"
    by (auto simp: dropWhile_append)
  then show ?thesis using hd by (auto simp: strip_def)
qed

lemma should_reap_up: "should_reap U (py ''Up '' @ human_age a) rf = stale (age_seconds a)"
proof -
  have "human_age a \<noteq> []" by (cases a) simp_all
  moreover have "\<not> isspace U (last (human_age a))"
    by (cases a) (simp_all add: py_def isspace_def)
  ultimately have "strip U (py ''Up '' @ human_age a) = py ''Up '' @ human_age a"
    by (intro strip_ends) (simp_all add: py_def isspace_def)
  moreover have "drop 3 (py ''Up '' @ human_age a) = human_age a" by (simp add: py_def)
  moreover have "startswith (py ''Up '' @ human_age a) (py ''Up'')"
      "\<not> startswith (py ''Up '' @ human_age a) (py ''Created'')"
      "\<not> startswith (py ''Up '' @ human_age a) (py ''Exited'')"
      "\<not> startswith (py ''Up '' @ human_age a) (py ''Dead'')"
      "\<not> startswith (py ''Up '' @ human_age a) (py ''Removal'')"
    by (simp_all add: startswith_def py_def)
  ultimately show ?thesis
    using parse_human [of "[]" U a] by (simp add: should_reap_def parse_up_age_def)
qed

lemma should_reap_created: "should_reap U (py ''Created'') (human_age a @ py '' ago'') = stale (age_seconds a)"
proof -
  have "strip U (py ''Created'') = py ''Created''"
    by (intro strip_ends) (simp_all add: py_def isspace_def)
  then show ?thesis
    using parse_human [of "py '' ago''" U a] by (simp add: should_reap_def startswith_def)
qed

lemma should_reap_gone:
  assumes "p \<in> {''Exited'', ''Dead'', ''Removal''}"
  shows "should_reap U (py p @ s) rf"
proof -
  have "startswith (strip U (py p @ s)) (py p)"
    using assms by (intro strip_prefix) (auto simp: py_def isspace_def)
  then obtain r where "strip U (py p @ s) = py p @ r" by (auto simp: startswith_iff)
  then show ?thesis using assms by (auto simp: should_reap_def startswith_def py_def)
qed

text \<open>
  C30: The reaper reads docker's wording of an age correctly and spares young containers: a
  running container (status \<^verbatim>\<open>Up\<close> and its age) and a created one (with its age since
  creation) are removed exactly when that age is a duration in seconds to weeks of at least
  300 seconds; an exited, dead or half-removed container is always removed. An age worded in
  months or years is not understood, and such a container is left alone.
\<close>

theorem should_reap_ages:
  "should_reap U (py ''Up '' @ human_age a) rf = stale (age_seconds a) \<and>
   should_reap U (py ''Created'') (human_age a @ py '' ago'') = stale (age_seconds a) \<and>
   should_reap U (py ''Exited'' @ s) rf \<and> should_reap U (py ''Dead'' @ s) rf \<and>
   should_reap U (py ''Removal'' @ s) rf"
  by (intro conjI should_reap_up should_reap_created should_reap_gone) simp_all

subsection \<open>What a cycle removes\<close>

definition rm_cmd :: "ctx \<Rightarrow> pystr \<Rightarrow> cmd" where
  "rm_cmd X cid = Proc (Simple [docker_path (config_of X), py ''rm'', py ''-f'', cid])"

lemma reap_lines_trace:
  assumes "reap_lines E X ls n h = (r, t)"
  shows "prefix (map fst t) (map (rm_cmd X) (List.map_filter (reap_line (ucd_of X)) ls)) \<and>
         (\<forall>m. r = Inr m \<longrightarrow> map fst t = map (rm_cmd X) (List.map_filter (reap_line (ucd_of X)) ls) \<and>
               m = n + int (length t))"
  using assms
proof (induction ls arbitrary: n h r t)
  case (Cons l ls)
  show ?case
  proof (cases "reap_line (ucd_of X) l")
    case None
    then show ?thesis using Cons by (simp add: map_filter_simps)
  next
    case (Some cid)
    then have *: "(\<exists>e. r = Inl e \<and> map fst t = [rm_cmd X cid]) \<or>
        (\<exists>a t2. reap_lines E X ls (n + 1) (h @ [(rm_cmd X cid, a)]) = (r, t2) \<and> t = (rm_cmd X cid, a) # t2)"
      using Cons.prems by (auto simp: bnd_eq simple_def call_defs call_eq rm_cmd_def)
    from * show ?thesis
      using Cons.IH Some by (fastforce simp: map_filter_simps)
  qed
qed (simp add: map_filter_simps)

text \<open>The containers of a listing that qualify.\<close>

fun listed_ids :: "ucd \<Rightarrow> exn + reply \<Rightarrow> pystr list" where
  "listed_ids U (Inr (RProc rc out err)) =
     (if rc = 0 then List.map_filter (reap_line U) (splitlines (utf8 out)) else [])"
| "listed_ids U _ = []"

text \<open>
  C29: One cycle of the reaper lists the managed containers and removes exactly those lines
  of the listing that qualify, in order, and returns their number; when a command raises,
  it has removed a prefix of them. It never removes anything when the listing fails.
\<close>

theorem reap_containers_exact:
  assumes "reap_containers E X h = (r, t)"
  shows "\<exists>ps t'. t = (Proc (Simple (ps_argv X)), ps) # t' \<and>
     prefix (map fst t') (map (rm_cmd X) (listed_ids (ucd_of X) ps)) \<and>
     (case r of
        Inr n \<Rightarrow> map fst t' = map (rm_cmd X) (listed_ids (ucd_of X) ps) \<and> n = int (length (listed_ids (ucd_of X) ps))
      | Inl _ \<Rightarrow> True)"
proof -
  from assms consider
    (raised) e where "r = Inl e" "t = [(Proc (Simple (ps_argv X)), Inl e)]"
  | (failed) rc out err where "r = Inr 0" "rc \<noteq> 0" "t = [(Proc (Simple (ps_argv X)), Inr (RProc rc out err))]"
  | (listed) out err t' h' where "reap_lines E X (splitlines (utf8 out)) 0 h' = (r, t')"
      "t = (Proc (Simple (ps_argv X)), Inr (RProc 0 out err)) # t'"
    by (auto simp: reap_containers_def bnd_eq simple_def call_defs call_eq split: if_splits)
  then show ?thesis
  proof cases
    case (listed out err t' h')
    let ?ids = "List.map_filter (reap_line (ucd_of X)) (splitlines (utf8 out))"
    have "length t' = length ?ids" if "map fst t' = map (rm_cmd X) ?ids"
      using that by (metis length_map)
    then show ?thesis
      using reap_lines_trace [OF listed(1)]
      by (intro exI [of _ "Inr (RProc 0 out err)"] exI [of _ t']) (cases r; simp add: listed(2))
  qed (simp_all add: map_filter_simps)
qed

text \<open>A listing of one exited and one young running container: the first is removed.\<close>

definition listing_env :: env where
  "listing_env = calm\<lparr>ask_proc := (\<lambda>_ _. Inr (0,
     py ''c1'' @ [9] @ py ''Exited'' @ [10] @ py ''c2'' @ [9] @ py ''Up 7 seconds'', []))\<rparr>"

lemma listing_lines:
  "splitlines (utf8 (py ''c1'' @ [9] @ py ''Exited'' @ [10] @ py ''c2'' @ [9] @ py ''Up 7 seconds'')) =
     [py ''c1'' @ [9] @ py ''Exited'', py ''c2'' @ [9] @ py ''Up 7 seconds'']"
proof -
  let ?out = "py ''c1'' @ [9] @ py ''Exited'' @ [10] @ py ''c2'' @ [9] @ py ''Up 7 seconds''"
  have "utf8 ?out = ?out" by (subst decode_ascii) (simp_all add: py_def)
  then show ?thesis by (simp add: py_def splitlines_def is_linebreak_def)
qed

lemma listing_reap:
  "reap_line no_unicode (py ''c1'' @ [9] @ py ''Exited'') = Some (py ''c1'')"
  "reap_line no_unicode (py ''c2'' @ [9] @ py ''Up 7 seconds'') = None"
  using should_reap_gone [of "''Exited''" no_unicode "[]" "[]"] should_reap_up [of no_unicode "Seconds 7" "[]"]
  by (simp_all add: reap_line_def py_def digits.simps [of 7] stale_def ORPHAN_AGE_SECONDS_def)

theorem reap_containers_exact_witness:
  "\<exists>t. reap_containers listing_env sample_ctx [] = (Inr 1, t) \<and>
     rm_cmd sample_ctx (py ''c1'') \<in> fst ` set t"
proof -
  let ?out = "py ''c1'' @ [9] @ py ''Exited'' @ [10] @ py ''c2'' @ [9] @ py ''Up 7 seconds''"
  obtain n t where run: "reap_containers listing_env sample_ctx [] = (Inr n, t)"
      "hd t = (Proc (Simple (ps_argv sample_ctx)), Inr (RProc 0 ?out []))"
    using listing_lines listing_reap
    by (simp add: reap_containers_def listing_env_def simple_def bnd_def call_defs call_def ret_def)
  from reap_containers_exact [OF run(1)] run listing_lines listing_reap show ?thesis
    by (auto simp: map_filter_simps Let_def)
qed

lemma for_each_cases:
  "for_each f xs h = (r, t) \<Longrightarrow> ev \<in> set t \<Longrightarrow> \<exists>x \<in> set xs. \<exists>h' r' t'. f x h' = (r', t') \<and> ev \<in> set t'
     \<and> set t' \<subseteq> set t"
proof (induction xs arbitrary: h r t)
  case (Cons x xs)
  from Cons.prems(1) consider
    (raised) e where "f x h = (Inl e, t)"
  | (stepped) t1 t2 where "f x h = (Inr (), t1)" "for_each f xs (h @ t1) = (r, t2)" "t = t1 @ t2"
    by (auto simp: bnd_eq)
  then show ?case
  proof cases
    case raised
    then show ?thesis using Cons.prems(2) by (intro bexI [of _ x]) auto
  next
    case (stepped t1 t2)
    show ?thesis
    proof (cases "ev \<in> set t1")
      case True
      with stepped show ?thesis by (intro bexI [of _ x]) auto
    next
      case False
      then have "ev \<in> set t2" using stepped Cons.prems(2) by simp
      from Cons.IH [OF stepped(2) this] stepped(3) show ?thesis
        by (auto intro!: bexI)
    qed
  qed
qed simp

lemma reap_workdir_trace:
  assumes "reap_workdir E X now entry h = (r, t)" "(Fs (Rmtree p), a) \<in> set t"
  shows "\<exists>m. p = path_join (local_workdir (config_of X)) entry \<and>
     (Fs (Getmtime p), Inr (RTime m)) \<in> set t \<and> 300 < now - m"
  using assms
  by (auto simp: reap_workdir_def Let_def bnd_eq catch_eq attempt_eq call_defs call_eq ORPHAN_AGE_SECONDS_def
      split: if_splits option.splits)

text \<open>
  C31: The reaper deletes a work directory only if it is an entry of the worker's directory
  and, by the clock reading of this cycle and its modification time, older than 300
  seconds; an entry whose age cannot be read is left alone.
\<close>

theorem reap_workdirs_only_old:
  assumes "reap_workdirs E X h = (r, t)" "(Fs (Rmtree p), a) \<in> set t"
  shows "\<exists>entries entry now m. (Fs (Listdir (local_workdir (config_of X))), Inr (RStrs entries)) \<in> set t \<and>
     entry \<in> set entries \<and> p = path_join (local_workdir (config_of X)) entry \<and>
     (Clock, Inr (RTime now)) \<in> set t \<and> (Fs (Getmtime p), Inr (RTime m)) \<in> set t \<and> 300 < now - m"
proof -
  from assms obtain now entries t' h' where
      t: "(Clock, Inr (RTime now)) \<in> set t"
         "(Fs (Listdir (local_workdir (config_of X))), Inr (RStrs entries)) \<in> set t"
    and loop: "for_each (reap_workdir E X now) entries h' = (r, t')" "set t' \<subseteq> set t"
         "(Fs (Rmtree p), a) \<in> set t'"
    unfolding reap_workdirs_def
    by (auto simp: bnd_eq call_defs call_eq split: if_splits) blast
  from for_each_cases [OF loop(1,3)] obtain entry h2 r2 t2 where
      e: "entry \<in> set entries" "reap_workdir E X now entry h2 = (r2, t2)" "(Fs (Rmtree p), a) \<in> set t2"
         "set t2 \<subseteq> set t'" by blast
  from reap_workdir_trace [OF e(2,3)] e t loop(2) show ?thesis by blast
qed

definition old_dir_env :: env where
  "old_dir_env = calm\<lparr>ask_bool := (\<lambda>_ _. Inr True), ask_strs := (\<lambda>_ _. Inr [py ''j0-y'']),
     ask_time := (\<lambda>_ c. case c of Fs _ \<Rightarrow> Inr 0 | _ \<Rightarrow> Inr 1000)\<rparr>"

theorem reap_workdirs_only_old_witness:
  "\<exists>r t entries. reap_workdirs old_dir_env sample_ctx [] = (r, t) \<and>
     (Fs (Rmtree (py ''/work/j0-y'')), Inr RUnit) \<in> set t \<and>
     (Fs (Listdir (py ''/work'')), Inr (RStrs entries)) \<in> set t"
proof -
  have j: "path_join (py ''/work'') (py ''j0-y'') = py ''/work/j0-y''"
    by (simp add: path_join_def startswith_def endswith_def py_def)
  obtain r t where run: "reap_workdirs old_dir_env sample_ctx [] = (r, t)"
      "(Fs (Rmtree (py ''/work/j0-y'')), Inr RUnit) \<in> set t"
    by (simp add: reap_workdirs_def old_dir_env_def reap_workdir_def bnd_def catch_def attempt_def call_defs
        call_def ret_def ORPHAN_AGE_SECONDS_def Let_def j)
  from reap_workdirs_only_old [OF run] run show ?thesis by auto
qed

end
