(* ===== verification/Pool.thy ===== *)
theory Pool
  imports Cleanup Worker "HOL-Library.Multiset"
begin

text \<open>
  The consume loop, the job pool and the life cycle of \<^verbatim>\<open>WorkerDaemon\<close>. The loop is an
  effectful operation: the number of jobs in flight changes while the loop waits, so it is
  read from the environment whenever the code reads it. The pool itself, dispatch against
  completion, is a step relation in which jobs finish at any moment.
\<close>

subsection \<open>The consume loop\<close>

definition SLOT_WAIT_SECONDS :: rat where "SLOT_WAIT_SECONDS = 1 / 20"

definition dispatch :: "env \<Rightarrow> queue_message \<Rightarrow> unit io" where
  "dispatch E m = seq (do_unit E (Task AcquireSlot)) (do_unit E (Task (StartTask (msg_id m))))"

text \<open>The delay of \<^verbatim>\<open>_backoff\<close>: between half a second and 4.25 seconds.\<close>

definition backoff :: "env \<Rightarrow> unit io" where
  "backoff E =
     bnd (get_int E (RandInt 0 3)) (\<lambda>k.
     bnd (get_time E (RandUniform 0 (1 / 4))) (\<lambda>u.
     do_unit E (Sleep (min 5 (1 / 2 * 2 ^ nat k) + u))))"

definition capacity :: "env \<Rightarrow> daemon \<Rightarrow> int io" where
  "capacity E D = bnd (get_int E (Task InflightCount)) (\<lambda>n. ret (worker_concurrency (dcfg D) - n))"

definition consume_step :: "env \<Rightarrow> daemon \<Rightarrow> unit io" where
  "consume_step E D =
     (let cfg = dcfg D
      in catch
        (bnd (capacity E D) (\<lambda>free.
           if free \<le> 0 then do_unit E (Sleep SLOT_WAIT_SECONDS)
           else
             bnd (queue_depth E) (\<lambda>depth.
             seq (metric ''sandbox_queue_depth'' SetTo [] (of_int depth))
             (bnd (claim_stale E (worker_id cfg) (claim_min_idle_ms cfg) (min (read_count cfg) free)) (\<lambda>stale.
              seq (for_each (\<lambda>m. seq (metric ''sandbox_reclaimed_jobs_total'' Inc [] 1) (dispatch E m)) stale)
              (bnd (capacity E D) (\<lambda>free.
                 if free \<le> 0 then ret ()
                 else bnd (read E (worker_id cfg) (min (read_count cfg) free) (block_ms cfg))
                        (for_each (dispatch E)))))))))
        (\<lambda>e. if is_RedisError e then Some (backoff E) else None))"

text \<open>\<^verbatim>\<open>_consume_loop\<close>, unrolled \<open>n\<close> times; \<open>True\<close> when the stop event ended it.\<close>

fun consume_loop :: "env \<Rightarrow> daemon \<Rightarrow> nat \<Rightarrow> bool io" where
  "consume_loop E D 0 = ret False"
| "consume_loop E D (Suc n) =
     bnd (get_bool E StopIsSet) (\<lambda>stopped.
       if stopped then ret True else seq (consume_step E D) (consume_loop E D n))"

definition drain :: "env \<Rightarrow> unit io" where
  "drain E =
     bnd (get_int E (Task InflightCount)) (\<lambda>n.
       if n \<noteq> 0 then do_unit E (Task GatherTasks) else ret ())"

text \<open>
  The \<^verbatim>\<open>finally\<close> part of \<^verbatim>\<open>run\<close>. Awaiting the cancelled reaper raises \<^verbatim>\<open>CancelledError\<close>
  unless the reaper has already returned; \<^verbatim>\<open>suppress(Exception)\<close> does not catch it.
\<close>

definition shutdown :: "env \<Rightarrow> unit io" where
  "shutdown E =
     seq reaper_stop
     (seq (drain E)
     (seq (suppress is_Exception (do_unit E (Task JoinReaper)))
          (do_unit E (Redis Aclose))))"

definition request_stop :: "unit io" where
  "request_stop = set_event SetStopping"

definition run_daemon :: "env \<Rightarrow> daemon \<Rightarrow> nat \<Rightarrow> unit io" where
  "run_daemon E D n =
     seq (ensure_bucket E (dstore D))
     (seq (ensure_group E)
     (seq (do_unit E (Task (StartTask (py ''reaper''))))
     (try_finally (seq (consume_loop E D n) (ret ())) (shutdown E))))"

subsection \<open>What the loop fetches\<close>

text \<open>The entries a fetch may return.\<close>

fun fetch_count :: "cmd \<Rightarrow> int option" where
  "fetch_count (Redis (XReadGroup _ _ _ k _)) = Some k"
| "fetch_count (Redis (XPendingRange _ _ k _)) = Some k"
| "fetch_count _ = None"

text \<open>Every fetch asks for at most the slots free at the last reading of the pool.\<close>

fun fetches_fit :: "worker_config \<Rightarrow> int option \<Rightarrow> event list \<Rightarrow> bool" where
  "fetches_fit cfg seen [] = True"
| "fetches_fit cfg seen ((c, r) # t) =
     (case fetch_count c of
        Some k \<Rightarrow>
          (case seen of
             Some n \<Rightarrow> 0 < worker_concurrency cfg - n \<and> k \<le> worker_concurrency cfg - n \<and> k \<le> read_count cfg
           | None \<Rightarrow> False) \<and> fetches_fit cfg seen t
      | None \<Rightarrow>
          fetches_fit cfg
            (if c = Task InflightCount then (case r of Inr (RInt n) \<Rightarrow> Some n | _ \<Rightarrow> None) else seen) t)"

definition neutral :: "event \<Rightarrow> bool" where
  "neutral ev \<longleftrightarrow> fetch_count (fst ev) = None \<and> fst ev \<noteq> Task InflightCount"

lemma fits_neutral_append:
  "list_all neutral t1 \<Longrightarrow> fetches_fit cfg seen (t1 @ t2) = fetches_fit cfg seen t2"
  by (induction t1) (auto simp: neutral_def)

lemma fits_neutral: "list_all neutral t \<Longrightarrow> fetches_fit cfg seen t"
  using fits_neutral_append [of t cfg seen "[]"] by simp

definition fits :: "worker_config \<Rightarrow> int option \<Rightarrow> 'a io \<Rightarrow> bool" where
  "fits cfg seen m \<longleftrightarrow> (\<forall>h. fetches_fit cfg seen (snd (m h)))"

lemma fits_only: "only neutral m \<Longrightarrow> fits cfg seen m"
  by (simp add: fits_def only_def fits_neutral)

lemma fits_bnd:
  assumes "only neutral m" "\<And>a. fits cfg seen (f a)"
  shows "fits cfg seen (bnd m f)"
  unfolding fits_def
proof
  fix h
  have "list_all neutral (snd (m h))" using assms(1) by (simp add: only_def)
  then show "fetches_fit cfg seen (snd (bnd m f h))"
    using assms(2) by (auto simp: bnd_def fits_def fits_neutral_append fits_neutral split: prod.splits sum.splits)
      (metis snd_conv)
qed

lemma fits_catch:
  assumes "fits cfg seen m" "\<And>e m'. H e = Some m' \<Longrightarrow> only neutral m'"
  shows "fits cfg seen (catch m H)"
proof -
  have snoc: "fetches_fit cfg seen (t1 @ t2) \<longleftrightarrow> fetches_fit cfg seen t1" if "list_all neutral t2" for seen t1 t2
    using that by (induction t1 arbitrary: seen) (auto simp: fits_neutral split: option.splits)
  show ?thesis
    unfolding fits_def
  proof
    fix h
    have "fetches_fit cfg seen (snd (m h))" using assms(1) by (simp add: fits_def)
    then show "fetches_fit cfg seen (snd (catch m H h))"
      using assms(2) by (auto simp: catch_def only_def snoc split: prod.splits sum.splits option.splits)
        (metis snd_conv snoc)
  qed
qed

lemma fits_capacity:
  assumes "\<And>n. fits (dcfg D) (Some n) (f (worker_concurrency (dcfg D) - n))"
  shows "fits (dcfg D) seen (bnd (capacity E D) f)"
  using assms unfolding fits_def capacity_def
  by (auto simp: bnd_def call_defs call_def ret_def split: sum.splits prod.splits) (metis snd_conv)

lemma fits_fetch:
  assumes "fetch_count c = Some k" "0 < worker_concurrency cfg - n" "k \<le> worker_concurrency cfg - n"
    and "k \<le> read_count cfg" "\<And>a. fits cfg (Some n) (f a)"
  shows "fits cfg (Some n) (bnd (call ask wrap c) f)"
  using assms unfolding fits_def
  by (auto simp: bnd_def call_def split: sum.splits prod.splits) (metis snd_conv)

lemma neutral_ensure_group: "only neutral (ensure_group E)"
  by (auto simp: only_def ensure_group_def create_group_def ret_def suppress_def catch_def call_defs call_def neutral_def
      split: sum.splits prod.splits)

lemma neutral_claim_each: "only neutral (claim_each E w idle pending claimed)"
  by (induction pending arbitrary: claimed) (auto intro!: only_rules simp: neutral_def)

lemma neutral_dispatch: "only neutral (dispatch E m)"
  unfolding dispatch_def by (auto intro!: only_rules simp: neutral_def)

lemma neutral_backoff: "only neutral (backoff E)"
  unfolding backoff_def by (auto intro!: only_rules simp: neutral_def)

lemma neutral_depth: "only neutral (queue_depth E)"
  unfolding queue_depth_def by (auto intro!: only_rules simp: neutral_def split: exn.splits)

lemma fits_claim_stale:
  assumes "0 < worker_concurrency cfg - n" "k \<le> worker_concurrency cfg - n" "k \<le> read_count cfg"
    and "\<And>ms. fits cfg (Some n) (f ms)"
  shows "fits cfg (Some n) (bnd (claim_stale E w idle k) f)"
  unfolding claim_stale_def bnd_assoc get_pending_def
  using assms by (intro fits_bnd fits_fetch neutral_ensure_group neutral_claim_each) auto

lemma fits_read:
  assumes "0 < worker_concurrency cfg - n" "k \<le> worker_concurrency cfg - n" "k \<le> read_count cfg"
    and "\<And>ms. fits cfg (Some n) (f ms)"
  shows "fits cfg (Some n) (bnd (read E w k block) f)"
  unfolding read_def bnd_assoc get_streams_def
  using assms by (intro fits_bnd fits_fetch neutral_ensure_group) auto

text \<open>
  C21: No delivered-but-idle entries: every fetch of the consume loop, of stale and of new
  entries alike, asks for no more entries than there were free pool slots at the last look
  at the pool and no more than the configured batch, and it fetches nothing when no slot is
  free.
\<close>

theorem consume_step_fits:
  "fetches_fit (dcfg D) seen (snd (consume_step E D h))"
proof -
  have new: "fits (dcfg D) seen' (bnd (capacity E D) (\<lambda>free.
      if free \<le> 0 then ret ()
      else bnd (read E w (min (read_count (dcfg D)) free) b) (for_each (dispatch E))))" for seen' w b
    by (rule fits_capacity) (auto intro!: fits_read fits_only [OF only_ret] fits_only [OF only_for_each [OF neutral_dispatch]])
  have stale: "only neutral (for_each (\<lambda>m. seq (metric ''sandbox_reclaimed_jobs_total'' Inc [] 1) (dispatch E m)) ms)" for ms
    by (rule only_for_each) (auto intro!: only_rules neutral_dispatch simp: neutral_def)
  have depth: "only neutral (metric nm oper l v)" for nm oper l v
    by (auto intro!: only_rules simp: neutral_def)
  have sleep: "only neutral (do_unit E (Sleep r))" for r
    by (auto intro!: only_rules simp: neutral_def)
  have "fits (dcfg D) seen (consume_step E D)"
    unfolding consume_step_def Let_def
  proof (rule fits_catch, rule fits_capacity, goal_cases)
    case (1 n)
    show ?case
      using new stale depth sleep
      by (auto intro!: fits_only [OF sleep] fits_bnd [OF neutral_depth] fits_bnd [OF depth] fits_claim_stale fits_bnd [OF stale])
  next
    case (2 e m')
    then show ?case by (auto simp: neutral_backoff split: if_splits)
  qed
  then show ?thesis by (simp add: fits_def)
qed

text \<open>
  Stopping does not always close the Redis connection. \<^verbatim>\<open>run\<close> cancels the reaper and
  awaits it under \<^verbatim>\<open>suppress(Exception)\<close>; \<^verbatim>\<open>CancelledError\<close> is no \<^verbatim>\<open>Exception\<close>, so when
  awaiting the cancelled reaper raises it, \<^verbatim>\<open>run\<close> raises it too and the connection is
  never closed.
\<close>

theorem cancelled_reaper_skips_close:
  assumes "\<And>h. ask_unit E h (Task JoinReaper) = Inl CancelledError"
    and "drain E (h @ [(Task SetReaperStop, Inr RUnit)]) = (Inr (), t)"
  shows "\<exists>t. shutdown E h = (Inl CancelledError, t) \<and> Redis Aclose \<notin> fst ` set t"
proof -
  have "Redis Aclose \<notin> fst ` set t"
    using assms(2) by (auto simp: drain_def bnd_def call_defs call_def ret_def split: sum.splits if_splits)
  then show ?thesis
    using assms
    by (auto simp: shutdown_def reaper_stop_def set_event_def suppress_def catch_def bnd_def call_defs call_def is_Exception_def)
qed

text \<open>The sample environment, in which awaiting the cancelled reaper raises.\<close>

definition reaper_cancelled :: env where
  "reaper_cancelled = calm
     \<lparr>ask_unit := (\<lambda>_ c. if c = Task JoinReaper then Inl CancelledError else Inr ())\<rparr>"

theorem cancelled_reaper_skips_close_witness:
  "\<exists>t. shutdown reaper_cancelled [] = (Inl CancelledError, t) \<and> Redis Aclose \<notin> fst ` set t"
  by (rule cancelled_reaper_skips_close
        [where t = "[(Task InflightCount, Inr (RInt 0))]"])
    (simp_all add: reaper_cancelled_def drain_def bnd_def call_defs call_def ret_def)

subsection \<open>Fetches return what they are asked for\<close>

text \<open>
  Documented behaviour of Redis: \<^verbatim>\<open>XREADGROUP\<close> and \<^verbatim>\<open>XPENDING\<close> return at most \<^verbatim>\<open>COUNT\<close>
  entries, and \<^verbatim>\<open>XCLAIM\<close> of one entry returns at most that entry.
\<close>

definition counts_respected :: "env \<Rightarrow> bool" where
  "counts_respected E \<longleftrightarrow>
     (\<forall>h g w s n b res. ask_streams E h (Redis (XReadGroup g w s n b)) = Inr res \<longrightarrow>
        length (concat (map snd res)) \<le> nat n) \<and>
     (\<forall>h s g n i res. ask_pending E h (Redis (XPendingRange s g n i)) = Inr res \<longrightarrow> length res \<le> nat n) \<and>
     (\<forall>h s g w i ids res. ask_entries E h (Redis (XClaim s g w i ids)) = Inr res \<longrightarrow> length res \<le> length ids)"

lemma claim_each_length:
  assumes "counts_respected E" "claim_each E w i pending claimed h = (Inr ms, t)"
  shows "length ms \<le> length claimed + length pending"
  using assms(2)
proof (induction pending arbitrary: claimed h t)
  case Nil
  then show ?case by (simp add: ret_def)
next
  case (Cons p pending)
  obtain mid n where p: "p = (mid, n)" by (cases p)
  from Cons.prems p obtain res t1 t2 where
    res: "ask_entries E h (Redis (XClaim JOB_STREAM CONSUMER_GROUP w i [mid])) = Inr res" and
    rest: "claim_each E w i pending (claimed @ map (\<lambda>(cid, fs). to_message cid fs n) res) (h @ t1) = (Inr ms, t2)"
    by (auto simp: bnd_Inr_eq call_defs call_def)
  have "length res \<le> length [mid]" using assms(1) res unfolding counts_respected_def by blast
  with Cons.IH [OF rest] show ?case by simp
qed

lemma claim_stale_length:
  assumes "counts_respected E" "claim_stale E w i n h = (Inr ms, t)"
  shows "length ms \<le> nat n"
proof -
  obtain pending h1 h2 t2 where
    "ask_pending E h1 (Redis (XPendingRange JOB_STREAM CONSUMER_GROUP n i)) = Inr pending" and
    claim: "claim_each E w i pending [] h2 = (Inr ms, t2)"
    using assms(2) by (auto simp: claim_stale_def bnd_Inr_eq call_defs call_def)
  then have "length pending \<le> nat n" using assms(1) unfolding counts_respected_def by blast
  with claim_each_length [OF assms(1) claim] show ?thesis by simp
qed

lemma read_length:
  assumes "counts_respected E" "read E w n b h = (Inr ms, t)"
  shows "length ms \<le> nat n"
proof -
  obtain res h1 where res: "ask_streams E h1 (Redis (XReadGroup CONSUMER_GROUP w JOB_STREAM n b)) = Inr res" and
    ms: "ms = concat (map (\<lambda>(_, entries). map (\<lambda>(mid, fs). to_message mid fs 1) entries) res)"
    using assms(2) by (auto simp: read_def bnd_Inr_eq call_defs call_def ret_def)
  have "length (concat (map snd res)) \<le> nat n" using assms(1) res unfolding counts_respected_def by blast
  moreover have "length (concat (map (\<lambda>(_, entries). map (\<lambda>(mid, fs). to_message mid fs 1) entries) xs))
      = length (concat (map snd xs))" for xs :: "(pystr \<times> (pystr \<times> fields) list) list"
    by (induction xs) auto
  ultimately show ?thesis by (simp add: ms)
qed

subsection \<open>The pool under concurrency\<close>

text \<open>
  The state the consume loop shares with the event loop. \<open>inflight\<close> and \<open>slots\<close> are
  \<^verbatim>\<open>_inflight\<close> and the value of the semaphore; \<open>todo\<close> holds the messages of the batch at
  hand not dispatched yet; \<open>fetched\<close> and \<open>ended\<close> record the messages the fetches returned
  and the jobs that ended. The loop is at the top (\<open>Top\<close>), inside \<^verbatim>\<open>claim_stale\<close>
  (\<open>Claiming\<close>) or \<^verbatim>\<open>read\<close> (\<open>Reading\<close>) with the count it asked for, dispatching the stale
  or the new batch, or it has left and drains (\<open>Draining\<close>) until nothing is in flight
  (\<open>Drained\<close>).

  A job may end at any moment. Its two done-callbacks, \<^verbatim>\<open>discard\<close> and \<^verbatim>\<open>release\<close>, are
  scheduled together and run back to back, so ending is one step. A dispatch runs when the
  semaphore has a slot; otherwise the loop waits in \<^verbatim>\<open>acquire\<close>.
\<close>

datatype loop_phase =
  Top | Claiming int | DispatchStale | Reading int | DispatchNew | Draining | Drained

record pool =
  inflight :: "queue_message list"
  slots :: nat
  todo :: "queue_message list"
  loop_at :: loop_phase
  fetched :: "queue_message list"
  ended :: "queue_message list"

definition new_pool :: "worker_config \<Rightarrow> pool" where
  "new_pool cfg =
     \<lparr>inflight = [], slots = nat (worker_concurrency cfg), todo = [], loop_at = Top, fetched = [], ended = []\<rparr>"

definition free :: "worker_config \<Rightarrow> pool \<Rightarrow> int" where
  "free cfg s = worker_concurrency cfg - int (length (inflight s))"

fun fetching :: "loop_phase \<Rightarrow> bool" where
  "fetching (Claiming _) = True"
| "fetching (Reading _) = True"
| "fetching _ = False"

inductive pool_step :: "env \<Rightarrow> worker_config \<Rightarrow> pool \<Rightarrow> pool \<Rightarrow> bool" for E cfg where
  look_full: "loop_at s = Top \<Longrightarrow> free cfg s \<le> 0 \<Longrightarrow> pool_step E cfg s s"
| look_free: "loop_at s = Top \<Longrightarrow> 0 < free cfg s \<Longrightarrow>
    pool_step E cfg s (s\<lparr>loop_at := Claiming (min (read_count cfg) (free cfg s))\<rparr>)"
| claim: "loop_at s = Claiming n \<Longrightarrow> claim_stale E (worker_id cfg) (claim_min_idle_ms cfg) n h = (Inr ms, t) \<Longrightarrow>
    pool_step E cfg s (s\<lparr>loop_at := DispatchStale, todo := ms, fetched := fetched s @ ms\<rparr>)"
| start: "loop_at s \<in> {DispatchStale, DispatchNew} \<Longrightarrow> todo s = m # ms \<Longrightarrow> 0 < slots s \<Longrightarrow>
    pool_step E cfg s (s\<lparr>todo := ms, slots := slots s - 1, inflight := m # inflight s\<rparr>)"
| again_full: "loop_at s = DispatchStale \<Longrightarrow> todo s = [] \<Longrightarrow> free cfg s \<le> 0 \<Longrightarrow>
    pool_step E cfg s (s\<lparr>loop_at := Top\<rparr>)"
| again_free: "loop_at s = DispatchStale \<Longrightarrow> todo s = [] \<Longrightarrow> 0 < free cfg s \<Longrightarrow>
    pool_step E cfg s (s\<lparr>loop_at := Reading (min (read_count cfg) (free cfg s))\<rparr>)"
| read_new: "loop_at s = Reading n \<Longrightarrow> read E (worker_id cfg) n (block_ms cfg) h = (Inr ms, t) \<Longrightarrow>
    pool_step E cfg s (s\<lparr>loop_at := DispatchNew, todo := ms, fetched := fetched s @ ms\<rparr>)"
| round_over: "loop_at s = DispatchNew \<Longrightarrow> todo s = [] \<Longrightarrow> pool_step E cfg s (s\<lparr>loop_at := Top\<rparr>)"
| back_off: "fetching (loop_at s) \<Longrightarrow> pool_step E cfg s (s\<lparr>loop_at := Top\<rparr>)"
| crash: "fetching (loop_at s) \<Longrightarrow> pool_step E cfg s (s\<lparr>loop_at := Draining\<rparr>)"
| stop: "loop_at s = Top \<Longrightarrow> pool_step E cfg s (s\<lparr>loop_at := Draining\<rparr>)"
| finish: "m \<in> set (inflight s) \<Longrightarrow>
    pool_step E cfg s (s\<lparr>inflight := remove1 m (inflight s), slots := slots s + 1, ended := m # ended s\<rparr>)"
| drained: "loop_at s = Draining \<Longrightarrow> inflight s = [] \<Longrightarrow> pool_step E cfg s (s\<lparr>loop_at := Drained\<rparr>)"

inductive pool_reach :: "env \<Rightarrow> worker_config \<Rightarrow> pool \<Rightarrow> bool" for E cfg where
  init: "pool_reach E cfg (new_pool cfg)"
| step: "pool_reach E cfg s \<Longrightarrow> pool_step E cfg s s' \<Longrightarrow> pool_reach E cfg s'"

inductive_cases pool_stepE: "pool_step E cfg s s'"

text \<open>
  The contract of a semaphore with the jobs that hold it: every step keeps the sum of permits
  left and jobs running. Then no run of steps can have more jobs than there were permits.
\<close>

locale permits =
  fixes step :: "'s \<Rightarrow> 's \<Rightarrow> bool"
    and running :: "'s \<Rightarrow> nat"
    and left :: "'s \<Rightarrow> nat"
  assumes step_keeps: "step s s' \<Longrightarrow> running s' + left s' = running s + left s"
begin

lemma run_keeps: "step\<^sup>*\<^sup>* s s' \<Longrightarrow> running s' + left s' = running s + left s"
  by (induction rule: rtranclp_induct) (simp_all add: step_keeps)

lemma run_bounded: "step\<^sup>*\<^sup>* s s' \<Longrightarrow> running s' \<le> running s + left s"
  using run_keeps [of s s'] by simp

end

interpretation sem: permits "pool_step E cfg" "\<lambda>s. length (inflight s)" slots for E cfg
proof unfold_locales
  fix s s' assume "pool_step E cfg s s'"
  then show "length (inflight s') + slots s' = length (inflight s) + slots s"
    by (elim pool_stepE) (auto simp: length_remove1_Suc simp del: length_remove1)
qed

lemma pool_reach_run: "pool_reach E cfg s \<longleftrightarrow> (pool_step E cfg)\<^sup>*\<^sup>* (new_pool cfg) s"
proof
  show "pool_reach E cfg s \<Longrightarrow> (pool_step E cfg)\<^sup>*\<^sup>* (new_pool cfg) s"
    by (induction rule: pool_reach.induct) auto
  show "(pool_step E cfg)\<^sup>*\<^sup>* (new_pool cfg) s \<Longrightarrow> pool_reach E cfg s"
    by (induction rule: rtranclp_induct) (auto intro: pool_reach.intros)
qed

lemma pool_permits:
  assumes "0 \<le> worker_concurrency cfg" "pool_reach E cfg s"
  shows "int (length (inflight s) + slots s) = worker_concurrency cfg"
  using sem.run_keeps [of E cfg "new_pool cfg" s] assms by (simp add: pool_reach_run new_pool_def)

text \<open>
  The invariant of the loop: the batch at hand fits the free slots, an outstanding fetch asks
  for no more than the free slots, and a fetched message is waiting, in flight or ended.
\<close>

fun asked :: "loop_phase \<Rightarrow> int" where
  "asked (Claiming n) = n"
| "asked (Reading n) = n"
| "asked _ = 0"

definition pool_inv :: "pool \<Rightarrow> bool" where
  "pool_inv s \<longleftrightarrow>
     asked (loop_at s) \<le> int (slots s) \<and>
     length (todo s) \<le> slots s \<and>
     (loop_at s \<notin> {DispatchStale, DispatchNew} \<longrightarrow> todo s = []) \<and>
     mset (fetched s) = mset (todo s) + mset (inflight s) + mset (ended s) \<and>
     (loop_at s = Drained \<longrightarrow> inflight s = [])"

lemma pool_inv_init: "pool_inv (new_pool cfg)"
  by (simp add: pool_inv_def new_pool_def)

lemma pool_inv_fetch:
  assumes "pool_inv s" "fetching (loop_at s)" "length ms \<le> nat (asked (loop_at s))"
    and "p \<in> {DispatchStale, DispatchNew}"
  shows "pool_inv (s\<lparr>loop_at := p, todo := ms, fetched := fetched s @ ms\<rparr>)"
  using assms by (cases "loop_at s") (auto simp: pool_inv_def)

lemma pool_inv_finish:
  assumes "pool_inv s" "m \<in> set (inflight s)"
  shows "pool_inv (s\<lparr>inflight := remove1 m (inflight s), slots := slots s + 1, ended := m # ended s\<rparr>)"
proof -
  have "mset (inflight s) = add_mset m (mset (remove1 m (inflight s)))" using assms(2) by simp
  moreover have "inflight s \<noteq> []" using assms(2) by auto
  ultimately show ?thesis
    using assms(1) length_remove1_Suc [OF assms(2)] unfolding pool_inv_def by (simp del: mset_remove1)
qed

lemma pool_inv_step:
  assumes "counts_respected E" "int (slots s) = free cfg s" "pool_step E cfg s s'" "pool_inv s"
  shows "pool_inv s'"
  using assms(3,4)
proof cases
  case (claim n h ms t)
  then show ?thesis
    using pool_inv_fetch [OF assms(4), of ms DispatchStale] claim_stale_length [OF assms(1) claim(3)] by simp
next
  case (read_new n h ms t)
  then show ?thesis
    using pool_inv_fetch [OF assms(4), of ms DispatchNew] read_length [OF assms(1) read_new(3)] by simp
next
  case (finish m)
  then show ?thesis using pool_inv_finish [OF assms(4)] by simp
qed (use assms(2,4) in \<open>auto simp: pool_inv_def\<close>)

lemma pool_free:
  "0 \<le> worker_concurrency cfg \<Longrightarrow> pool_reach E cfg s \<Longrightarrow> int (slots s) = free cfg s"
  using pool_permits [of cfg E s] by (simp add: free_def)

lemma pool_inv_reach:
  assumes "counts_respected E" "0 \<le> worker_concurrency cfg" "pool_reach E cfg s"
  shows "pool_inv s"
  using assms(3)
  by induction (auto intro: pool_inv_init pool_inv_step [OF assms(1) pool_free [OF assms(2)]])

text \<open>
  C7: The pool bound. However fetches, dispatches, job ends, errors and the stop signal
  interleave, never more jobs run than the configured concurrency, the semaphore counts
  exactly the remaining slots, and whenever a fetched message is waiting a slot is free, so
  that dispatching never blocks the consume loop.
\<close>

theorem pool_bounded:
  assumes "counts_respected E" "0 \<le> worker_concurrency cfg" "pool_reach E cfg s"
  shows "int (length (inflight s)) \<le> worker_concurrency cfg \<and>
     int (slots s) = worker_concurrency cfg - int (length (inflight s)) \<and>
     (todo s \<noteq> [] \<longrightarrow> 0 < slots s)"
  using pool_permits [OF assms(2,3)] pool_inv_reach [OF assms] by (auto simp: pool_inv_def)

text \<open>
  C20: Graceful shutdown loses nothing. When the daemon has drained, every message a fetch
  ever returned has been dispatched and its job has ended, each as often as it was
  fetched.
\<close>

theorem drain_completes_fetched:
  assumes "counts_respected E" "0 \<le> worker_concurrency cfg" "pool_reach E cfg s" "loop_at s = Drained"
  shows "mset (ended s) = mset (fetched s)"
  using pool_inv_reach [OF assms(1-3)] assms(4) by (auto simp: pool_inv_def)

subsection \<open>A run of the pool\<close>

text \<open>An entry is read, dispatched and ended; then the daemon stops.\<close>

definition one_entry :: env where
  "one_entry = calm\<lparr>ask_streams := (\<lambda>_ c. case c of
       Redis (XReadGroup g w s n b) \<Rightarrow> Inr (if 0 < n then [(s, [(py ''1-0'', [])])] else [])
     | _ \<Rightarrow> Inr [])\<rparr>"

definition sample_msg :: queue_message where
  "sample_msg = to_message (py ''1-0'') [] 1"

lemma one_entry_counts: "counts_respected one_entry"
  by (auto simp: counts_respected_def one_entry_def)

definition pool_claiming :: pool where "pool_claiming = (new_pool sample_config)\<lparr>loop_at := Claiming 1\<rparr>"
definition pool_reading :: pool where "pool_reading = (new_pool sample_config)\<lparr>loop_at := Reading 1\<rparr>"
definition pool_waiting :: pool where
  "pool_waiting = (new_pool sample_config)\<lparr>loop_at := DispatchNew, todo := [sample_msg], fetched := [sample_msg]\<rparr>"
definition pool_running :: pool where
  "pool_running = (new_pool sample_config)
     \<lparr>loop_at := DispatchNew, inflight := [sample_msg], slots := 1, fetched := [sample_msg]\<rparr>"
definition pool_draining :: pool where "pool_draining = pool_running\<lparr>loop_at := Draining\<rparr>"
definition pool_drained :: pool where
  "pool_drained = (new_pool sample_config)\<lparr>loop_at := Drained, fetched := [sample_msg], ended := [sample_msg]\<rparr>"

lemmas sample_pools = pool_claiming_def pool_reading_def pool_waiting_def pool_running_def
  pool_draining_def pool_drained_def new_pool_def free_def sample_config_def

lemma sample_claim:
  "claim_stale one_entry w i 1 [] =
     (Inr [], [(create_group, Inr RUnit), (Redis (XPendingRange JOB_STREAM CONSUMER_GROUP 1 i), Inr (RPending []))])"
  by (simp add: claim_stale_def ensure_group_def group_ready_def suppress_def catch_def bnd_def call_defs call_def
      ret_def one_entry_def)

lemma sample_read: "fst (read one_entry w 1 b []) = Inr [sample_msg]"
  by (simp add: read_def ensure_group_def group_ready_def suppress_def catch_def bnd_def call_defs call_def
      ret_def one_entry_def sample_msg_def)

lemma reach_waiting: "pool_reach one_entry sample_config pool_waiting"
proof -
  let ?step = "pool_step one_entry sample_config"
  have "?step (new_pool sample_config) pool_claiming"
    using pool_step.look_free [of "new_pool sample_config" sample_config] by (simp add: sample_pools)
  then have "pool_reach one_entry sample_config pool_claiming" using pool_reach.init pool_reach.step by blast
  moreover have "?step pool_claiming (pool_claiming\<lparr>loop_at := DispatchStale\<rparr>)"
    using pool_step.claim [of pool_claiming 1 one_entry sample_config, OF _ sample_claim] by (simp add: sample_pools)
  moreover have "?step (pool_claiming\<lparr>loop_at := DispatchStale\<rparr>) pool_reading"
    using pool_step.again_free [of "pool_claiming\<lparr>loop_at := DispatchStale\<rparr>" sample_config] by (simp add: sample_pools)
  moreover have "?step pool_reading pool_waiting"
    using pool_step.read_new [of pool_reading 1 one_entry sample_config "[]" "[sample_msg]"
        "snd (read one_entry (worker_id sample_config) 1 (block_ms sample_config) [])"]
      sample_read [of "worker_id sample_config" "block_ms sample_config"]
    by (simp add: sample_pools prod_eq_iff)
  ultimately show ?thesis by (blast intro: pool_reach.step)
qed

lemma reach_drained: "pool_reach one_entry sample_config pool_drained"
proof -
  let ?step = "pool_step one_entry sample_config"
  have s1: "?step pool_waiting pool_running"
    using pool_step.start [of pool_waiting sample_msg "[]"] by (simp add: sample_pools)
  have s2: "?step pool_running (pool_running\<lparr>loop_at := Top\<rparr>)"
    using pool_step.round_over [of pool_running] by (simp add: sample_pools)
  have s3: "?step (pool_running\<lparr>loop_at := Top\<rparr>) pool_draining"
    using pool_step.stop [of "pool_running\<lparr>loop_at := Top\<rparr>"] by (simp add: sample_pools)
  have s4: "?step pool_draining (pool_drained\<lparr>loop_at := Draining\<rparr>)"
    by (rule pool_step.finish [of sample_msg pool_draining, THEN back_subst [where P = "pool_step one_entry sample_config pool_draining"]])
      (simp_all add: sample_pools)
  have s5: "?step (pool_drained\<lparr>loop_at := Draining\<rparr>) pool_drained"
    using pool_step.drained [of "pool_drained\<lparr>loop_at := Draining\<rparr>"] by (simp add: sample_pools)
  note reach = pool_reach.step
  show ?thesis
    by (rule reach [OF reach [OF reach [OF reach [OF reach [OF reach_waiting s1] s2] s3] s4] s5])
qed

theorem pool_bounded_witness: "todo pool_waiting = [sample_msg] \<and> 0 < slots pool_waiting"
proof -
  have "0 \<le> worker_concurrency sample_config" by (simp add: sample_config_def)
  moreover have "todo pool_waiting = [sample_msg]" by (simp add: sample_pools)
  ultimately show ?thesis using pool_bounded [OF one_entry_counts _ reach_waiting] by simp
qed

theorem drain_completes_fetched_witness: "ended pool_drained = [sample_msg] \<and> mset (ended pool_drained) = mset (fetched pool_drained)"
proof -
  have "0 \<le> worker_concurrency sample_config" by (simp add: sample_config_def)
  moreover have "loop_at pool_drained = Drained" "ended pool_drained = [sample_msg]" by (simp_all add: sample_pools)
  ultimately show ?thesis using drain_completes_fetched [OF one_entry_counts _ reach_drained] by simp
qed

end
