(* ===== verification/Telemetry.thy ===== *)
theory Telemetry
  imports Pool
begin

text \<open>
  \<^verbatim>\<open>worker/telemetry/metrics.py\<close>: the metrics the worker declares. Updating a metric is
  modelled as an event that cannot fail; this theory shows that the updates of the worker
  meet the conditions under which the client library raises nothing.
\<close>

datatype metric_kind = Counter | Gauge | Histogram

record metric_decl =
  mt_kind :: metric_kind
  mt_name :: pystr
  mt_labels :: "pystr list"
  mt_buckets :: "rat list"

definition counter :: "string \<Rightarrow> string list \<Rightarrow> metric_decl" where
  "counter n ls = \<lparr>mt_kind = Counter, mt_name = py n, mt_labels = map py ls, mt_buckets = []\<rparr>"
definition gauge :: "string \<Rightarrow> metric_decl" where
  "gauge n = \<lparr>mt_kind = Gauge, mt_name = py n, mt_labels = [], mt_buckets = []\<rparr>"
definition histogram :: "string \<Rightarrow> string list \<Rightarrow> rat list \<Rightarrow> metric_decl" where
  "histogram n ls bs = \<lparr>mt_kind = Histogram, mt_name = py n, mt_labels = map py ls, mt_buckets = bs\<rparr>"

lemmas metric_decls = counter_def gauge_def histogram_def

definition EXECUTIONS_TOTAL :: metric_decl where
  "EXECUTIONS_TOTAL = counter ''sandbox_executions_total'' [''language'', ''status'']"
definition EXECUTION_DURATION :: metric_decl where
  "EXECUTION_DURATION = histogram ''sandbox_execution_duration_seconds'' [''language'']
     [5/100, 1/10, 25/100, 1/2, 1, 2, 5, 10, 20, 30, 60]"
definition CONTAINER_STARTUP :: metric_decl where
  "CONTAINER_STARTUP = histogram ''sandbox_container_startup_seconds'' []
     [5/100, 1/10, 2/10, 4/10, 8/10, 15/10, 3, 5]"
definition QUEUE_DEPTH :: metric_decl where "QUEUE_DEPTH = gauge ''sandbox_queue_depth''"
definition OOM_KILLS :: metric_decl where "OOM_KILLS = counter ''sandbox_oom_kills_total'' []"
definition TIMEOUT_KILLS :: metric_decl where "TIMEOUT_KILLS = counter ''sandbox_timeout_kills_total'' []"
definition JOBS_IN_FLIGHT :: metric_decl where "JOBS_IN_FLIGHT = gauge ''sandbox_jobs_in_flight''"
definition RECLAIMED_JOBS :: metric_decl where "RECLAIMED_JOBS = counter ''sandbox_reclaimed_jobs_total'' []"
definition DEAD_LETTERED :: metric_decl where "DEAD_LETTERED = counter ''sandbox_dead_lettered_total'' []"

text \<open>All of them.\<close>

definition METRICS :: "metric_decl list" where
  "METRICS = [EXECUTIONS_TOTAL, EXECUTION_DURATION, CONTAINER_STARTUP, QUEUE_DEPTH, OOM_KILLS, TIMEOUT_KILLS,
     JOBS_IN_FLIGHT, RECLAIMED_JOBS, DEAD_LETTERED]"

lemmas METRICS_defs = METRICS_def EXECUTIONS_TOTAL_def EXECUTION_DURATION_def CONTAINER_STARTUP_def QUEUE_DEPTH_def
  OOM_KILLS_def TIMEOUT_KILLS_def JOBS_IN_FLIGHT_def RECLAIMED_JOBS_def DEAD_LETTERED_def metric_decls

definition start_metrics_server :: "env \<Rightarrow> int \<Rightarrow> unit io" where
  "start_metrics_server E port = do_unit E (Startup (MetricsServer port))"

subsection \<open>Every update is legal\<close>

text \<open>
  The operations a kind of metric has; a counter can only grow.
\<close>

fun op_fits :: "metric_kind \<Rightarrow> metric_op \<Rightarrow> rat \<Rightarrow> bool" where
  "op_fits Counter Inc v \<longleftrightarrow> 0 \<le> v"
| "op_fits Gauge Inc v = True"
| "op_fits Gauge Dec v = True"
| "op_fits Gauge SetTo v = True"
| "op_fits Histogram Observe v = True"
| "op_fits _ _ _ = False"

text \<open>
  An update uses an operation of the metric with exactly its labels by name; the label
  \<^verbatim>\<open>status\<close> holds one of the four terminal statuses.
\<close>

definition label_ok :: "pystr \<times> pystr \<Rightarrow> bool" where
  "label_ok l \<longleftrightarrow> fst l = py ''status'' \<longrightarrow> snd l \<in> set (map status_str TERMINAL_STATUSES)"

fun update_ok :: "cmd \<Rightarrow> bool" where
  "update_ok (Metric n oper ls v) \<longleftrightarrow>
     list_ex (\<lambda>d. mt_name d = n \<and> map fst ls = mt_labels d \<and> op_fits (mt_kind d) oper v) METRICS \<and> list_all label_ok ls"
| "update_ok _ = True"

abbreviation legal :: "event \<Rightarrow> bool" where
  "legal ev \<equiv> update_ok (fst ev)"

lemma legal_local: "local_cmd c \<Longrightarrow> update_ok c"
  by (cases c rule: local_cmd.cases) (simp_all add: METRICS_defs)

lemma legal_store:
  "only legal (patch_record E jid kvs)" "only legal (set_running E jid wid)"
  "only legal (store_terminal E S jid res wid)" "only legal (is_cancelled E jid)" "only legal (release_slot E user jid)"
proof -
  show patch: "only legal (patch_record E jid kvs)" for kvs
    unfolding patch_record_def get_record_def Let_def by (auto intro!: only_rules split: option.splits json.splits)
  show "only legal (set_running E jid wid)" "only legal (store_terminal E S jid res wid)"
    unfolding set_running_def store_terminal_def archive_def by (auto intro!: only_rules patch)
  show "only legal (is_cancelled E jid)" "only legal (release_slot E user jid)"
    unfolding is_cancelled_def release_slot_def by (auto intro!: only_rules)
qed

lemma legal_publish:
  "only legal (publish_output E jid k tx)" "only legal (publish_status E jid st)" "only legal (publish_done E jid res)"
  unfolding publish_output_def publish_status_def publish_done_def publish_def by (auto intro!: only_rules)

lemma legal_finalize:
  assumes "terminal (status res)"
  shows "only legal (finalize E D jid lang res)"
proof -
  have "label_ok (py ''language'', lang)" "label_ok (py ''status'', status_str (status res))"
    using assms by (simp_all add: label_ok_def terminal_def)
  then show ?thesis
    unfolding finalize_def record_metrics_def
    by (auto intro!: only_rules legal_store legal_publish simp: METRICS_defs)
qed

lemma legal_join: "only legal (join_watcher E jid)"
proof -
  have "only legal (watch_cancel E jid n)" for n
    by (induction n) (auto intro!: only_rules legal_store)
  then show ?thesis unfolding join_watcher_def by (auto intro!: only_rules)
qed

lemma only_bnd_value:
  assumes "only P m" "\<And>h a t. m h = (Inr a, t) \<Longrightarrow> only P (f a)"
  shows "only P (bnd m f)"
  unfolding only_def
proof
  fix h
  obtain r t where m: "m h = (r, t)" by (cases "m h")
  then have "list_all P t" using assms(1) unfolding only_def by (metis snd_conv)
  moreover have "list_all P (snd (f a (h @ t)))" if "r = Inr a" for a
    using assms(2) m that by (simp add: only_def)
  ultimately show "list_all P (snd (bnd m f h))" using m by (cases r) (simp_all add: bnd_Inl bnd_Inr)
qed

lemma legal_run_job: "only legal (run_job E D jid request)"
proof -
  have "only legal (execute E (dctx D) request jid (Some (publish_output E jid)) True)"
    by (rule only_execute) (auto simp: legal_local intro: legal_publish)
  then have run: "only legal (try_finally (execute E (dctx D) request jid (Some (publish_output E jid)) True)
      (seq (join_watcher E jid) (metric ''sandbox_jobs_in_flight'' Dec [] 1)))"
    by (auto intro!: only_rules only_finally legal_join simp: METRICS_defs)
  have "only legal (bnd (try_finally (execute E (dctx D) request jid (Some (publish_output E jid)) True)
      (seq (join_watcher E jid) (metric ''sandbox_jobs_in_flight'' Dec [] 1))) (finalize E D jid (language request)))"
    by (rule only_bnd_value [OF run])
      (auto simp: try_finally_Inr intro!: legal_finalize dest: execute_terminal)
  then show ?thesis
    unfolding run_job_def
    by (auto intro!: only_rules legal_store legal_publish simp: METRICS_defs)
qed

lemma legal_end: "only legal (complete E user jid mid)" "only legal (bury E D user jid m reason)"
  unfolding complete_def bury_def ack_def dead_letter_def by (auto intro!: only_rules legal_store simp: METRICS_defs)

lemma legal_process: "only legal (process E D m)"
proof -
  have "only legal (process_request E D user jid m request)" for user jid request
    unfolding process_request_def finalize_cancelled_def finalize_failed_def
    by (auto intro!: only_rules legal_store legal_finalize legal_run_job legal_end split: if_splits)
  then show ?thesis
    unfolding process_def Let_def finalize_failed_def
    by (auto intro!: only_rules legal_finalize legal_end split: sum.splits)
qed

lemma legal_consume: "only legal (consume_step E D)"
proof -
  have claim: "only legal (claim_each E w i pending claimed)" for w i pending claimed
    by (induction pending arbitrary: claimed) (auto intro!: only_rules)
  have group: "only legal (ensure_group E)"
    by (auto simp: only_def ensure_group_def create_group_def ret_def suppress_def catch_def call_defs call_def
        split: sum.splits prod.splits)
  show ?thesis
    unfolding consume_step_def Let_def capacity_def queue_depth_def claim_stale_def read_def dispatch_def backoff_def
    by (auto intro!: only_rules only_for_each claim group simp: METRICS_defs split: exn.splits if_splits)
qed

text \<open>
  C34: Metric updates are legal and their status label is bounded. Every update made while a
  message is processed or the queue is polled uses an operation that the metric's kind has
  (counters only grow, gauges are set or moved, histograms observe) with exactly the label
  names the metric declares, and a status label holds one of the four terminal statuses; the
  declared metrics have distinct names and strictly increasing buckets.
\<close>

theorem metric_updates_legal:
  "distinct (map mt_name METRICS) \<and> list_all (\<lambda>d. sorted_wrt (<) (mt_buckets d)) METRICS \<and>
   list_all (\<lambda>ev. update_ok (fst ev)) (snd (process E D m h)) \<and>
   list_all (\<lambda>ev. update_ok (fst ev)) (snd (consume_step E D h))"
proof (intro conjI)
  show "distinct (map mt_name METRICS)" by (simp add: METRICS_defs)
  show "list_all (\<lambda>d. sorted_wrt (<) (mt_buckets d)) METRICS" by (simp add: METRICS_defs)
qed (use legal_process legal_consume in \<open>auto simp: only_def\<close>)

end
