(* ===== verification/Log_Format.thy ===== *)
theory Log_Format
  imports Json
begin

text \<open>
  \<^verbatim>\<open>worker/telemetry/logging.py\<close>: the JSON log formatter, with the text \<^verbatim>\<open>json.dumps\<close>
  writes under \<^verbatim>\<open>ensure_ascii=False\<close> and \<^verbatim>\<open>default=str\<close>. The time stamp, the message and the
  text of a traceback come from \<^verbatim>\<open>logging.Formatter\<close> and are fields of the record; the
  text of a finite float is the parameter \<open>F\<close>.
\<close>

subsection \<open>json.dumps\<close>

text \<open>A Python value with string keys; \<open>OOther s\<close> is a value \<^verbatim>\<open>json\<close> cannot write, whose \<^verbatim>\<open>str\<close> is \<open>s\<close>.\<close>

datatype pyobj =
    ONull
  | OBool bool
  | OInt int
  | OFloat pyfloat
  | OStr pystr
  | OList "pyobj list"
  | ODict "(pystr \<times> pyobj) list"
  | OOther pystr

definition escape_char :: "nat \<Rightarrow> pystr" where
  "escape_char c =
     (if c = 34 \<or> c = 92 then [92, c]
      else if c = 10 then [92, 110]
      else if c = 13 then [92, 114]
      else if c = 9 then [92, 116]
      else if c = 12 then [92, 102]
      else if c = 8 then [92, 98]
      else if c < 32 then [92, 117] @ hex 4 c
      else [c])"

definition encode_basestring :: "pystr \<Rightarrow> pystr" where
  "encode_basestring s = [34] @ concat (map escape_char s) @ [34]"

fun float_text :: "(rat \<Rightarrow> pystr) \<Rightarrow> pyfloat \<Rightarrow> pystr" where
  "float_text F (Finite q) = F q"
| "float_text F (Infinity neg) = (if neg then py ''-Infinity'' else py ''Infinity'')"
| "float_text F NaN = py ''NaN''"

fun joined :: "pystr list \<Rightarrow> pystr" where
  "joined [] = []"
| "joined [w] = w"
| "joined (w # ws) = w @ [44, 32] @ joined ws"

fun dumps_text :: "(rat \<Rightarrow> pystr) \<Rightarrow> pyobj \<Rightarrow> pystr" where
  "dumps_text F ONull = py ''null''"
| "dumps_text F (OBool b) = (if b then py ''true'' else py ''false'')"
| "dumps_text F (OInt i) = str_of_int i"
| "dumps_text F (OFloat x) = float_text F x"
| "dumps_text F (OStr s) = encode_basestring s"
| "dumps_text F (OList xs) = [91] @ joined (map (dumps_text F) xs) @ [93]"
| "dumps_text F (ODict d) =
     [123] @ joined (map (\<lambda>(k, v). encode_basestring k @ [58, 32] @ dumps_text F v) d) @ [125]"
| "dumps_text F (OOther s) = encode_basestring s"

subsection \<open>The formatter\<close>

definition RESERVED :: "pystr list" where
  "RESERVED = map py
     [''name'', ''msg'', ''args'', ''levelname'', ''levelno'', ''pathname'', ''filename'', ''module'',
      ''exc_info'', ''exc_text'', ''stack_info'', ''lineno'', ''funcName'', ''created'', ''msecs'',
      ''relativeCreated'', ''thread'', ''threadName'', ''processName'', ''process'', ''taskName'',
      ''message'', ''asctime'']"

record log_record =
  lr_time :: pystr
  lr_level :: pystr
  lr_name :: pystr
  lr_message :: pystr
  lr_dict :: "(pystr \<times> pyobj) list"
  lr_exc :: "pystr option"

definition extra_field :: "pystr \<Rightarrow> bool" where
  "extra_field k \<longleftrightarrow> k \<notin> set RESERVED \<and> \<not> startswith k (py ''_'')"

definition base_payload :: "log_record \<Rightarrow> (pystr \<times> pyobj) list" where
  "base_payload r =
     [(py ''ts'', OStr (lr_time r)), (py ''level'', OStr (lr_level r)),
      (py ''logger'', OStr (lr_name r)), (py ''msg'', OStr (lr_message r))]"

definition log_payload :: "log_record \<Rightarrow> (pystr \<times> pyobj) list" where
  "log_payload r =
     (let p = dict_update (base_payload r) (filter (\<lambda>(k, _). extra_field k) (lr_dict r))
      in case lr_exc r of None \<Rightarrow> p | Some e \<Rightarrow> dict_set p (py ''exc'') (OStr e))"

definition format_record :: "(rat \<Rightarrow> pystr) \<Rightarrow> log_record \<Rightarrow> pystr" where
  "format_record F r = dumps_text F (ODict (log_payload r))"

subsection \<open>Installing it\<close>

datatype log_handler = JsonStdout | OtherHandler nat

record root_logger =
  log_handlers :: "log_handler list"
  log_threshold :: int

definition LEVELS :: "(pystr \<times> int) list" where
  "LEVELS = [(py ''CRITICAL'', 50), (py ''FATAL'', 50), (py ''ERROR'', 40), (py ''WARN'', 30), (py ''WARNING'', 30),
     (py ''INFO'', 20), (py ''DEBUG'', 10), (py ''NOTSET'', 0)]"

text \<open>The handler is in place before \<^verbatim>\<open>setLevel\<close> can reject the level.\<close>

definition configure_logging :: "ucd \<Rightarrow> pystr \<Rightarrow> root_logger \<Rightarrow> (exn + unit) \<times> root_logger" where
  "configure_logging U level lg =
     (let lg' = lg\<lparr>log_handlers := [JsonStdout]\<rparr>
      in case map_of LEVELS (upper U level) of
           Some n \<Rightarrow> (Inr (), lg'\<lparr>log_threshold := n\<rparr>)
         | None \<Rightarrow> (Inl ValueError, lg'))"

subsection \<open>One line per record\<close>

definition visible :: "pystr \<Rightarrow> bool" where
  "visible s \<longleftrightarrow> list_all (\<lambda>c. 32 \<le> c) s"

lemma visible_simps [simp]:
  "visible []" "visible (c # s) \<longleftrightarrow> 32 \<le> c \<and> visible s" "visible (s @ s') \<longleftrightarrow> visible s \<and> visible s'"
  by (simp_all add: visible_def)

lemma visible_hex: "visible (hex w n)"
  by (induction w arbitrary: n) (auto simp: hex_digit_def)

lemma visible_encode [simp]: "visible (encode_basestring s)"
proof -
  have "visible (escape_char c)" for c
    by (auto simp: escape_char_def visible_hex)
  then have "visible (concat (map escape_char s))"
    by (induction s) auto
  then show ?thesis by (simp add: encode_basestring_def)
qed

lemma visible_digits: "visible (digits n)"
  by (induction n rule: digits.induct) (subst digits.simps, auto)

lemma visible_joined: "list_all visible ws \<Longrightarrow> visible (joined ws)"
  by (induction ws rule: joined.induct) auto

lemma visible_dumps:
  assumes "\<And>q. visible (F q)"
  shows "visible (dumps_text F j)"
proof (induction j rule: dumps_text.induct [of "\<lambda>_ j. visible (dumps_text F j)", case_names N B I Fl S L D O])
  case (Fl _ x)
  then show ?case using assms by (cases x) (auto simp: py_def)
qed (auto simp: py_def str_of_int_def visible_digits list_all_iff intro!: visible_joined)

text \<open>The reader of a JSON string literal, after its opening quote: the text and what follows.\<close>

definition hex_value :: "nat \<Rightarrow> nat" where
  "hex_value c = (if c \<le> 57 then c - 48 else c - 87)"

fun scan_string :: "pystr \<Rightarrow> (pystr \<times> pystr) option" where
  "scan_string [] = None"
| "scan_string (c # s) =
     (if c = 34 then Some ([], s)
      else if c < 32 then None
      else if c \<noteq> 92 then map_option (apfst (Cons c)) (scan_string s)
      else (case s of
              [] \<Rightarrow> None
            | e # s' \<Rightarrow>
                if e \<in> {34, 92, 47} then map_option (apfst (Cons e)) (scan_string s')
                else if e = 110 then map_option (apfst (Cons 10)) (scan_string s')
                else if e = 114 then map_option (apfst (Cons 13)) (scan_string s')
                else if e = 116 then map_option (apfst (Cons 9)) (scan_string s')
                else if e = 102 then map_option (apfst (Cons 12)) (scan_string s')
                else if e = 98 then map_option (apfst (Cons 8)) (scan_string s')
                else if e = 117 then
                  (case s' of
                     a # b # c # d # s'' \<Rightarrow>
                       map_option (apfst (Cons (4096 * hex_value a + 256 * hex_value b + 16 * hex_value c + hex_value d)))
                         (scan_string s'')
                   | _ \<Rightarrow> None)
                else None))"

lemma scan_escape: "scan_string (escape_char c @ s) = map_option (apfst (Cons c)) (scan_string s)"
proof -
  have "hex_value (hex_digit d) = d" if "d < 16" for d
    using that by (auto simp: hex_value_def hex_digit_def)
  moreover have "hex 4 c = [48, 48, hex_digit (c div 16), hex_digit (c mod 16)]" if "c < 32"
  proof -
    have "hex 4 c = hex (Suc (Suc (Suc (Suc 0)))) c" by (rule arg_cong [of _ _ "\<lambda>w. hex w c"]) simp
    moreover have "c div 16 < 2" using that by (simp add: less_mult_imp_div_less)
    ultimately show ?thesis by (simp add: hex_digit_def [of 0])
  qed
  moreover have "c div 16 < 16" if "c < 32" using that by (simp add: less_mult_imp_div_less)
  moreover have "hex_value 48 = 0" by (simp add: hex_value_def)
  ultimately show ?thesis
    by (simp add: escape_char_def)
qed

lemma scan_encoded: "scan_string (concat (map escape_char s) @ 34 # rest) = Some (s, rest)"
  by (induction s) (simp_all add: scan_escape)

subsection \<open>Reading a line back\<close>

text \<open>
  A reader of JSON text: a string literal, an array, an object, or a maximal run of other
  characters (a number or a constant). The first argument bounds the nesting.
\<close>

datatype jtree = TAtom pystr | TStr pystr | TList "jtree list" | TDict "(pystr \<times> jtree) list"

definition atom_char :: "nat \<Rightarrow> bool" where
  "atom_char c \<longleftrightarrow> c \<notin> {32, 34, 44, 58, 91, 93, 123, 125}"

fun read_value :: "nat \<Rightarrow> pystr \<Rightarrow> (jtree \<times> pystr) option"
  and read_items :: "nat \<Rightarrow> pystr \<Rightarrow> (jtree list \<times> pystr) option"
  and read_fields :: "nat \<Rightarrow> pystr \<Rightarrow> ((pystr \<times> jtree) list \<times> pystr) option" where
  "read_value 0 s = None"
| "read_value (Suc n) s =
     (case s of
        [] \<Rightarrow> None
      | c # s' \<Rightarrow>
          if c = 34 then map_option (apfst TStr) (scan_string s')
          else if c = 91 then
            (if take 1 s' = [93] then Some (TList [], drop 1 s') else map_option (apfst TList) (read_items n s'))
          else if c = 123 then
            (if take 1 s' = [125] then Some (TDict [], drop 1 s') else map_option (apfst TDict) (read_fields n s'))
          else if atom_char c then Some (TAtom (takeWhile atom_char s), dropWhile atom_char s)
          else None)"
| "read_items 0 s = None"
| "read_items (Suc n) s =
     (case read_value n s of
        None \<Rightarrow> None
      | Some (v, r) \<Rightarrow>
          if take 1 r = [93] then Some ([v], drop 1 r)
          else if take 2 r = [44, 32] then map_option (apfst (Cons v)) (read_items n (drop 2 r))
          else None)"
| "read_fields 0 s = None"
| "read_fields (Suc n) s =
     (if take 1 s \<noteq> [34] then None
      else (case scan_string (drop 1 s) of
              None \<Rightarrow> None
            | Some (k, r) \<Rightarrow>
                if take 2 r \<noteq> [58, 32] then None
                else (case read_value n (drop 2 r) of
                        None \<Rightarrow> None
                      | Some (v, r') \<Rightarrow>
                          if take 1 r' = [125] then Some ([(k, v)], drop 1 r')
                          else if take 2 r' = [44, 32]
                          then map_option (apfst (Cons (k, v))) (read_fields n (drop 2 r'))
                          else None)))"

text \<open>What a reader should find for a value.\<close>

fun tree_of :: "(rat \<Rightarrow> pystr) \<Rightarrow> pyobj \<Rightarrow> jtree" where
  "tree_of F ONull = TAtom (py ''null'')"
| "tree_of F (OBool b) = TAtom (if b then py ''true'' else py ''false'')"
| "tree_of F (OInt i) = TAtom (str_of_int i)"
| "tree_of F (OFloat x) = TAtom (float_text F x)"
| "tree_of F (OStr s) = TStr s"
| "tree_of F (OList xs) = TList (map (tree_of F) xs)"
| "tree_of F (ODict d) = TDict (map (\<lambda>(k, v). (k, tree_of F v)) d)"
| "tree_of F (OOther s) = TStr s"

text \<open>Python writes a finite float with digits, point, exponent and signs.\<close>

definition float_writer :: "(rat \<Rightarrow> pystr) \<Rightarrow> bool" where
  "float_writer F \<longleftrightarrow> (\<forall>q. F q \<noteq> [] \<and> set (F q) \<subseteq> set (py ''0123456789.e+-''))"

lemma float_chars:
  assumes "float_writer F" "c \<in> set (F q)"
  shows "atom_char c \<and> 32 \<le> c"
proof -
  have "c \<in> set (py ''0123456789.e+-'')" using assms unfolding float_writer_def by blast
  then show ?thesis by (auto simp: py_def atom_char_def)
qed

definition reads :: "pystr \<Rightarrow> jtree \<Rightarrow> bool" where
  "reads w v \<longleftrightarrow> (\<exists>N. \<forall>n \<ge> N. \<forall>rest. (\<forall>c r. rest = c # r \<longrightarrow> \<not> atom_char c) \<longrightarrow> read_value n (w @ rest) = Some (v, rest))"

definition atom :: "pystr \<Rightarrow> bool" where
  "atom w \<longleftrightarrow> w \<noteq> [] \<and> list_all atom_char w"

lemma reads_Suc:
  assumes "\<And>n rest. n \<ge> N \<Longrightarrow> (\<forall>c r. rest = c # r \<longrightarrow> \<not> atom_char c) \<Longrightarrow> read_value (Suc n) (w @ rest) = Some (v, rest)"
  shows "reads w v"
  unfolding reads_def
proof (intro exI allI impI)
  fix n rest assume "Suc N \<le> n" "\<forall>c r. rest = c # r \<longrightarrow> \<not> atom_char c"
  then show "read_value n (w @ rest) = Some (v, rest)" using assms [of "n - 1" rest] by (cases n) auto
qed

lemma reads_atom:
  assumes "atom w"
  shows "reads w (TAtom w)"
proof (rule reads_Suc [of 0])
  fix n rest assume rest: "\<forall>c r. rest = c # r \<longrightarrow> \<not> atom_char c"
  obtain c w' where w: "w = c # w'" "atom_char c" "list_all atom_char w'" using assms by (cases w) (auto simp: atom_def)
  have "takeWhile atom_char rest = [] \<and> dropWhile atom_char rest = rest" using rest by (cases rest) auto
  then have "takeWhile atom_char (w @ rest) = w \<and> dropWhile atom_char (w @ rest) = rest"
    using assms by (auto simp: atom_def list_all_iff takeWhile_append2 dropWhile_append2)
  then show "read_value (Suc n) (w @ rest) = Some (TAtom w, rest)"
    using w by (auto simp: atom_char_def)
qed

lemma reads_string: "reads (encode_basestring s) (TStr s)"
  by (rule reads_Suc [of 0]) (simp add: encode_basestring_def scan_encoded)

lemma atom_texts:
  "atom (py ''null'')" "atom (py ''true'')" "atom (py ''false'')" "atom (str_of_int i)"
  "float_writer F \<Longrightarrow> atom (float_text F x)"
proof -
  show "atom (py ''null'')" "atom (py ''true'')" "atom (py ''false'')" by (simp_all add: atom_def atom_char_def py_def)
  have "list_all atom_char (digits n)" for n
    using digits_range [of _ n] by (fastforce simp: list_all_iff atom_char_def)
  then show "atom (str_of_int i)" using digits_nonempty by (auto simp: atom_def str_of_int_def atom_char_def)
  show "atom (float_text F x)" if "float_writer F"
  proof (cases x)
    case (Finite q)
    then show ?thesis using that float_chars [OF that] by (simp add: atom_def list_all_iff float_writer_def)
  qed (simp_all add: atom_def atom_char_def py_def)
qed

lemma reads_before:
  assumes "reads w v" "\<not> atom_char c"
  obtains N where "\<forall>n \<ge> N. \<forall>rest. read_value n (w @ c # rest) = Some (v, c # rest)"
proof -
  obtain N where "\<forall>n \<ge> N. \<forall>rest. (\<forall>c r. rest = c # r \<longrightarrow> \<not> atom_char c) \<longrightarrow> read_value n (w @ rest) = Some (v, rest)"
    using assms(1) unfolding reads_def by blast
  then have "\<forall>n \<ge> N. \<forall>rest. read_value n (w @ c # rest) = Some (v, c # rest)" using assms(2) by blast
  then show thesis by (rule that)
qed

lemma delimiters: "\<not> atom_char 44" "\<not> atom_char 93" "\<not> atom_char 125"
  by (simp_all add: atom_char_def)

lemma read_items_joined:
  assumes "xs \<noteq> []" "\<And>x. x \<in> set xs \<Longrightarrow> reads (f x) (g x)"
  shows "\<exists>N. \<forall>n \<ge> N. \<forall>rest. read_items n (joined (map f xs) @ 93 # rest) = Some (map g xs, rest)"
  using assms
proof (induction xs rule: list_nonempty_induct)
  case (single x)
  have "reads (f x) (g x)" using single by simp
  then obtain N where "\<forall>n \<ge> N. \<forall>rest. read_value n (f x @ 93 # rest) = Some (g x, 93 # rest)"
    by (rule reads_before [OF _ delimiters(2)])
  then have "read_items n (f x @ 93 # rest) = Some ([g x], rest)" if "Suc N \<le> n" for n rest
    using that by (cases n) auto
  then show ?case by auto
next
  case (cons x xs)
  then obtain M where M: "\<forall>n \<ge> M. \<forall>rest. read_items n (joined (map f xs) @ 93 # rest) = Some (map g xs, rest)" by auto
  have "reads (f x) (g x)" using cons.prems by simp
  then obtain N where "\<forall>n \<ge> N. \<forall>rest. read_value n (f x @ 44 # rest) = Some (g x, 44 # rest)"
    by (rule reads_before [OF _ delimiters(1)])
  moreover have "joined (map f (x # xs)) = f x @ [44, 32] @ joined (map f xs)" using cons.hyps by (cases xs) auto
  ultimately have "read_items n (joined (map f (x # xs)) @ 93 # rest) = Some (map g (x # xs), rest)"
    if "Suc (max M N) \<le> n" for n rest
    using that M by (cases n) auto
  then show ?case by blast
qed

lemma read_fields_joined:
  assumes "d \<noteq> []" "\<And>k v. (k, v) \<in> set d \<Longrightarrow> reads (f v) (g v)"
  shows "\<exists>N. \<forall>n \<ge> N. \<forall>rest. read_fields n
     (joined (map (\<lambda>(k, v). encode_basestring k @ [58, 32] @ f v) d) @ 125 # rest) = Some (map (\<lambda>(k, v). (k, g v)) d, rest)"
  using assms
proof (induction d rule: list_nonempty_induct)
  case (single kv)
  obtain k v where kv: "kv = (k, v)" by (cases kv)
  then have "reads (f v) (g v)" using single by auto
  then obtain N where "\<forall>n \<ge> N. \<forall>rest. read_value n (f v @ 125 # rest) = Some (g v, 125 # rest)"
    by (rule reads_before [OF _ delimiters(3)])
  then have "read_fields n (encode_basestring k @ [58, 32] @ f v @ 125 # rest) = Some ([(k, g v)], rest)" if "Suc N \<le> n" for n rest
    using that by (cases n) (auto simp: encode_basestring_def scan_encoded)
  then show ?case by (auto simp: kv)
next
  case (cons kv d)
  obtain k v where kv: "kv = (k, v)" by (cases kv)
  from cons obtain M where M: "\<forall>n \<ge> M. \<forall>rest. read_fields n
     (joined (map (\<lambda>(k, v). encode_basestring k @ [58, 32] @ f v) d) @ 125 # rest) = Some (map (\<lambda>(k, v). (k, g v)) d, rest)"
    by auto
  have "reads (f v) (g v)" using cons.prems kv by auto
  then obtain N where N: "\<forall>n \<ge> N. \<forall>rest. read_value n (f v @ 44 # rest) = Some (g v, 44 # rest)"
    by (rule reads_before [OF _ delimiters(1)])
  have "joined (map (\<lambda>(k, v). encode_basestring k @ [58, 32] @ f v) (kv # d)) =
      encode_basestring k @ [58, 32] @ f v @ [44, 32] @ joined (map (\<lambda>(k, v). encode_basestring k @ [58, 32] @ f v) d)"
    using cons.hyps kv by (cases d) auto
  then have "read_fields n (joined (map (\<lambda>(k, v). encode_basestring k @ [58, 32] @ f v) (kv # d)) @ 125 # rest)
      = Some (map (\<lambda>(k, v). (k, g v)) (kv # d), rest)" if "Suc (max M N) \<le> n" for n rest
    using that M N kv by (cases n) (auto simp: encode_basestring_def scan_encoded)
  then show ?case by blast
qed

lemma joined_head: "xs \<noteq> [] \<Longrightarrow> hd xs \<noteq> [] \<Longrightarrow> take 1 (joined xs @ s) = take 1 (hd xs)"
  by (cases xs rule: joined.cases) (auto simp: neq_Nil_conv)

lemma atom_head: "atom w \<Longrightarrow> w \<noteq> [] \<and> take (Suc 0) w \<noteq> [93]"
  by (cases w) (auto simp: atom_def atom_char_def)

lemma dumps_head: "float_writer F \<Longrightarrow> dumps_text F j \<noteq> [] \<and> take 1 (dumps_text F j) \<noteq> [93]"
  by (cases j) (simp_all add: encode_basestring_def atom_head atom_texts)

lemma dumps_reads: "float_writer F \<Longrightarrow> reads (dumps_text F j) (tree_of F j)"
proof (induction F j rule: dumps_text.induct [case_names N B I Fl S L D O])
  case (L F xs)
  show ?case
  proof (cases "xs = []")
    case False
    then obtain N where N: "\<forall>n \<ge> N. \<forall>rest. read_items n (joined (map (dumps_text F) xs) @ 93 # rest) = Some (map (tree_of F) xs, rest)"
      using read_items_joined [of xs "dumps_text F" "tree_of F"] L by blast
    have "take 1 (joined (map (dumps_text F) xs) @ s) \<noteq> [93]" for s
      using joined_head [of "map (dumps_text F) xs" s] dumps_head [OF L.prems, of "hd xs"] False by (simp add: hd_map)
    with N show ?thesis by (intro reads_Suc [of N]) auto
  qed (auto intro!: reads_Suc [of 0])
next
  case (D F d)
  show ?case
  proof (cases "d = []")
    case False
    let ?w = "joined (map (\<lambda>(k, v). encode_basestring k @ [58, 32] @ dumps_text F v) d)"
    obtain N where N: "\<forall>n \<ge> N. \<forall>rest. read_fields n (?w @ 125 # rest) = Some (map (\<lambda>(k, v). (k, tree_of F v)) d, rest)"
      using read_fields_joined [of d "dumps_text F" "tree_of F"] D False by blast
    have "take 1 (?w @ s) \<noteq> [125]" for s
      using joined_head [of "map (\<lambda>(k, v). encode_basestring k @ [58, 32] @ dumps_text F v) d" s] False
      by (simp add: hd_map encode_basestring_def split: prod.splits)
    with N show ?thesis by (intro reads_Suc [of N]) auto
  qed (auto intro!: reads_Suc [of 0])
qed (auto simp: reads_string intro!: reads_atom atom_texts)

text \<open>
  C32: Log forging is neutralised. A formatted record contains no character below the space,
  so it is a single line whatever the message and the fields hold; and a JSON reader recovers
  from the line exactly the keys and values of the record's payload and nothing after it, so
  no text in a message or field can end its literal, add a field or start another record.
\<close>

theorem log_line_unforgeable:
  assumes "float_writer F"
  shows "list_all (\<lambda>c. 32 \<le> c) (format_record F r) \<and>
     (\<exists>N. \<forall>n. N \<le> n \<longrightarrow>
        read_value n (format_record F r) = Some (TDict (map (\<lambda>(k, v). (k, tree_of F v)) (log_payload r)), []))"
proof
  have "visible (F q)" for q
    using float_chars [OF assms] by (auto simp: visible_def list_all_iff)
  then show "list_all (\<lambda>c. 32 \<le> c) (format_record F r)"
    using visible_dumps [of F "ODict (log_payload r)"] by (simp add: format_record_def visible_def)
  show "\<exists>N. \<forall>n. N \<le> n \<longrightarrow>
      read_value n (format_record F r) = Some (TDict (map (\<lambda>(k, v). (k, tree_of F v)) (log_payload r)), [])"
    using dumps_reads [OF assms, of "ODict (log_payload r)"] unfolding reads_def format_record_def
    by (metis append_Nil2 list.distinct(1) tree_of.simps(7))
qed

text \<open>A record whose message tries to close its literal and to start a line of its own.\<close>

definition forged_record :: log_record where
  "forged_record =
     \<lparr>lr_time = py ''2025-01-01T00:00:00+0000'', lr_level = py ''INFO'', lr_name = py ''sandbox.worker'',
      lr_message = [120, 34, 10, 123], lr_dict = [(py ''job_id'', OStr [27, 91])], lr_exc = None\<rparr>"

theorem log_line_unforgeable_witness:
  "\<exists>n. read_value n (format_record (\<lambda>_. py ''0.5'') forged_record) =
     Some (TDict [(py ''ts'', TStr (py ''2025-01-01T00:00:00+0000'')), (py ''level'', TStr (py ''INFO'')),
       (py ''logger'', TStr (py ''sandbox.worker'')), (py ''msg'', TStr [120, 34, 10, 123]), (py ''job_id'', TStr [27, 91])], [])"
proof -
  have "float_writer (\<lambda>_. py ''0.5'')" by (simp add: float_writer_def py_def)
  moreover have "extra_field (py ''job_id'')"
    by (simp add: extra_field_def RESERVED_def startswith_def) (simp add: py_def)
  then have "log_payload forged_record = [(py ''ts'', OStr (py ''2025-01-01T00:00:00+0000'')), (py ''level'', OStr (py ''INFO'')),
       (py ''logger'', OStr (py ''sandbox.worker'')), (py ''msg'', OStr [120, 34, 10, 123]), (py ''job_id'', OStr [27, 91])]"
    by (simp add: log_payload_def forged_record_def base_payload_def)
  ultimately show ?thesis using log_line_unforgeable [of "\<lambda>_. py ''0.5''" forged_record] by auto
qed

subsection \<open>The fields of a record\<close>

text \<open>
  The fields of a log line. The message is always the record's message: no extra field
  can replace it. Every attribute that is neither standard nor private appears with its
  value, the standard and private ones never do, and the time, level and logger name are the
  record's unless an extra field has their name.
\<close>

theorem log_payload_fields:
  assumes "distinct (map fst (lr_dict r))" "k \<noteq> py ''exc''"
  shows "map_of (log_payload r) k =
     (if extra_field k \<and> map_of (lr_dict r) k \<noteq> None then map_of (lr_dict r) k else map_of (base_payload r) k) \<and>
     map_of (log_payload r) (py ''msg'') = Some (OStr (lr_message r))"
proof -
  let ?xs = "filter (\<lambda>(k, _). extra_field k) (lr_dict r)"
  have "distinct (map fst ?xs)" using assms(1) by (rule distinct_map_filter)
  then have upd: "map_of (dict_update (base_payload r) ?xs) k' =
      (case map_of ?xs k' of None \<Rightarrow> map_of (base_payload r) k' | v \<Rightarrow> v)" for k'
    by (simp add: map_of_dict_update map_add_def)
  have msg: "\<not> extra_field (py ''msg'')" "map_of (base_payload r) (py ''msg'') = Some (OStr (lr_message r))"
    by (simp_all add: extra_field_def RESERVED_def base_payload_def)
  have exc: "py ''msg'' \<noteq> py ''exc''" by simp
  show ?thesis
    using assms(2) exc msg by (auto simp: log_payload_def Let_def upd map_of_filter_key split: option.splits)
qed

theorem log_payload_fields_witness:
  "map_of (log_payload forged_record) (py ''job_id'') = Some (OStr [27, 91])"
proof -
  have "distinct (map fst (lr_dict forged_record))" by (simp add: forged_record_def)
  moreover have "extra_field (py ''job_id'')"
    by (simp add: extra_field_def RESERVED_def startswith_def) (simp add: py_def)
  ultimately show ?thesis
    using log_payload_fields [of forged_record "py ''job_id''"] by (simp add: forged_record_def)
qed

end
