(* ===== verification/Startup.thy ===== *)
theory Startup
  imports Telemetry Log_Format
begin

text \<open>
  The entry point of the worker: \<^verbatim>\<open>WorkerDaemon.__init__\<close>, \<^verbatim>\<open>_build_minio\<close> and \<^verbatim>\<open>_amain\<close> in
  \<^verbatim>\<open>worker.py\<close>. The executor's context holds what the process was started with; its
  configuration is the one just loaded. The clients' constructors and the registration of
  signal handlers belong to libraries and may raise.
\<close>

definition build_minio :: "env \<Rightarrow> worker_config \<Rightarrow> bool io" where
  "build_minio E cfg =
     catch (seq (do_unit E (Startup (MinioClient (minio_endpoint cfg) (minio_secure cfg)))) (ret True))
       (\<lambda>e. if is_Exception e then Some (ret False) else None)"

text \<open>\<^verbatim>\<open>asyncio.Semaphore\<close> raises \<^verbatim>\<open>ValueError\<close> for a negative value.\<close>

definition new_daemon :: "env \<Rightarrow> ctx \<Rightarrow> root_logger \<Rightarrow> daemon io" where
  "new_daemon E X lg =
     (let cfg = config_of X
      in seq (lift (fst (configure_logging (ucd_of X) (log_level cfg) lg)))
         (seq (do_unit E (Startup (RedisClient (redis_url cfg))))
         (bnd (build_minio E cfg) (\<lambda>minio.
          if worker_concurrency cfg < 0 then raise ValueError
          else ret \<lparr>dctx = X, dstore = \<lparr>has_minio = minio, bucket = minio_bucket cfg\<rparr>\<rparr>))))"

definition install_handler :: "env \<Rightarrow> int \<Rightarrow> unit io" where
  "install_handler E sig = suppress (\<lambda>e. e = NotImplementedError) (do_unit E (Startup (SignalHandler sig)))"

definition SIGTERM :: int where "SIGTERM = 15"
definition SIGINT :: int where "SIGINT = 2"

definition amain :: "env \<Rightarrow> ctx \<Rightarrow> pystr \<Rightarrow> pystr \<Rightarrow> root_logger \<Rightarrow> nat \<Rightarrow> unit io" where
  "amain E X hostname uuid_hex lg n =
     bnd (lift (load_worker_config (ucd_of X) (environ_of X) (tempdir_of X) hostname uuid_hex)) (\<lambda>cfg.
     seq (start_metrics_server E (metrics_port cfg))
     (bnd (new_daemon E (X\<lparr>config_of := cfg\<rparr>) lg) (\<lambda>D.
      seq (for_each (install_handler E) [SIGTERM, SIGINT]) (run_daemon E D n))))"

subsection \<open>Misconfiguration\<close>

fun is_startup :: "cmd \<Rightarrow> bool" where
  "is_startup (Startup _) = True"
| "is_startup _ = False"

text \<open>
  What the environment variables must not be: an integer variable that is set and is not an
  integer, an unknown log level, a negative concurrency.
\<close>

definition INT_VARIABLES :: "pystr list" where
  "INT_VARIABLES = map py
     [''WORKER_CONCURRENCY'', ''QUEUE_BLOCK_MS'', ''QUEUE_READ_COUNT'', ''QUEUE_CLAIM_MIN_IDLE_MS'',
      ''QUEUE_MAX_RETRIES'', ''SIGTERM_GRACE_SECONDS'', ''METRICS_PORT'']"

definition not_an_int :: "ucd \<Rightarrow> (pystr \<rightharpoonup> pystr) \<Rightarrow> pystr \<Rightarrow> bool" where
  "not_an_int U environ n \<longleftrightarrow> (\<exists>raw. environ n = Some raw \<and> raw \<noteq> [] \<and> int_of_str U raw = None)"

definition misconfigured :: "ucd \<Rightarrow> (pystr \<rightharpoonup> pystr) \<Rightarrow> bool" where
  "misconfigured U environ \<longleftrightarrow>
     list_ex (not_an_int U environ) INT_VARIABLES \<or>
     (\<exists>raw k. environ (py ''WORKER_CONCURRENCY'') = Some raw \<and> raw \<noteq> [] \<and> int_of_str U raw = Some k \<and> k < 0) \<or>
     (\<exists>raw. environ (py ''LOG_LEVEL'') = Some raw \<and> raw \<noteq> [] \<and> upper U raw \<notin> fst ` set LEVELS)"

lemma misconfigured_rejected:
  assumes "misconfigured U environ" "load_worker_config U environ tempdir hostname uuid_hex = Inr cfg"
  shows "worker_concurrency cfg < 0 \<or> map_of LEVELS (upper U (log_level cfg)) = None"
proof -
  have bad: "env_int U environ n d = Inl ValueError" if "not_an_int U environ n" for n d
    using that by (auto simp: not_an_int_def env_int_def)
  have "\<not> list_ex (not_an_int U environ) INT_VARIABLES"
    using assms(2) bad by (auto simp: INT_VARIABLES_def load_worker_config_def Let_def ebind_Inr)
  moreover have "worker_concurrency cfg = k" if "environ (py ''WORKER_CONCURRENCY'') = Some raw" "raw \<noteq> []"
      "int_of_str U raw = Some k" for raw k
  proof -
    have "env_int U environ (py ''WORKER_CONCURRENCY'') 4 = Inr k" using that by (simp add: env_int_def)
    with assms(2) show ?thesis by (auto simp: load_worker_config_def Let_def ebind_Inr)
  qed
  moreover have "log_level cfg = raw" if "environ (py ''LOG_LEVEL'') = Some raw" "raw \<noteq> []" for raw
  proof -
    have "env_str environ (py ''LOG_LEVEL'') (py ''INFO'') = raw" using that by (simp add: env_str_def)
    with assms(2) show ?thesis by (auto simp: load_worker_config_def Let_def ebind_Inr)
  qed
  ultimately show ?thesis using assms(1) unfolding misconfigured_def map_of_eq_None_iff by metis
qed

lemma new_daemon_events: "only (\<lambda>ev. is_startup (fst ev)) (new_daemon E X lg)"
  unfolding new_daemon_def build_minio_def Let_def
  by (auto intro!: only_rules split: if_splits)

lemma new_daemon_rejects:
  assumes "worker_concurrency (config_of X) < 0 \<or> map_of LEVELS (upper (ucd_of X) (log_level (config_of X))) = None"
  shows "\<exists>e t. new_daemon E X lg h = (Inl e, t) \<and> list_all (\<lambda>ev. is_startup (fst ev)) t"
proof -
  have "\<exists>e t. new_daemon E X lg h = (Inl e, t)"
    using assms
    by (auto simp: new_daemon_def configure_logging_def Let_def bnd_def raise_def lift_def ret_def
        split: option.splits prod.splits sum.splits)
  then show ?thesis using new_daemon_events [of E X lg] unfolding only_def by (metis snd_conv)
qed

text \<open>
  C35: A worker whose variables are not well formed never touches the queue. When a variable
  that must be an integer is set to something else, the log level is unknown or the
  concurrency is negative, start-up raises, and all it did before was to create clients and
  the metrics endpoint: no entry was fetched, no container started, no file written. Other
  values out of range are not checked.
\<close>

theorem misconfigured_worker_stops:
  assumes "misconfigured (ucd_of X) (environ_of X)"
  shows "\<exists>e t. amain E X hostname uuid_hex lg n h = (Inl e, t) \<and> list_all (\<lambda>ev. is_startup (fst ev)) t"
proof (cases "load_worker_config (ucd_of X) (environ_of X) (tempdir_of X) hostname uuid_hex")
  case (Inl e)
  then show ?thesis by (simp add: amain_def raise_def)
next
  case (Inr cfg)
  let ?port = "start_metrics_server E (metrics_port cfg)"
  have port: "only (\<lambda>ev. is_startup (fst ev)) ?port"
    unfolding start_metrics_server_def by (auto intro!: only_rules)
  obtain r t0 where start: "?port h = (r, t0)" by (cases "?port h")
  obtain e t1 where new: "new_daemon E (X\<lparr>config_of := cfg\<rparr>) lg (h @ t0) = (Inl e, t1)"
      "list_all (\<lambda>ev. is_startup (fst ev)) t1"
    using new_daemon_rejects [of "X\<lparr>config_of := cfg\<rparr>" E lg "h @ t0"] misconfigured_rejected [OF assms Inr] by auto
  have "list_all (\<lambda>ev. is_startup (fst ev)) t0"
    using port start unfolding only_def by (metis snd_conv)
  then show ?thesis
    using start new by (cases r) (simp_all add: amain_def Inr bnd_Inl bnd_Inr)
qed

definition negative_concurrency :: ctx where
  "negative_concurrency = sample_ctx\<lparr>environ_of := [py ''WORKER_CONCURRENCY'' \<mapsto> py ''-1'']\<rparr>"

theorem misconfigured_worker_stops_witness:
  "\<exists>e t. amain calm negative_concurrency (py ''host'') (py ''0123456789'') \<lparr>log_handlers = [], log_threshold = 30\<rparr> 5 [] =
     (Inl e, t) \<and> list_all (\<lambda>ev. is_startup (fst ev)) t"
proof (rule misconfigured_worker_stops)
  have "int_of_str no_unicode (py ''-1'') = Some (- 1)"
    using int_of_str_of_int [of no_unicode "- 1"] by (simp add: str_of_int_def digits.simps [of "Suc 0"]) (simp add: py_def)
  then show "misconfigured (ucd_of negative_concurrency) (environ_of negative_concurrency)"
    by (simp add: misconfigured_def negative_concurrency_def)
qed

subsection \<open>What start-up does not reject\<close>

lemma idle_step:
  assumes "worker_concurrency (dcfg D) \<le> 0" "\<And>h n. ask_int E h (Task InflightCount) = Inr n \<Longrightarrow> 0 \<le> n"
  shows "only (\<lambda>ev. fetch_count (fst ev) = None) (consume_step E D)"
proof -
  let ?P = "\<lambda>ev. fetch_count (fst ev) = None"
  have wait: "list_all ?P (snd (backoff E h))" for h
    using neutral_backoff [of E] by (auto simp: only_def neutral_def list_all_iff)
  have "list_all ?P (snd (consume_step E D h))" for h
  proof (cases "ask_int E h (Task InflightCount)")
    case (Inl e)
    then show ?thesis
      using wait by (auto simp: consume_step_def Let_def capacity_def bnd_def catch_def call_defs call_def split: prod.splits)
        (metis snd_conv)
  next
    case (Inr n)
    then have "worker_concurrency (dcfg D) - n \<le> 0" using assms(1) assms(2) [OF Inr] by simp
    then show ?thesis
      using Inr wait
      by (auto simp: consume_step_def Let_def capacity_def bnd_def ret_def catch_def call_defs call_def split: prod.splits sum.splits)
        (metis snd_conv)
  qed
  then show ?thesis by (simp add: only_def)
qed

text \<open>
  Not every misconfiguration is noticed. \<^verbatim>\<open>WORKER_CONCURRENCY=0\<close> is accepted, and a
  worker started with it runs but never fetches an entry, however long its loop runs and
  whatever its services answer.
\<close>

theorem zero_concurrency_idles:
  "\<exists>cfg. load_worker_config U [py ''WORKER_CONCURRENCY'' \<mapsto> py ''0''] tempdir hostname uuid_hex = Inr cfg \<and>
     (\<forall>E D k h. dcfg D = cfg \<and> (\<forall>h n. ask_int E h (Task InflightCount) = Inr n \<longrightarrow> 0 \<le> n) \<longrightarrow>
        list_all (\<lambda>ev. fetch_count (fst ev) = None) (snd (consume_loop E D k h)))"
proof -
  have "int_of_str U (py ''0'') = Some 0"
    using int_of_str_of_int [of U 0] by (simp add: str_of_int_def digits.simps [of 0]) (simp add: py_def)
  then obtain cfg where cfg: "load_worker_config U [py ''WORKER_CONCURRENCY'' \<mapsto> py ''0''] tempdir hostname uuid_hex = Inr cfg"
    "worker_concurrency cfg = 0"
    by (simp add: load_worker_config_def Let_def env_int_def)
  have "only (\<lambda>ev. fetch_count (fst ev) = None) (consume_loop E D k)"
    if "dcfg D = cfg" "\<forall>h n. ask_int E h (Task InflightCount) = Inr n \<longrightarrow> 0 \<le> n" for E D k
  proof (induction k)
    case (Suc k)
    have "only (\<lambda>ev. fetch_count (fst ev) = None) (consume_step E D)"
      by (rule idle_step) (use that cfg in auto)
    with Suc show ?case by (auto intro!: only_rules)
  qed simp
  with cfg show ?thesis by (auto simp: only_def)
qed

text \<open>In the sample environment a worker without slots sleeps.\<close>

theorem zero_concurrency_idles_witness:
  "\<exists>cfg. load_worker_config no_unicode [py ''WORKER_CONCURRENCY'' \<mapsto> py ''0''] [] [] [] = Inr cfg \<and>
     list_all (\<lambda>ev. fetch_count (fst ev) = None)
       (snd (consume_loop calm \<lparr>dctx = sample_ctx\<lparr>config_of := cfg\<rparr>, dstore = \<lparr>has_minio = False, bucket = []\<rparr>\<rparr> 3 []))"
proof -
  obtain cfg where "load_worker_config no_unicode [py ''WORKER_CONCURRENCY'' \<mapsto> py ''0''] [] [] [] = Inr cfg"
    and idle: "\<And>E D k h. dcfg D = cfg \<Longrightarrow> (\<forall>h n. ask_int E h (Task InflightCount) = Inr n \<longrightarrow> 0 \<le> n) \<Longrightarrow>
       list_all (\<lambda>ev. fetch_count (fst ev) = None) (snd (consume_loop E D k h))"
    using zero_concurrency_idles [of no_unicode "[]" "[]" "[]"] by blast
  then show ?thesis using idle [of "\<lparr>dctx = sample_ctx\<lparr>config_of := cfg\<rparr>, dstore = \<lparr>has_minio = False, bucket = []\<rparr>\<rparr>" calm] by auto
qed

end
