(* ===== verification/Job_Record.thy ===== *)
theory Job_Record
  imports Result_Store Sample_Env
begin

text \<open>
  What storing a result does to the job record the API reads: a read-modify-write of one
  Redis key. The record Redis holds is any dict \<open>d\<close>, given by what \<^verbatim>\<open>GET\<close> returns.
\<close>

definition holds_record :: "env \<Rightarrow> pystr \<Rightarrow> (pystr \<times> json) list \<Rightarrow> bool" where
  "holds_record E jid d \<longleftrightarrow>
     (\<forall>h. ask_text E h (Redis (Get (job_record_key jid))) = Inr (Some (Text (JObj d)))) \<and> distinct (map fst d)"

text \<open>The events of a patch: read, clock, write, the last with the updated record.\<close>

lemma patch_record_runs:
  assumes "holds_record E jid d" "distinct (map fst kvs)" "patch_record E jid kvs h = (Inr res, t)"
  shows "\<exists>new now. res = Some (JObj new) \<and>
     map_of new = (map_of d ++ map_of kvs)(py ''updated_at'' \<mapsto> JStr now) \<and> distinct (map fst new) \<and>
     t = [(Redis (Get (job_record_key jid)), Inr (RText (Some (Text (JObj d))))), (NowIso, Inr (RStr now)),
          (Redis (Set (job_record_key jid) (dumps (JObj new)) KeepTtl), Inr RUnit)]"
  using assms
  by (auto simp: patch_record_def get_record_def holds_record_def bnd_Inr_eq call_defs call_eq Let_def ret_def
      loads_def map_of_dict_update intro!: distinct_dict_set distinct_dict_update)

fun record_write :: "pystr \<Rightarrow> cmd \<Rightarrow> (json_text \<times> set_mode) option" where
  "record_write jid (Redis (Set k v m)) = (if k = job_record_key jid then Some (v, m) else None)"
| "record_write jid _ = None"

text \<open>
  C19: The record after a job. Storing a terminal result writes the record exactly once,
  keeping its time to live: status, result and worker are the new ones, the time stamp is
  refreshed and every other field the API put there is unchanged; the result itself is under
  its own key before that.
\<close>

theorem store_terminal_record:
  assumes "holds_record E jid d" "store_terminal E S jid result wid h = (Inr (), t)"
  shows "\<exists>new now pre.
     t = pre @ [(Redis (Set (job_record_key jid) (dumps (JObj new)) KeepTtl), Inr RUnit)] \<and>
     list_all (\<lambda>ev. record_write jid (fst ev) = None) pre \<and>
     (Redis (Set (result_key jid) (dumps (result_to_dict result)) (Ex RESULT_TTL_SECONDS)), Inr RUnit) \<in> set pre \<and>
     map_of new (py ''status'') = Some (JStr (status_str (status result))) \<and>
     map_of new (py ''result'') = Some (result_to_dict result) \<and>
     map_of new (py ''worker_id'') = Some (JStr wid) \<and>
     map_of new (py ''updated_at'') = Some (JStr now) \<and>
     (\<forall>k. k \<notin> {py ''status'', py ''result'', py ''worker_id'', py ''updated_at''} \<longrightarrow> map_of new k = map_of d k)"
proof -
  let ?kvs = "[(py ''status'', JStr (status_str (status result))), (py ''result'', result_to_dict result),
    (py ''worker_id'', JStr wid)]"
  let ?set = "(Redis (Set (result_key jid) (dumps (result_to_dict result)) (Ex RESULT_TTL_SECONDS)), Inr RUnit)"
  obtain t1 t2 t3 res where arch: "archive E S jid result h = (Inr (), t1)" and
    hot: "t2 = [?set]" and
    patch: "patch_record E jid ?kvs (h @ t1 @ t2) = (Inr res, t3)" and t: "t = t1 @ t2 @ t3"
    using assms(2) by (auto simp: store_terminal_def bnd_Inr_eq call_defs call_eq ret_def)
  have "only (\<lambda>ev. record_write jid (fst ev) = None) (archive E S jid result)"
    unfolding archive_def by (auto intro!: only_suppress only_calls)
  then have 1: "list_all (\<lambda>ev. record_write jid (fst ev) = None) t1"
    using arch unfolding only_def by (metis snd_conv)
  have 2: "result_key jid \<noteq> job_record_key jid"
    by (simp add: result_key_def job_record_key_def py_def)
  obtain new now where new: "map_of new = (map_of d ++ map_of ?kvs)(py ''updated_at'' \<mapsto> JStr now)" and
    t3: "t3 = [(Redis (Get (job_record_key jid)), Inr (RText (Some (Text (JObj d))))), (NowIso, Inr (RStr now)),
          (Redis (Set (job_record_key jid) (dumps (JObj new)) KeepTtl), Inr RUnit)]"
    using patch_record_runs [OF assms(1) _ patch] by auto
  show ?thesis
    by (rule exI [of _ new], rule exI [of _ now], rule exI [of _ "t1 @ t2 @ butlast t3"])
      (simp add: t hot t3 1 2 new map_add_def)
qed

definition with_record :: env where
  "with_record = calm\<lparr>ask_text := (\<lambda>_ _. Inr (Some (Text (JObj
     [(py ''status'', JStr (py ''RUNNING'')), (py ''user_id'', JStr (py ''u1''))]))))\<rparr>"

theorem store_terminal_record_witness:
  "\<exists>t new. store_terminal with_record \<lparr>has_minio = True, bucket = py ''b''\<rparr> (py ''j1'') (new_result (py ''j1'') COMPLETED) (py ''w1'') [] =
     (Inr (), t) \<and> (Redis (Set (job_record_key (py ''j1'')) (dumps (JObj new)) KeepTtl), Inr RUnit) \<in> set t \<and>
     map_of new (py ''user_id'') = Some (JStr (py ''u1''))"
proof -
  let ?d = "[(py ''status'', JStr (py ''RUNNING'')), (py ''user_id'', JStr (py ''u1''))]"
  have rec: "holds_record with_record (py ''j1'') ?d"
    by (simp add: holds_record_def with_record_def)
  obtain t where t: "store_terminal with_record \<lparr>has_minio = True, bucket = py ''b''\<rparr> (py ''j1'')
      (new_result (py ''j1'') COMPLETED) (py ''w1'') [] = (Inr (), t)"
    by (simp add: store_terminal_def archive_def suppress_def catch_def patch_record_def get_record_def bnd_def call_defs
        call_def ret_def loads_def with_record_def Let_def)
  have k: "py ''user_id'' \<notin> {py ''status'', py ''result'', py ''worker_id'', py ''updated_at''}" by simp
  from store_terminal_record [OF rec t] k t show ?thesis by fastforce
qed

end
