(* ===== verification/Redelivery.thy ===== *)
theory Redelivery
  imports Worker Sample_Env
begin

text \<open>
  How often one queue entry is run. The messages are those that runs of \<^verbatim>\<open>read\<close> and
  \<^verbatim>\<open>claim_stale\<close> return, with the delivery counts these functions put on them; Redis is a
  parameter that is relied on for its documented bookkeeping of deliveries.
\<close>

fun spawn_cmd :: "cmd \<Rightarrow> bool" where
  "spawn_cmd (Proc (Spawn _)) = True"
| "spawn_cmd _ = False"

text \<open>Processing the message can start a container.\<close>

definition may_run :: "daemon \<Rightarrow> queue_message \<Rightarrow> bool" where
  "may_run D m \<longleftrightarrow> (\<exists>E h. list_ex (\<lambda>ev. spawn_cmd (fst ev)) (snd (process E D m h)))"

lemma service_starts_nothing: "service_cmd c \<or> ack_cmd c \<Longrightarrow> \<not> spawn_cmd c"
  by (cases c rule: spawn_cmd.cases) auto

lemma exhausted_never_runs:
  assumes "max_retries (dcfg D) < delivery_count m"
  shows "\<not> may_run D m"
proof -
  let ?P = "\<lambda>ev. \<not> spawn_cmd (fst ev)"
  note weaken = only_weaken [where Q = ?P]
  have fin: "only ?P (finalize E D jid lang res)" for E jid lang res
    by (rule weaken [OF only_finalize_service]) (auto simp: service_def service_starts_nothing)
  have slot: "only ?P (release_slot E user jid)" for E user jid
    by (rule weaken [OF only_store_service(6)]) (auto simp: service_def service_starts_nothing)
  have "only ?P (bury E D user jid m reason)" for E user jid reason
    unfolding bury_def dead_letter_def ack_def by (auto intro!: only_rules slot)
  then have "only ?P (process E D m)" for E
    using assms unfolding process_def Let_def finalize_failed_def by (auto intro!: only_rules fin)
  then show ?thesis by (auto simp: may_run_def only_def list_ex_iff list_all_iff)
qed

subsection \<open>Deliveries of an entry\<close>

text \<open>The reply hands the entry to the consumer that asked.\<close>

fun delivers :: "pystr \<Rightarrow> event \<Rightarrow> bool" where
  "delivers mid (Redis (XReadGroup g w s n b), Inr (RStreams res)) \<longleftrightarrow> mid \<in> fst ` set (concat (map snd res))"
| "delivers mid (Redis (XClaim s g w i ids), Inr (REntries es)) \<longleftrightarrow> mid \<in> fst ` set es"
| "delivers mid _ \<longleftrightarrow> False"

definition delivered :: "pystr \<Rightarrow> history \<Rightarrow> nat" where
  "delivered mid h = length (filter (delivers mid) h)"

lemma delivered_simps [simp]:
  "delivered mid [] = 0" "delivered mid (h @ t) = delivered mid h + delivered mid t"
  "delivered mid (ev # t) = (if delivers mid ev then 1 else 0) + delivered mid t"
  by (simp_all add: delivered_def)

text \<open>
  What Redis documents of consumer groups: \<^verbatim>\<open>XREADGROUP >\<close> returns entries that were never
  delivered to the group, each once; \<^verbatim>\<open>XPENDING\<close> lists an entry once, with a counter that
  every delivery increments (deliveries to other consumers, and replies that were lost,
  count too); \<^verbatim>\<open>XCLAIM\<close> returns each of the named entries at most once and no others.
\<close>

definition redis_stream :: "env \<Rightarrow> bool" where
  "redis_stream E \<longleftrightarrow>
     (\<forall>h w n b res. ask_streams E h (Redis (XReadGroup CONSUMER_GROUP w JOB_STREAM n b)) = Inr res \<longrightarrow>
        distinct (map fst (concat (map snd res))) \<and>
        (\<forall>e \<in> set (concat (map snd res)). delivered (fst e) h = 0)) \<and>
     (\<forall>h n i ps. ask_pending E h (Redis (XPendingRange JOB_STREAM CONSUMER_GROUP n i)) = Inr ps \<longrightarrow>
        distinct (map fst ps) \<and> (\<forall>p \<in> set ps. int (delivered (fst p) h) \<le> snd p)) \<and>
     (\<forall>h w i ids es. ask_entries E h (Redis (XClaim JOB_STREAM CONSUMER_GROUP w i ids)) = Inr es \<longrightarrow>
        distinct (map fst es) \<and> fst ` set es \<subseteq> set ids)"

text \<open>
  The messages \<open>ms\<close> the fetches of a worker returned, in order, after the history \<open>h\<close>. Between
  two fetches anything may happen: the worker processes messages, a fetch fails, its reply is
  lost in a crash, or another worker fetches.
\<close>

inductive received :: "env \<Rightarrow> history \<Rightarrow> queue_message list \<Rightarrow> bool" for E where
  at_start: "received E [] []"
| newly_read: "received E h ms \<Longrightarrow> read E w n b h = (Inr ms', t) \<Longrightarrow> received E (h @ t) (ms @ ms')"
| reclaimed: "received E h ms \<Longrightarrow> claim_stale E w i n h = (Inr ms', t) \<Longrightarrow> received E (h @ t) (ms @ ms')"
| elsewhere: "received E h ms \<Longrightarrow> received E (h @ t) ms"

definition copies :: "pystr \<Rightarrow> queue_message list \<Rightarrow> queue_message list" where
  "copies mid = filter (\<lambda>m. msg_id m = mid)"

lemma copies_append [simp]: "copies mid (xs @ ys) = copies mid xs @ copies mid ys"
  by (simp add: copies_def)

lemma copies_distinct:
  assumes "distinct (map msg_id ms)"
  obtains "copies mid ms = []" | m where "copies mid ms = [m]" "m \<in> set ms" "msg_id m = mid"
proof -
  from assms have "length (copies mid ms) \<le> 1"
    unfolding copies_def by (induction ms) (auto simp: filter_empty_conv, metis image_eqI)
  then consider "copies mid ms = []" | m where "copies mid ms = [m]"
    by (cases "copies mid ms") auto
  then show thesis
  proof cases
    case (2 m)
    then have "m \<in> set (copies mid ms)" by simp
    then have "m \<in> set ms" "msg_id m = mid" by (auto simp: copies_def)
    with 2 that(2) show thesis by blast
  qed (rule that(1))
qed

text \<open>
  What one fetch adds to the history \<open>h\<close>: every message once, counted in the trace \<open>t\<close>, with a
  delivery count that is no less than the deliveries before.
\<close>

definition fetches :: "history \<Rightarrow> queue_message list \<Rightarrow> event list \<Rightarrow> bool" where
  "fetches h ms t \<longleftrightarrow> distinct (map msg_id ms) \<and>
     (\<forall>m \<in> set ms. int (delivered (msg_id m) h) \<le> delivery_count m) \<and>
     (\<forall>mid. length (copies mid ms) \<le> delivered mid t)"

lemma to_message_sel [simp]:
  "msg_id (to_message mid fs n) = mid" "delivery_count (to_message mid fs n) = n"
  by (simp_all add: to_message_def Let_def)

lemma ensure_group_delivers:
  assumes "ensure_group E h = (r, t)"
  shows "delivered mid t = 0"
proof -
  have "only (\<lambda>ev. fst ev = create_group) (ensure_group E)"
    unfolding only_def ensure_group_def
    by (auto simp: suppress_def catch_def call_defs call_def ret_def split: sum.splits option.splits)
  then have "\<forall>ev \<in> set t. fst ev = create_group" using only_trace assms by blast
  then have "\<not> delivers mid ev" if "ev \<in> set t" for ev
    using that by (cases "(mid, ev)" rule: delivers.cases) (force simp: create_group_def)+
  then show ?thesis by (auto simp: delivered_def filter_empty_conv)
qed

lemma read_fetches:
  assumes "redis_stream E" "read E w n b h = (Inr ms, t)"
  shows "fetches h ms t"
proof -
  obtain u t1 res where grp: "ensure_group E h = (u, t1)" and
    res: "ask_streams E (h @ t1) (Redis (XReadGroup CONSUMER_GROUP w JOB_STREAM n b)) = Inr res" and
    ms': "ms = concat (map (\<lambda>(_, entries). map (\<lambda>(mid, fs). to_message mid fs 1) entries) res)" and
    t: "t = t1 @ [(Redis (XReadGroup CONSUMER_GROUP w JOB_STREAM n b), Inr (RStreams res))]"
    using assms(2) by (auto simp: read_def bnd_Inr_eq call_defs call_def)
  have ms: "ms = map (\<lambda>(mid, fs). to_message mid fs 1) (concat (map snd res))"
    by (simp add: ms' map_concat comp_def case_prod_unfold)
  have ids: "map msg_id ms = map fst (concat (map snd res))" by (simp add: ms comp_def split_beta)
  have new: "delivered (msg_id m) (h @ t1) = 0" if "m \<in> set ms" for m
  proof -
    have "\<forall>e \<in> set (concat (map snd res)). delivered (fst e) (h @ t1) = 0"
      using assms(1) res unfolding redis_stream_def by blast
    then show ?thesis using that by (fastforce simp: ms)
  qed
  have dist: "distinct (map msg_id ms)" using assms(1) res ids unfolding redis_stream_def by metis
  have "length (copies mid ms) \<le> delivered mid t" for mid
    using dist
  proof (cases rule: copies_distinct [of ms mid])
    case (2 m)
    then have "mid \<in> set (map msg_id ms)" by auto
    then show ?thesis using 2 unfolding ids by (simp add: t)
  qed simp_all
  moreover have "delivery_count m = 1" if "m \<in> set ms" for m using that by (auto simp: ms)
  ultimately show ?thesis using dist new by (auto simp: fetches_def)
qed

lemma claim_each_fetches:
  assumes "redis_stream E" "distinct (map fst pending)" "claim_each E w i pending claimed h = (Inr ms, t)"
  shows "\<exists>new. ms = claimed @ new \<and> distinct (map msg_id new) \<and>
           (\<forall>m \<in> set new. (msg_id m, delivery_count m) \<in> set pending) \<and>
           (\<forall>mid. length (copies mid new) \<le> delivered mid t)"
  using assms(2,3)
proof (induction pending arbitrary: claimed h t)
  case Nil
  then show ?case by (simp add: copies_def)
next
  case (Cons p pending)
  obtain mid n where p: "p = (mid, n)" by (cases p)
  let ?c = "Redis (XClaim JOB_STREAM CONSUMER_GROUP w i [mid])"
  from Cons.prems p obtain es t2 where es: "ask_entries E h ?c = Inr es" and
    rest: "claim_each E w i pending (claimed @ map (\<lambda>(cid, fs). to_message cid fs n) es)
             (h @ [(?c, Inr (REntries es))]) = (Inr ms, t2)" and
    t: "t = (?c, Inr (REntries es)) # t2"
    by (auto simp: bnd_Inr_eq call_defs call_def)
  have "distinct (map fst es)" "fst ` set es \<subseteq> {mid}"
    using assms(1) es unfolding redis_stream_def by (metis, metis empty_set list.simps(15))
  then obtain fs where cs: "es = [] \<or> es = [(mid, fs)]"
    by (cases es; cases "tl es") auto
  have dp: "distinct (map fst pending)" "mid \<notin> fst ` set pending" using Cons.prems(1) p by auto
  from Cons.IH [OF dp(1) rest] obtain new where
    new: "ms = claimed @ map (\<lambda>(cid, fs). to_message cid fs n) es @ new" "distinct (map msg_id new)"
      "\<forall>m \<in> set new. (msg_id m, delivery_count m) \<in> set pending"
      "\<forall>mid. length (copies mid new) \<le> delivered mid t2" by auto
  have "mid \<noteq> msg_id m" if "m \<in> set new" for m using new(3) dp(2) that by force
  with cs new p show ?case
    by (intro exI [of _ "map (\<lambda>(cid, fs). to_message cid fs n) es @ new"]) (auto simp: t copies_def)
qed

lemma claim_stale_fetches:
  assumes "redis_stream E" "claim_stale E w i n h = (Inr ms, t)"
  shows "fetches h ms t"
proof -
  obtain u t1 ps t2 where grp: "ensure_group E h = (u, t1)" and
    ps: "ask_pending E (h @ t1) (Redis (XPendingRange JOB_STREAM CONSUMER_GROUP n i)) = Inr ps" and
    cl: "claim_each E w i ps [] (h @ t1 @ [(Redis (XPendingRange JOB_STREAM CONSUMER_GROUP n i), Inr (RPending ps))])
           = (Inr ms, t2)" and
    t: "t = t1 @ (Redis (XPendingRange JOB_STREAM CONSUMER_GROUP n i), Inr (RPending ps)) # t2"
    using assms(2) by (auto simp: claim_stale_def bnd_Inr_eq call_defs call_def)
  have d: "distinct (map fst ps)" and "\<forall>p \<in> set ps. int (delivered (fst p) (h @ t1)) \<le> snd p"
    using assms(1) ps unfolding redis_stream_def by blast+
  moreover from claim_each_fetches [OF assms(1) d cl] have "distinct (map msg_id ms)"
    "\<forall>m \<in> set ms. (msg_id m, delivery_count m) \<in> set ps" "\<forall>mid. length (copies mid ms) \<le> delivered mid t2"
    by auto
  ultimately show ?thesis
    using ensure_group_delivers [OF grp] by (fastforce simp: fetches_def t trans_le_add2)
qed

text \<open>
  The \<open>i\<close>-th copy of an entry, from 0, has a delivery count of at least \<open>i\<close>, and no copy is
  without a delivery.
\<close>

definition numbered :: "history \<Rightarrow> queue_message list \<Rightarrow> bool" where
  "numbered h ms \<longleftrightarrow> (\<forall>mid. length (copies mid ms) \<le> delivered mid h \<and>
     (\<forall>i < length (copies mid ms). int i \<le> delivery_count (copies mid ms ! i)))"

lemma fetches_numbered:
  assumes "numbered h ms" "fetches h ms' t"
  shows "numbered (h @ t) (ms @ ms')"
  unfolding numbered_def
proof (intro allI conjI impI)
  fix mid
  show "length (copies mid (ms @ ms')) \<le> delivered mid (h @ t)"
    using assms by (simp add: numbered_def fetches_def add_mono)
  fix i assume i: "i < length (copies mid (ms @ ms'))"
  have "distinct (map msg_id ms')" using assms(2) by (simp add: fetches_def)
  then show "int i \<le> delivery_count (copies mid (ms @ ms') ! i)"
  proof (cases rule: copies_distinct [of ms' mid])
    case 1
    then show ?thesis using assms(1) i by (simp add: numbered_def)
  next
    case (2 m)
    show ?thesis
    proof (cases "i < length (copies mid ms)")
      case True
      then show ?thesis using assms(1) by (simp add: numbered_def nth_append)
    next
      case False
      have "i \<le> length (copies mid ms)" using i 2(1) by simp
      also have "\<dots> \<le> delivered mid h" using assms(1) by (simp add: numbered_def)
      finally have "int i \<le> int (delivered mid h)" by simp
      also have "\<dots> \<le> delivery_count m" using assms(2) 2 by (auto simp: fetches_def)
      finally show ?thesis using False i 2(1) by (simp add: nth_append)
    qed
  qed
qed

lemma received_numbered:
  assumes "redis_stream E" "received E h ms"
  shows "numbered h ms"
  using assms(2)
proof induction
  case at_start
  then show ?case by (simp add: numbered_def copies_def)
next
  case (elsewhere h ms t)
  then show ?case by (auto simp: numbered_def intro: trans_le_add1)
qed (blast intro: fetches_numbered read_fetches claim_stale_fetches assms(1))+

lemma few_small:
  assumes "\<forall>i < length xs. int i \<le> f (xs ! i)"
  shows "length (filter (\<lambda>x. f x \<le> M) xs) \<le> nat M + 1"
proof -
  have "{i. i < length xs \<and> f (xs ! i) \<le> M} \<subseteq> {..nat M}" using assms by fastforce
  then have "card {i. i < length xs \<and> f (xs ! i) \<le> M} \<le> nat M + 1"
    by (metis card_mono card_atMost finite_atMost Suc_eq_plus1)
  then show ?thesis by (simp add: length_filter_conv_card)
qed

text \<open>
  C16: A poison entry is run a bounded number of times. However the fetches of a worker and
  everything else interleave, at most one more of the messages that \<^verbatim>\<open>read\<close> and
  \<^verbatim>\<open>claim_stale\<close> return for an entry than the configured retries can start a container.
\<close>

theorem attempts_bounded:
  assumes "redis_stream E" "received E h ms"
  shows "length (filter (\<lambda>m. msg_id m = mid \<and> may_run D m) ms) \<le> nat (max_retries (dcfg D)) + 1"
proof -
  let ?M = "max_retries (dcfg D)"
  have "length (filter (\<lambda>m. may_run D m) (copies mid ms)) \<le> length (filter (\<lambda>m. delivery_count m \<le> ?M) (copies mid ms))"
    using exhausted_never_runs by (intro length_filter_mono) force
  also have "\<dots> \<le> nat ?M + 1"
    using received_numbered [OF assms] by (intro few_small) (simp add: numbered_def)
  finally show ?thesis by (simp add: copies_def conj_commute)
qed

definition no_retries :: daemon where
  "no_retries = \<lparr>dctx = sample_ctx\<lparr>config_of := sample_config\<lparr>max_retries := 0\<rparr>\<rparr>,
     dstore = \<lparr>has_minio = False, bucket = []\<rparr>\<rparr>"

text \<open>A server with one entry, \<^verbatim>\<open>1-0\<close>, that counts its deliveries.\<close>

definition one_entry :: env where
  "one_entry = calm\<lparr>
     ask_streams := (\<lambda>h _. Inr (if delivered (py ''1-0'') h = 0 then [(JOB_STREAM, [(py ''1-0'', [])])] else [])),
     ask_pending := (\<lambda>h _. Inr [(py ''1-0'', int (delivered (py ''1-0'') h))]),
     ask_entries := (\<lambda>h c. Inr (case c of Redis (XClaim _ _ _ _ ids) \<Rightarrow> map (\<lambda>i. (i, [])) (remdups ids) | _ \<Rightarrow> []))\<rparr>"

lemma one_entry_stream: "redis_stream one_entry"
  by (auto simp: redis_stream_def one_entry_def comp_def)

theorem attempts_bounded_witness:
  "\<exists>h m1 m2. received one_entry h [m1, m2] \<and> msg_id m1 = py ''1-0'' \<and> msg_id m2 = py ''1-0'' \<and>
     length (filter (\<lambda>m. msg_id m = py ''1-0'' \<and> may_run no_retries m) [m1, m2]) \<le> 1"
proof -
  let ?m = "to_message (py ''1-0'') [] 1"
  obtain t1 where 1: "read one_entry (py ''w1'') 1 0 [] = (Inr [?m], t1)" "delivered (py ''1-0'') t1 = 1"
    "group_ready t1"
    by (simp add: read_def ensure_group_def group_ready_def suppress_def catch_def bnd_def call_defs call_def
        ret_def one_entry_def create_group_def)
  obtain t2 where 2: "claim_stale one_entry (py ''w2'') 60000 1 t1 = (Inr [?m], t2)"
    using 1(2,3) by (simp add: claim_stale_def ensure_group_def bnd_def call_defs call_def ret_def one_entry_def)
  have "received one_entry ([] @ t1) ([] @ [?m])" using received.newly_read [OF received.at_start 1(1)] .
  then have "received one_entry ([] @ t1) [?m]" by simp
  from received.reclaimed [OF this, of "py ''w2''" 60000 1 "[?m]" t2] 2
  have r: "received one_entry (t1 @ t2) [?m, ?m]" by simp
  have "nat (max_retries (dcfg no_retries)) + 1 = 1" by (simp add: no_retries_def)
  with attempts_bounded [OF one_entry_stream r, of "py ''1-0''" no_retries] r show ?thesis
    by (intro exI [of _ "t1 @ t2"] exI [of _ ?m]) simp
qed

text \<open>
  C38: Without retries nothing runs. With \<^verbatim>\<open>QUEUE_MAX_RETRIES=0\<close> a new entry, delivered for
  the first time, already counts as exhausted: no message that \<^verbatim>\<open>read\<close> returns ever starts a
  container.
\<close>

theorem zero_retries_run_nothing:
  assumes "max_retries (dcfg D) \<le> 0" "read E w n b h = (Inr ms, t)" "m \<in> set ms"
  shows "\<not> list_ex (\<lambda>ev. spawn_cmd (fst ev)) (snd (process E' D m h'))"
proof -
  have "delivery_count m = 1"
    using assms(2,3) by (auto simp: read_def bnd_Inr_eq call_defs call_eq ret_def to_message_def Let_def)
  then have "\<not> may_run D m" using exhausted_never_runs [of D m] assms(1) by simp
  then show ?thesis by (auto simp: may_run_def)
qed

definition fresh_entry :: env where
  "fresh_entry = calm\<lparr>ask_streams := (\<lambda>_ _. Inr [(JOB_STREAM, [(py ''1-0'', [])])])\<rparr>"

theorem zero_retries_run_nothing_witness:
  "\<exists>m t. read fresh_entry (py ''w1'') 1 0 [] = (Inr [m], t) \<and>
     \<not> list_ex (\<lambda>ev. spawn_cmd (fst ev)) (snd (process calm no_retries m []))"
proof -
  obtain m t where r: "read fresh_entry (py ''w1'') 1 0 [] = (Inr [m], t)"
    by (simp add: read_def ensure_group_def group_ready_def suppress_def catch_def bnd_def call_defs call_def
        ret_def fresh_entry_def)
  have "max_retries (dcfg no_retries) \<le> 0" by (simp add: no_retries_def)
  from zero_retries_run_nothing [OF this r, of m calm "[]"] r show ?thesis by auto
qed

end
