(* ===== verification/Wait_Budget.thy ===== *)
theory Wait_Budget
  imports Executor Cleanup
begin

text \<open>
  How long the executor itself chooses to wait in one run. Only its timed waits count: the
  wait for the program under the effective timeout and the two waits of the termination
  ladder. Docker commands and the last wait of the ladder have no timeout in the code, so no
  bound on the duration of a run follows.
\<close>

fun wait_bound :: "cmd \<Rightarrow> int" where
  "wait_bound (Proc (WaitAny n _)) = n"
| "wait_bound (Proc (WaitProc (Some n))) = n"
| "wait_bound _ = 0"

definition waited :: "event list \<Rightarrow> int" where
  "waited t = sum_list (map (\<lambda>ev. wait_bound (fst ev)) t)"

lemma waited_simps [simp]:
  "waited [] = 0" "waited (ev # t) = wait_bound (fst ev) + waited t" "waited (t @ t') = waited t + waited t'"
  by (simp_all add: waited_def)

definition budget :: "int \<Rightarrow> 'a io \<Rightarrow> bool" where
  "budget b m \<longleftrightarrow> (\<forall>h. waited (snd (m h)) \<le> b)"

abbreviation unwaiting :: "event \<Rightarrow> bool" where
  "unwaiting ev \<equiv> wait_bound (fst ev) = 0"

lemma budget_only: "only unwaiting m \<Longrightarrow> budget 0 m"
proof -
  have "list_all unwaiting t \<Longrightarrow> waited t = 0" for t :: "event list"
    by (induction t) auto
  then show "only unwaiting m \<Longrightarrow> budget 0 m" by (simp add: only_def budget_def)
qed

lemma budget_bnd:
  assumes "budget b m" "\<And>a. budget c (f a)" "0 \<le> c"
  shows "budget (b + c) (bnd m f)"
  unfolding budget_def
proof
  fix h
  obtain r t where m: "m h = (r, t)" by (cases "m h")
  then have "waited t \<le> b" using assms(1) unfolding budget_def by (metis snd_conv)
  moreover have "waited (snd (f a (h @ t))) \<le> c" for a using assms(2) by (simp add: budget_def)
  ultimately show "waited (snd (bnd m f h)) \<le> b + c"
    using m assms(3) by (cases r) (auto simp: bnd_Inl bnd_Inr add_mono)
qed

lemmas budget_then = budget_bnd [where b = 0, simplified, OF budget_only]
lemmas budget_last = budget_bnd [where c = 0, simplified, OF _ budget_only]

lemma budget_call:
  "wait_bound c \<le> b \<Longrightarrow> budget b (get_bool E c)" "wait_bound c \<le> b \<Longrightarrow> budget b (get_wait E c)"
  by (simp_all add: budget_def call_defs call_def)

lemma budget_mono: "budget b m \<Longrightarrow> b \<le> c \<Longrightarrow> budget c m"
  unfolding budget_def by (meson order_trans)

lemma unwaiting_parts:
  "only unwaiting (feed_stdin E data)" "only unwaiting (resolve_cid E X container cache)"
  "only unwaiting (read_int_file E X path)" "only unwaiting (read_usage_usec E X path)"
  "only unwaiting (verify_image E X rt)" "only unwaiting (cleanup E X container w)"
  unfolding feed_stdin_def resolve_cid_def read_int_file_def read_usage_usec_def verify_image_def cleanup_def Let_def
  by (auto intro!: only_rules split: option.splits if_splits)

lemma unwaiting_sample: "only unwaiting (sample_loop E X container t0 n s)"
proof -
  have "only unwaiting (memory_reader E X container cache)" "only unwaiting (cpu_reader E X container cache)" for cache
    unfolding memory_reader_def cpu_reader_def
    by (auto intro!: only_rules only_first_some unwaiting_parts split: option.splits)
  then have "only unwaiting (sample_read E X container s)" "only unwaiting (sample_observe E X container t0 s)" for s
    unfolding sample_read_def sample_observe_def Let_def
    by (auto intro!: only_rules unwaiting_parts split: sum.splits)
  then show ?thesis by (induction n arbitrary: s) (auto intro!: only_rules)
qed

lemma unwaiting_prepare: "only unwaiting (prepare_workdir E X rt request jid)"
proof -
  have "only unwaiting (write_file E X w n content)" for w n content
    unfolding write_file_def by (auto intro!: only_rules)
  then show ?thesis
    unfolding prepare_workdir_def write_input_def by (auto intro!: only_rules only_for_each split: option.splits)
qed

lemma unwaiting_argv: "only unwaiting (run_argv E X rt request w container)"
proof -
  have "only unwaiting (seccomp_profile_path E (environ_of X) (tempdir_of X) rt)"
    by (auto simp: only_def seccomp_profile_path_def profile_path_def Let_def call_defs call_def
        bnd_def ret_def split: prod.splits sum.splits)
  then show ?thesis unfolding run_argv_def by (auto intro!: only_rules)
qed

lemma budget_terminate:
  assumes "0 \<le> sigterm_grace_seconds (config_of X)"
  shows "budget (sigterm_grace_seconds (config_of X) + KILL_WAIT_SECONDS) (terminate E X container)"
proof -
  have zero: "budget 0 (if b then ret () else seq (simple E a) (seq (suppress Q (do_unit E (Proc KillProc)))
      (seq (get_bool E (Proc (WaitProc None))) (ret ()))))" for b a Q
    by (rule budget_only) (auto intro!: only_rules)
  have kill: "0 \<le> KILL_WAIT_SECONDS" by (simp add: KILL_WAIT_SECONDS_def)
  have second: "budget KILL_WAIT_SECONDS (seq (simple E a) (bnd (get_bool E (Proc (WaitProc (Some KILL_WAIT_SECONDS))))
      (\<lambda>b. if b then ret () else seq (simple E a') (seq (suppress Q (do_unit E (Proc KillProc)))
        (seq (get_bool E (Proc (WaitProc None))) (ret ()))))))" for a a' Q
    by (rule budget_then, (auto intro!: only_rules)[1], rule budget_bnd [where c = 0, simplified],
        rule budget_call, simp, rule zero, rule kill)
  have none: "budget KILL_WAIT_SECONDS (ret ())" by (rule budget_mono [OF budget_only kill]) simp
  show ?thesis
    unfolding terminate_def Let_def
    by (rule budget_then, (auto intro!: only_rules)[1], rule budget_bnd)
      (use assms kill second none in \<open>auto intro!: budget_call\<close>)
qed

lemma budget_execute:
  assumes "get_runtime (registry_of X) (language request) = Inr rt" "envelope_ok (rt_limits rt)"
    and "0 \<le> sigterm_grace_seconds (config_of X)" "redis_only cb"
  shows "budget (clamp_timeout (rt_limits rt) (Some (timeout_seconds request))
     + (sigterm_grace_seconds (config_of X) + KILL_WAIT_SECONDS)) (execute E X request jid cb has_cancel)"
proof -
  let ?timeout = "clamp_timeout (rt_limits rt) (Some (timeout_seconds request))"
  let ?ladder = "sigterm_grace_seconds (config_of X) + KILL_WAIT_SECONDS"
  have pos: "0 \<le> ?timeout" "0 \<le> ?ladder"
    using assms(2,3) by (auto simp: clamp_timeout_def envelope_ok_def Let_def KILL_WAIT_SECONDS_def MAX_TIMEOUT_SECONDS_def)
  have await: "budget (?timeout + ?ladder) (await_completion E X container ?timeout has_cancel)" for container
  proof -
    have stop: "budget ?ladder (seq (terminate E X container) (ret x))" for x :: outcome
      by (rule budget_last [OF budget_terminate [OF assms(3)]]) simp
    have exit: "budget ?ladder (ret x)" for x :: outcome by (rule budget_mono [OF budget_only pos(2)]) simp
    have "budget ?ladder (case p of (exited, cancelled) \<Rightarrow> if exited then ret Completed
        else seq (terminate E X container) (ret (if has_cancel \<and> cancelled then Killed else TimedOut)))" for p
      using stop exit by (simp split: prod.splits)
    then show ?thesis unfolding await_completion_def by (intro budget_bnd budget_call pos) auto
  qed
  have pumps: "only unwaiting (run_pumps cb s n)" for s n
    by (rule only_run_pumps) (rule redis_only_weaken [OF assms(4)], auto simp: is_redis_def)
  have "budget (?timeout + ?ladder) (attend E X rt request jid container cb has_cancel start)" for container start
  proof (cases "encodable (stdin request)")
    case True
    have rest: "only unwaiting (bnd (get_chunks E (Proc ReadStreams)) (\<lambda>chunks.
         bnd (run_pumps cb chunks (output_max_bytes (rt_limits rt))) (\<lambda>cap.
         bnd (get_int E (Proc SampleTicks)) (\<lambda>ticks.
         bnd (sample_loop E X container start (nat ticks)
                \<lparr>smp = new_sample, smp_cache = Map.empty, smp_observed = False\<rparr>) (\<lambda>s.
         bnd (get_time E Clock) (\<lambda>now.
         bnd (get_exit E (Proc ReturnCode)) (\<lambda>returncode.
         ret (build_result jid returncode oc cap (smp s) (trunc_rat ((now - start) * 1000))))))))))" for oc
      by (auto intro!: only_rules pumps unwaiting_sample)
    have feed: "only unwaiting (attempt (feed_stdin E (encode (stdin request))))"
      by (intro only_attempt unwaiting_parts)
    show ?thesis
      unfolding attend_def Let_def using pos
      by (simp only: True not_True_eq_False if_False, intro budget_then [OF feed] budget_last [OF await rest]) simp
  qed (use pos in \<open>auto simp: attend_def intro: budget_mono [OF budget_only]\<close>)
  then have run: "budget (?timeout + ?ladder) (run E X rt request jid w container cb has_cancel)" for w container
    unfolding run_def using pos by (intro budget_then) (auto intro!: only_rules unwaiting_argv)
  have "budget (?timeout + ?ladder) (try_finally (run E X rt request jid w container cb has_cancel) (cleanup E X container w))"
    for w container
    unfolding budget_def
  proof
    fix h
    obtain r t where m: "run E X rt request jid w container cb has_cancel h = (r, t)" by fastforce
    obtain r' t' where c: "cleanup E X container w (h @ t) = (r', t')" by fastforce
    have "waited t \<le> ?timeout + ?ladder" using run m unfolding budget_def by (metis snd_conv)
    moreover have "waited t' \<le> 0" using budget_only [OF unwaiting_parts(6)] c unfolding budget_def by (metis snd_conv)
    ultimately show "waited (snd (try_finally (run E X rt request jid w container cb has_cancel)
        (cleanup E X container w) h)) \<le> ?timeout + ?ladder"
      using m c by (cases r') (simp_all add: try_finally_def)
  qed
  then show ?thesis
    unfolding execute_def Let_def
    using assms(1) pos by (auto intro!: budget_then unwaiting_parts unwaiting_prepare)
qed

lemma default_times:
  assumes "load_worker_config U environ tempdir hostname uuid = Inr cfg"
  shows "environ (py ''QUEUE_CLAIM_MIN_IDLE_MS'') = None \<Longrightarrow> claim_min_idle_ms cfg = 60000"
    "environ (py ''SIGTERM_GRACE_SECONDS'') = None \<Longrightarrow> sigterm_grace_seconds cfg = 2"
proof -
  have unset: "environ n = None \<Longrightarrow> env_int U environ n d = Inr d" for n d by (simp add: env_int_def)
  show "environ (py ''QUEUE_CLAIM_MIN_IDLE_MS'') = None \<Longrightarrow> claim_min_idle_ms cfg = 60000"
    "environ (py ''SIGTERM_GRACE_SECONDS'') = None \<Longrightarrow> sigterm_grace_seconds cfg = 2"
    using assms by (auto simp: load_worker_config_def Let_def unset ebind_Inr)
qed

text \<open>
  C28: The executor's own waits fit the lease. With the default lease and grace period, the
  timed waits of one run, for every submission and whatever docker does, add up to less than
  the idle time after which another worker may reclaim the queue entry and less than the age
  at which the reaper removes a running container. Docker commands and the wait after the
  forced kill have no timeout in the code and are not counted.
\<close>

theorem waits_fit_lease:
  assumes "load_worker_config (ucd_of X) (environ_of X) (tempdir_of X) hostname uuid = Inr (config_of X)"
    and "environ_of X (py ''QUEUE_CLAIM_MIN_IDLE_MS'') = None" "environ_of X (py ''SIGTERM_GRACE_SECONDS'') = None"
    and "build (ucd_of X) (environ_of X) = Inr (registry_of X)" "redis_only cb"
    and "execute E X request jid cb has_cancel h = (r, t)"
  shows "1000 * waited t < claim_min_idle_ms (config_of X) \<and> waited t < ORPHAN_AGE_SECONDS"
proof (cases "get_runtime (registry_of X) (language request)")
  case (Inl e)
  then have "t = []" using assms(6) by (simp add: execute_def raise_def)
  moreover have "claim_min_idle_ms (config_of X) = 60000"
    by (rule default_times(1) [OF assms(1,2)])
  ultimately show ?thesis by (simp add: ORPHAN_AGE_SECONDS_def)
next
  case (Inr rt)
  have cfg: "claim_min_idle_ms (config_of X) = 60000" "sigterm_grace_seconds (config_of X) = 2"
    by (rule default_times(1) [OF assms(1,2)], rule default_times(2) [OF assms(1,3)])
  have env: "envelope_ok (rt_limits rt)" using runtime_envelope [OF build_ok [OF assms(4)] Inr] by simp
  have "clamp_timeout (rt_limits rt) (Some (timeout_seconds request)) \<le> 25"
    using env by (auto simp: envelope_ok_def clamp_timeout_def Let_def MAX_TIMEOUT_SECONDS_def)
  moreover have "waited t \<le> clamp_timeout (rt_limits rt) (Some (timeout_seconds request)) + (2 + KILL_WAIT_SECONDS)"
    using budget_execute [OF Inr env _ assms(5), of E jid has_cancel] assms(6) cfg(2)
    unfolding budget_def by (metis snd_conv zero_le_numeral)
  ultimately show ?thesis using cfg by (simp add: KILL_WAIT_SECONDS_def ORPHAN_AGE_SECONDS_def)
qed

text \<open>The sample submission under the configuration of an empty environment.\<close>

theorem waits_fit_lease_witness:
  "\<exists>cfg r t. load_worker_config no_unicode Map.empty (py ''/tmp'') (py ''host'') (py ''0123456789'') = Inr cfg \<and>
     execute calm (sample_ctx\<lparr>config_of := cfg\<rparr>) sample_request (py ''j1'') None False [] = (r, t) \<and>
     1000 * waited t < claim_min_idle_ms cfg"
proof -
  obtain cfg where cfg: "load_worker_config no_unicode Map.empty (py ''/tmp'') (py ''host'') (py ''0123456789'') = Inr cfg"
    by (simp add: load_worker_config_def Let_def env_int_def)
  let ?X = "sample_ctx\<lparr>config_of := cfg\<rparr>"
  obtain r t where run: "execute calm ?X sample_request (py ''j1'') None False [] = (r, t)" by fastforce
  have "load_worker_config (ucd_of ?X) (environ_of ?X) (tempdir_of ?X) (py ''host'') (py ''0123456789'') = Inr (config_of ?X)"
    "environ_of ?X (py ''QUEUE_CLAIM_MIN_IDLE_MS'') = None" "environ_of ?X (py ''SIGTERM_GRACE_SECONDS'') = None"
    "build (ucd_of ?X) (environ_of ?X) = Inr (registry_of ?X)"
    using cfg sample_registry by simp_all
  from waits_fit_lease [OF this redis_only_None run] cfg run show ?thesis by auto
qed

end
