(* ===== verification/Spec2Isabelle.thy ===== *)
theory Spec2Isabelle
  imports Seccomp Live_Stream Startup Job_Record Redelivery Wait_Budget
begin

text \<open>
  Verification of the sandbox worker (\<^verbatim>\<open>src/worker\<close>).

  \<^bold>\<open>The program.\<close> An API (\<^verbatim>\<open>src/api\<close>, TypeScript) puts submissions into a Redis stream.
  Worker daemons (\<^verbatim>\<open>src/worker\<close>, Python) fetch them as a consumer group, run each one in a
  hardened container, stream its output to a Redis channel, store the result and
  acknowledge the entry. This development is about the worker.

  \<^bold>\<open>Theories, bottom up, and the code they model.\<close>

  \<^item> \<open>Prelude\<close>, \<open>Errors\<close>, \<open>Py_Str\<close>, \<open>Utf8\<close>, \<open>Json\<close>: the fact collections and generic lemmas;
    the exceptions (\<^verbatim>\<open>sandbox/errors.py\<close> and those of the standard library and clients);
    Python strings as lists of code points with \<^verbatim>\<open>strip\<close>, \<^verbatim>\<open>split\<close>, \<^verbatim>\<open>int\<close>, \<^verbatim>\<open>str\<close>;
    the incremental UTF-8 decoder with \<^verbatim>\<open>errors="replace"\<close> and the encoder; JSON values,
    dicts as association lists in insertion order. What Unicode tables decide (digits,
    case, white space beyond ASCII) is the parameter \<open>ucd\<close>.
  \<^item> \<open>Types\<close>: \<^verbatim>\<open>sandbox/types.py\<close> and \<^verbatim>\<open>sandbox/constants.py\<close>. \<open>Config\<close>: \<^verbatim>\<open>config.py\<close> with
    the part of \<^verbatim>\<open>posixpath\<close> it uses. \<open>Resource_Limits\<close>, \<open>Image_Registry\<close>, \<open>Seccomp\<close>: the files
    of the same names under \<^verbatim>\<open>sandbox/\<close>, with their tables.
  \<^item> \<open>Environment\<close>, \<open>Traces\<close>: effects. An operation of type \<open>'a io\<close> maps the history to a
    value or an exception and the events it adds. Docker, the file system, Redis, MinIO and
    the clock are an arbitrary function \<open>env\<close> from history and command to reply or exception;
    a theorem over all environments covers every answer and every failure they can show. An
    environment always answers: a command that hangs for ever is not represented.
    \<open>Traces\<close> has the logic of \<open>only\<close>, \<open>precedes\<close>, \<open>guarded\<close>, \<open>raises\<close> and \<open>succeeds\<close>.
  \<^item> \<open>Run_Command\<close>, \<open>Output_Capture\<close>, \<open>Executor\<close>: \<^verbatim>\<open>sandbox/executor.py\<close>: the \<^verbatim>\<open>docker run\<close> command
    line, the options docker reads from it, the capture of the two pipes, the life of one
    container. \<open>Wait_Budget\<close>: the timed waits of a run. \<open>Sample_Env\<close> is a concrete environment
    for witnesses.
  \<^item> \<open>Cleanup\<close>: \<^verbatim>\<open>sandbox/cleanup.py\<close>, the reaper of leaked containers and directories.
  \<^item> \<open>Result_Store\<close>: \<^verbatim>\<open>storage/result_store.py\<close> and \<^verbatim>\<open>queue/publisher.py\<close>. \<open>Consumer\<close>:
    \<^verbatim>\<open>queue/consumer.py\<close>.
  \<^item> \<open>Worker\<close>, \<open>Settlement\<close>, \<open>Live_Stream\<close>: \<^verbatim>\<open>_process\<close> and all it calls in \<^verbatim>\<open>worker.py\<close>: the
    order of its effects, that a delivery is settled, what a client sees. \<open>Job_Record\<close>: what
    storing does to the record. \<open>Redelivery\<close>: how often one entry is run, over sequences of
    fetches (\<open>received\<close>) against a Redis that keeps its documented delivery counter. \<open>Pool\<close>: the consume
    loop, the pool of jobs as a step relation, shutdown. \<open>Startup\<close>: construction and entry point.
  \<^item> \<open>Log_Format\<close>, \<open>Telemetry\<close>: \<^verbatim>\<open>telemetry/logging.py\<close> with the text \<^verbatim>\<open>json.dumps\<close> produces
    and a reader of that text, and \<^verbatim>\<open>telemetry/metrics.py\<close> with the updates as events that
    carry the operation and the labels.

  \<^bold>\<open>Interfaces.\<close> \<open>output_sink\<close> is what the pumps rely on of the capture, \<open>durable_store\<close> what the
  message handler relies on of the store, \<open>permits\<close> what the pool relies on of the semaphore,
  \<open>keyed_store\<close> what every user of a dict relies on; each is interpreted on the definitions of
  the component that provides it, and the properties rest on those interpretations.

  \<^bold>\<open>What is shown.\<close>

  \<^item> Isolation: every container started is hardened in all the options docker reads, limited
    and runs a verified image; files
    are written below the job's directory only; no seccomp profile allows a dangerous call;
    a submission reaches the command line only through filtered variables.
  \<^item> Resources: output is capped exactly; the termination ladder; cleanup on every path after
    the start; the reaper removes what qualifies and nothing else; the executor's
    timed waits fit the lease of the queue entry.
  \<^item> Delivery: a result is stored and the user's slot released before the entry is
    acknowledged; an entry starts a bounded number of containers and is then buried; a Docker
    outage within the retry limit keeps the entry; if Redis serves and every command answers,
    a well-formed delivery is settled; the live stream is the stored result; a failure that
    the handler survives is recorded.
  \<^item> Concurrency: fetches fit the free slots, the pool never exceeds its bound, a drained
    daemon has lost nothing that was fetched.
  \<^item> Start-up and telemetry: ill-formed variables stop the worker before it touches the queue;
    a log line is read back as exactly its record; metric updates fit their declarations.

  \<^bold>\<open>Bounds and fuel.\<close> The consume loop, the reaper loop and the memory sampler have no end of
  their own; they are unrolled a given number of times, chosen by a parameter or by the
  environment, and the theorems hold for every number. The chunks the pipes deliver and the
  polls of the cancellation watcher are lists the environment chooses; both loops are
  structural recursions over them. Integers are unbounded as in Python.

  \<^bold>\<open>Not modelled.\<close> Scheduling inside one job: the two pumps, the sampler and the watcher
  appear with the interleaving the environment chooses, and their effects on other services
  are placed at the point where they are joined; tasks the code leaves behind when a run
  fails (\<open>attend\<close>) have no further events. Commands that never answer, so nothing is said of
  real time beyond the timed waits. The limit of 4300 digits Python puts on \<^verbatim>\<open>int\<close> of a
  string. Log calls (they change no state of the
  worker; the formatter is modelled). The subprocess wrapper \<^verbatim>\<open>_default_spawn\<close>, a single
  library call. The API, the benchmarks, the runtime images, monitoring and the tests.
\<close>

end
